(* ===== verification/Prelude.thy ===== *)
theory Prelude
  imports Main "HOL-Library.Word"
begin

text \<open>
  What every component of the kernel model shares: the machine integer types of
  \<^verbatim>\<open>include/os_types.h\<close>, little-endian fields inside byte buffers, C strings, the result type of
  code that may never return or may leave an array, and the record of outside services (block
  device, UART, timer, keyboard, display) the kernel code calls.
\<close>

unbundle bit_operations_syntax

named_theorems bytes_simps \<open>reading and writing little-endian fields of a byte buffer\<close>
named_theorems res_simps \<open>evaluation of sequenced calls\<close>
named_theorems res_ok_intros \<open>calls that end well or never return\<close>
named_theorems wf_simps \<open>well-formedness predicates, unfolded\<close>

section \<open>Machine integers and strings\<close>

type_synonym u8 = "8 word"
type_synonym u16 = "16 word"
type_synonym u32 = "32 word"
type_synonym u64 = "64 word"
type_synonym i32 = "32 word"

text \<open>A string literal of the C source, without its terminating NUL.\<close>

definition lit :: "string \<Rightarrow> u8 list" where
  "lit s = map of_char s"

text \<open>The C string held by a byte array: its bytes up to the first NUL.\<close>

definition cstr :: "u8 list \<Rightarrow> u8 list" where
  "cstr b = takeWhile (\<lambda>c. c \<noteq> 0) b"

definition terminated :: "u8 list \<Rightarrow> bool" where
  "terminated b \<longleftrightarrow> 0 \<in> set b"

lemma length_lit [simp]: "length (lit s) = length s"
  by (simp add: lit_def)

lemma cstr_Nil [simp]: "cstr [] = []"
  by (simp add: cstr_def)

lemma cstr_no_nul [simp]: "0 \<notin> set (cstr b)"
  by (auto simp: cstr_def dest: set_takeWhileD)

lemma cstr_append_nul [simp]: "0 \<notin> set s \<Longrightarrow> cstr (s @ 0 # r) = s"
  by (induction s) (auto simp: cstr_def)

lemma cstr_idem [simp]: "cstr (cstr b) = cstr b"
  by (simp add: cstr_def takeWhile_idem)

lemma cstr_id: "0 \<notin> set s \<Longrightarrow> cstr s = s"
  by (auto simp: cstr_def takeWhile_eq_all_conv)

lemma length_cstr: "length (cstr b) \<le> length b"
  by (simp add: cstr_def length_takeWhile_le)

lemma length_cstr_less: "terminated b \<Longrightarrow> length (cstr b) < length b"
  by (induction b) (auto simp: cstr_def terminated_def)

lemma terminated_append_nul [simp]: "terminated (s @ 0 # r)"
  by (simp add: terminated_def)

lemma unat_ucast_u64 [simp]: "unat (ucast (x :: u32) :: u64) = unat x"
  by transfer simp

lemma unat_ucast_u32: "unat (ucast (x :: u64) :: u32) = unat x mod 2 ^ 32"
  by (simp add: unsigned_ucast_eq take_bit_eq_mod)

section \<open>Copying into a fixed buffer\<close>

text \<open>
  \<^verbatim>\<open>for (i = 0; i < n; i++) buf[off + i] = src[i]\<close>: the bytes of \<open>src\<close> replace those of \<open>buf\<close>
  from \<open>off\<close> on; every use keeps within the buffer.
\<close>

definition overwrite :: "'a list \<Rightarrow> nat \<Rightarrow> 'a list \<Rightarrow> 'a list" where
  "overwrite buf off src = take off buf @ src @ drop (off + length src) buf"

lemma length_overwrite [simp]:
  "off + length src \<le> length buf \<Longrightarrow> length (overwrite buf off src) = length buf"
  by (simp add: overwrite_def)

lemma nth_overwrite:
  assumes "off + length src \<le> length buf" and "i < length buf"
  shows "overwrite buf off src ! i =
    (if off \<le> i \<and> i < off + length src then src ! (i - off) else buf ! i)"
  using assms by (auto simp: overwrite_def nth_append min_def)

lemma overwrite_Nil [simp]: "overwrite buf off [] = buf"
  by (simp add: overwrite_def)

lemma take_overwrite [simp]: "n \<le> off \<Longrightarrow> off \<le> length buf \<Longrightarrow> take n (overwrite buf off src) = take n buf"
  by (simp add: overwrite_def min_def)

lemma take_overwrite_all:
  "off \<le> length buf \<Longrightarrow> take (off + length src) (overwrite buf off src) = take off buf @ src"
  by (simp add: overwrite_def min_def)

lemma overwrite_zero: "overwrite buf 0 src = src @ drop (length src) buf"
  by (simp add: overwrite_def)

section \<open>Little-endian fields\<close>

definition get16 :: "u8 list \<Rightarrow> nat \<Rightarrow> u16" where
  "get16 b i = ucast (b ! i) OR push_bit 8 (ucast (b ! (i + 1)))"

definition get32 :: "u8 list \<Rightarrow> nat \<Rightarrow> u32" where
  "get32 b i = ucast (b ! i) OR push_bit 8 (ucast (b ! (i + 1)))
     OR push_bit 16 (ucast (b ! (i + 2))) OR push_bit 24 (ucast (b ! (i + 3)))"

definition bytes16 :: "u16 \<Rightarrow> u8 list" where
  "bytes16 v = [ucast v, ucast (drop_bit 8 v)]"

definition bytes32 :: "u32 \<Rightarrow> u8 list" where
  "bytes32 v = [ucast v, ucast (drop_bit 8 v), ucast (drop_bit 16 v), ucast (drop_bit 24 v)]"

definition put16 :: "u8 list \<Rightarrow> nat \<Rightarrow> u16 \<Rightarrow> u8 list" where
  "put16 b i v = overwrite b i (bytes16 v)"

definition put32 :: "u8 list \<Rightarrow> nat \<Rightarrow> u32 \<Rightarrow> u8 list" where
  "put32 b i v = overwrite b i (bytes32 v)"

lemma length_bytes [simp]: "length (bytes16 v) = 2" "length (bytes32 w) = 4"
  by (simp_all add: bytes16_def bytes32_def)

lemma length_put16 [simp]: "i + 2 \<le> length b \<Longrightarrow> length (put16 b i v) = length b"
  by (simp add: put16_def)

lemma length_put32 [simp]: "i + 4 \<le> length b \<Longrightarrow> length (put32 b i v) = length b"
  by (simp add: put32_def)

lemma get16_put16 [bytes_simps]: "i + 2 \<le> length b \<Longrightarrow> get16 (put16 b i v) i = v"
  by (rule bit_word_eqI)
    (auto simp: get16_def put16_def bytes16_def nth_overwrite bit_simps)

lemma get32_put32 [bytes_simps]:
  assumes "i + 4 \<le> length b"
  shows "get32 (put32 b i v) i = v"
proof (rule bit_word_eqI)
  fix n assume n: "n < LENGTH(32)"
  consider "n < 8" | "8 \<le> n" "n < 16" | "16 \<le> n" "n < 24" | "24 \<le> n" "n < 32"
    using n by fastforce
  then show "bit (get32 (put32 b i v) i) n \<longleftrightarrow> bit v n"
    using assms
    by cases (auto simp: get32_def put32_def bytes32_def nth_overwrite bit_simps)
qed

lemma get16_overwrite_other [bytes_simps]:
  "off + length src \<le> length b \<Longrightarrow> i + 2 \<le> length b \<Longrightarrow> i + 2 \<le> off \<or> off + length src \<le> i
    \<Longrightarrow> get16 (overwrite b off src) i = get16 b i"
  by (auto simp: get16_def nth_overwrite)

lemma get32_overwrite_other [bytes_simps]:
  "off + length src \<le> length b \<Longrightarrow> i + 4 \<le> length b \<Longrightarrow> i + 4 \<le> off \<or> off + length src \<le> i
    \<Longrightarrow> get32 (overwrite b off src) i = get32 b i"
  by (auto simp: get32_def nth_overwrite)

section \<open>Calls that may not return\<close>

text \<open>
  C code has two ways of not producing a result here: it spins on a condition the hardware never
  makes true, or it reads or writes outside an array. Both are values, so that a claim that a
  call returns says so.
\<close>

datatype fault = Spin | OutOfBounds

type_synonym 'a res = "fault + 'a"

fun res_bind :: "'e + 'a \<Rightarrow> ('a \<Rightarrow> 'e + 'b) \<Rightarrow> 'e + 'b" where
  "res_bind (Inl e) f = Inl e"
| "res_bind (Inr x) f = f x"

lemma res_bind_Inr_iff [res_simps]:
  "res_bind m f = Inr y \<longleftrightarrow> (\<exists>x. m = Inr x \<and> f x = Inr y)"
  by (cases m) auto

lemma res_bind_assoc: "res_bind (res_bind m f) g = res_bind m (\<lambda>x. res_bind (f x) g)"
  by (cases m) auto

lemma res_bind_Inr_right [simp]: "res_bind m Inr = m"
  by (cases m) auto

text \<open>A loop over a list whose body may not return.\<close>

fun res_fold :: "('b \<Rightarrow> 'a \<Rightarrow> 'a res) \<Rightarrow> 'b list \<Rightarrow> 'a \<Rightarrow> 'a res" where
  "res_fold f [] x = Inr x"
| "res_fold f (i # is) x = res_bind (f i x) (res_fold f is)"

lemma res_fold_append: "res_fold f (xs @ ys) x = res_bind (res_fold f xs x) (res_fold f ys)"
proof (induction xs arbitrary: x)
  case (Cons a xs)
  then show ?case by (cases "f a x") simp_all
qed simp

text \<open>
  A call that leaves no array: it never returns, or it returns a result with \<open>P\<close>. The rules follow a
  sequence of calls.
\<close>

definition res_ok :: "('a \<Rightarrow> bool) \<Rightarrow> 'a res \<Rightarrow> bool" where
  "res_ok P r \<longleftrightarrow> (case r of Inl e \<Rightarrow> e = Spin | Inr x \<Rightarrow> P x)"

lemma res_ok_Inr [simp]: "res_ok P (Inr x) \<longleftrightarrow> P x"
  by (simp add: res_ok_def)

lemma res_ok_Inl [simp]: "res_ok P (Inl e) \<longleftrightarrow> e = Spin"
  by (simp add: res_ok_def)

lemma res_ok_bind:
  assumes "res_ok P m" "\<And>x. P x \<Longrightarrow> res_ok Q (f x)"
  shows "res_ok Q (res_bind m f)"
  using assms by (cases m) auto

lemma res_ok_if: "(b \<Longrightarrow> res_ok P x) \<Longrightarrow> (\<not> b \<Longrightarrow> res_ok P y) \<Longrightarrow> res_ok P (if b then x else y)"
  by simp

lemma res_ok_mono: "res_ok P m \<Longrightarrow> (\<And>x. P x \<Longrightarrow> Q x) \<Longrightarrow> res_ok Q m"
  by (auto simp: res_ok_def split: sum.splits)

section \<open>Outside services\<close>

text \<open>
  What the kernel code calls outside its own components, over a state \<open>'d\<close> that stands for the
  rest of the machine: the block driver, UART output and input, the system timer
  (\<^verbatim>\<open>cntpct_el0\<close>), the keyboard and the display. A block read gives the 512 bytes of the sector,
  or \<open>None\<close> where the driver returns -1; a block write says whether the driver returned 0.
\<close>

record 'd io =
  io_read :: "u64 \<Rightarrow> 'd \<Rightarrow> (u8 list option \<times> 'd) res"
  io_write :: "u64 \<Rightarrow> u8 list \<Rightarrow> 'd \<Rightarrow> (bool \<times> 'd) res"
  io_print :: "u8 list \<Rightarrow> 'd \<Rightarrow> 'd"
  io_timer :: "'d \<Rightarrow> u64 \<times> 'd"
  io_key :: "'d \<Rightarrow> u8 \<times> 'd"
  io_rx :: "'d \<Rightarrow> u8 \<times> 'd"
  io_flush :: "'d \<Rightarrow> 'd res"

text \<open>Printing several pieces in a row.\<close>

fun print_all :: "'d io \<Rightarrow> u8 list list \<Rightarrow> 'd \<Rightarrow> 'd" where
  "print_all io [] d = d"
| "print_all io (s # ss) d = print_all io ss (io_print io s d)"

lemma print_all_append [simp]: "print_all io (xs @ ys) d = print_all io ys (print_all io xs d)"
  by (induction xs arbitrary: d) auto

end
