(* ===== verification/Ring.thy ===== *)
theory Ring
  imports Prelude
begin

text \<open>
  Ring buffers seen as lists: \<open>ring_read buf s n\<close> is the run of \<open>n\<close> slots from \<open>s\<close>, wrapping at the
  end of the array. The event ring, the IPC mailbox and the virtqueues are read through it.
\<close>

definition ring_read :: "'a list \<Rightarrow> nat \<Rightarrow> nat \<Rightarrow> 'a list" where
  "ring_read buf s n = map (\<lambda>i. buf ! ((s + i) mod length buf)) [0..<n]"

text \<open>How many slots lie between two indices, going forward.\<close>

definition ring_dist :: "nat \<Rightarrow> nat \<Rightarrow> nat \<Rightarrow> nat" where
  "ring_dist N s e = (e + N - s) mod N"

lemma length_ring_read [simp]: "length (ring_read buf s n) = n"
  by (simp add: ring_read_def)

lemma ring_read_0 [simp]: "ring_read buf s 0 = []"
  by (simp add: ring_read_def)

lemma ring_read_mod [simp]: "ring_read buf (s mod length buf) n = ring_read buf s n"
  by (simp add: ring_read_def mod_add_left_eq)

lemma ring_read_snoc:
  "ring_read buf s (Suc n) = ring_read buf s n @ [buf ! ((s + n) mod length buf)]"
  by (simp add: ring_read_def)

lemma ring_read_Cons:
  "ring_read buf s (Suc n) = buf ! (s mod length buf) # ring_read buf (Suc s mod length buf) n"
  by (simp add: ring_read_def map_upt_Suc mod_add_left_eq del: upt_Suc)

lemma ring_index_inj:
  assumes "i < N" "j < N" "(s + i) mod N = (s + j) mod (N::nat)"
  shows "i = j"
proof (cases "i \<le> j")
  case True
  then have "N dvd j - i" using assms(3) mod_eq_dvd_iff_nat [of "s + i" "s + j" N] by simp
  with assms(2) True show ?thesis by (auto dest: dvd_imp_le)
next
  case False
  then have "N dvd i - j" using assms(3) mod_eq_dvd_iff_nat [of "s + j" "s + i" N] by simp
  with assms(1) False show ?thesis by (auto dest: dvd_imp_le)
qed

lemma ring_read_update:
  assumes "n \<le> k" "k < length buf"
  shows "ring_read (buf[(s + k) mod length buf := x]) s n = ring_read buf s n"
proof -
  have "(buf[(s + k) mod length buf := x]) ! ((s + i) mod length buf) = buf ! ((s + i) mod length buf)"
    if "i < n" for i
    using ring_index_inj [of i "length buf" k s] that assms by (intro nth_list_update_neq) auto
  then show ?thesis by (simp add: ring_read_def)
qed

lemma ring_read_write_end:
  assumes "n < length buf"
  shows "ring_read (buf[(s + n) mod length buf := x]) s (Suc n) = ring_read buf s n @ [x]"
proof -
  have "0 < length buf" using assms by linarith
  then have "(s + n) mod length buf < length buf" by (rule mod_less_divisor)
  then show ?thesis using assms by (simp add: ring_read_snoc ring_read_update)
qed

text \<open>Overwriting the oldest slot of a full ring and stepping past it.\<close>

lemma ring_read_overwrite_full:
  assumes "0 < length buf"
  shows "ring_read (buf[s mod length buf := x]) (Suc s) (length buf)
    = tl (ring_read buf s (length buf)) @ [x]"
proof -
  obtain m where m: "length buf = Suc m" using assms by (cases "length buf") auto
  have "(Suc s + m) mod length buf = s mod length buf"
    using mod_add_self2 [of s "Suc m"] by (simp add: m del: mod_add_self2)
  then have "ring_read (buf[s mod length buf := x]) (Suc s) (length buf)
      = ring_read buf (Suc s) m @ [x]"
    using ring_read_write_end [of m buf "Suc s" x] by (simp add: m)
  also have "ring_read buf (Suc s) m = tl (ring_read buf s (length buf))"
    using ring_read_mod [of buf "Suc s" m] by (simp add: m ring_read_Cons)
  finally show ?thesis .
qed

lemma ring_dist_less: "0 < N \<Longrightarrow> ring_dist N s e < N"
  by (simp add: ring_dist_def)

lemma ring_dist_0_iff: "s < N \<Longrightarrow> e < N \<Longrightarrow> ring_dist N s e = 0 \<longleftrightarrow> s = e"
  by (cases "e < s") (auto simp: ring_dist_def mod_if)

lemma ring_dist_same [simp]: "s \<le> N \<Longrightarrow> ring_dist N s s = 0"
  by (simp add: ring_dist_def)

lemma ring_dist_end:
  assumes "s < N" "e < N" shows "(s + ring_dist N s e) mod N = e"
  using assms by (simp add: ring_dist_def mod_add_right_eq)

lemma ring_dist_Suc_end:
  assumes "s < N" "e < N" "Suc (ring_dist N s e) < N"
  shows "ring_dist N s (Suc e mod N) = Suc (ring_dist N s e)"
  using assms by (cases "Suc e = N"; cases "e < s") (auto simp: ring_dist_def mod_if split: if_splits)

lemma ring_dist_Suc_start:
  assumes "s < N" "e < N" "s \<noteq> e"
  shows "Suc (ring_dist N (Suc s mod N) e) = ring_dist N s e"
  using assms by (cases "Suc s = N"; cases "e < s") (auto simp: ring_dist_def mod_if split: if_splits)

lemma ring_dist_wrap:
  assumes "s < N" "e < N" "Suc (ring_dist N s e) = N"
  shows "Suc e mod N = s"
  using assms by (cases "Suc e = N"; cases "e < s") (auto simp: ring_dist_def mod_if split: if_splits)

text \<open>Stepping an unsigned index modulo the ring size.\<close>

lemma unat_next:
  assumes "unat (h :: u32) < N" "N < 2 ^ 31"
  shows "unat ((h + 1) mod of_nat N) = Suc (unat h) mod N"
proof -
  have "unat (of_nat N :: u32) = N" using assms by (simp add: unat_of_nat take_bit_nat_eq_self)
  moreover have "unat (h + 1) = Suc (unat h)" using assms by (simp add: unat_word_ariths)
  ultimately show ?thesis by (simp add: unat_mod)
qed

lemmas unat_next64 = unat_next [of _ 64, simplified]
lemmas unat_next256 = unat_next [of _ 256, simplified]

end
