(* ===== verification/Ipc.thy ===== *)
theory Ipc
  imports Ring
begin

text \<open>
  The kernel mailbox of \<^verbatim>\<open>kernel/syscall.c\<close>: a ring of 256 messages (\<^verbatim>\<open>include/os_ipc.h\<close>) with a
  head and a tail index that keeps one slot free. \<open>fifo\<close> is the contract its users rely on, a bounded
  queue that drops what does not fit; \<open>contents\<close> is the queue a mailbox stands for.
\<close>

record os_message =
  sender_id :: u8
  target_id :: u8
  msg_type :: u16
  msg_length :: u32
  payload :: "u8 list"

record mailbox =
  ipc_queue :: "os_message list"
  ipc_head :: u32
  ipc_tail :: u32

text \<open>The numbers of \<^verbatim>\<open>include/os_ipc.h\<close>; a module number is a byte in messages and a word in regions.\<close>

abbreviation (input) SYS_IPC_SEND :: u64 where "SYS_IPC_SEND \<equiv> 1"
abbreviation (input) SYS_IPC_RECV :: u64 where "SYS_IPC_RECV \<equiv> 2"
abbreviation (input) SYS_GPU_FLUSH :: u64 where "SYS_GPU_FLUSH \<equiv> 3"
abbreviation (input) SYS_HW_DRAIN :: u64 where "SYS_HW_DRAIN \<equiv> 4"
abbreviation (input) SYS_UART_RECV :: u64 where "SYS_UART_RECV \<equiv> 5"
abbreviation (input) IPC_MSG_NONE :: u16 where "IPC_MSG_NONE \<equiv> 0"
abbreviation (input) IPC_MSG_KEY_PRESS :: u16 where "IPC_MSG_KEY_PRESS \<equiv> 1"
abbreviation (input) IPC_MSG_FS_LIST_REQ :: u16 where "IPC_MSG_FS_LIST_REQ \<equiv> 2"
abbreviation (input) IPC_MSG_FS_LIST_RESP :: u16 where "IPC_MSG_FS_LIST_RESP \<equiv> 3"
abbreviation (input) IPC_MSG_FS_READ_REQ :: u16 where "IPC_MSG_FS_READ_REQ \<equiv> 4"
abbreviation (input) IPC_MSG_FS_READ_RESP :: u16 where "IPC_MSG_FS_READ_RESP \<equiv> 5"
abbreviation (input) IPC_MSG_FS_WRITE_REQ :: u16 where "IPC_MSG_FS_WRITE_REQ \<equiv> 6"
abbreviation (input) IPC_MSG_FS_WRITE_RESP :: u16 where "IPC_MSG_FS_WRITE_RESP \<equiv> 7"
abbreviation (input) IPC_MSG_ATK_EXEC_REQ :: u16 where "IPC_MSG_ATK_EXEC_REQ \<equiv> 8"
abbreviation (input) IPC_MSG_ATK_EXEC_RESP :: u16 where "IPC_MSG_ATK_EXEC_RESP \<equiv> 9"
abbreviation (input) IPC_MSG_WATCHER_DUMP_REQ :: u16 where "IPC_MSG_WATCHER_DUMP_REQ \<equiv> 10"
abbreviation (input) IPC_MSG_WATCHER_DUMP_RESP :: u16 where "IPC_MSG_WATCHER_DUMP_RESP \<equiv> 11"
abbreviation (input) IPC_MSG_WATCHER_SYNC_REQ :: u16 where "IPC_MSG_WATCHER_SYNC_REQ \<equiv> 12"
abbreviation (input) IPC_MSG_WATCHER_SYNC_RESP :: u16 where "IPC_MSG_WATCHER_SYNC_RESP \<equiv> 13"
abbreviation (input) SYS_MOD_KERNEL :: "'a :: len word" where "SYS_MOD_KERNEL \<equiv> 1"
abbreviation (input) SYS_MOD_UART :: "'a :: len word" where "SYS_MOD_UART \<equiv> 2"
abbreviation (input) SYS_MOD_GUI_SHELL :: "'a :: len word" where "SYS_MOD_GUI_SHELL \<equiv> 3"

definition ipc_kernel_send :: "os_message \<Rightarrow> mailbox \<Rightarrow> mailbox" where
  "ipc_kernel_send msg q =
     (let next_tail = (ipc_tail q + 1) mod 256
      in if next_tail \<noteq> ipc_head q
         then q\<lparr>ipc_queue := (ipc_queue q)[unat (ipc_tail q) := msg], ipc_tail := next_tail\<rparr>
         else q)"

text \<open>
  The \<^verbatim>\<open>SYS_IPC_RECV\<close> branch: the oldest message, or the caller's message with type and length
  cleared.
\<close>

definition ipc_recv :: "os_message \<Rightarrow> mailbox \<Rightarrow> os_message \<times> mailbox" where
  "ipc_recv msg q =
     (if ipc_head q \<noteq> ipc_tail q
      then (ipc_queue q ! unat (ipc_head q), q\<lparr>ipc_head := (ipc_head q + 1) mod 256\<rparr>)
      else (msg\<lparr>msg_type := IPC_MSG_NONE, msg_length := 0\<rparr>, q))"

section \<open>The contract\<close>

text \<open>
  Users of a queue: a sequence of sends (\<open>Inl\<close>) and receives (\<open>Inr\<close>), with what was received; and
  the messages a queue that holds at most \<open>bound\<close> has room for on the way.
\<close>

fun queue_run :: "('m \<Rightarrow> 'q \<Rightarrow> 'q) \<Rightarrow> ('q \<Rightarrow> 'm option \<times> 'q) \<Rightarrow> ('m + unit) list \<Rightarrow> 'q \<Rightarrow> 'm list \<times> 'q" where
  "queue_run send recv [] q = ([], q)"
| "queue_run send recv (Inl m # ops) q = queue_run send recv ops (send m q)"
| "queue_run send recv (Inr u # ops) q = (let (r, q) = recv q; (rs, q) = queue_run send recv ops q
     in (case r of None \<Rightarrow> rs | Some m \<Rightarrow> m # rs, q))"

fun accepted :: "nat \<Rightarrow> ('m + unit) list \<Rightarrow> nat \<Rightarrow> 'm list" where
  "accepted bound [] n = []"
| "accepted bound (Inl m # ops) n = (if n < bound then m # accepted bound ops (Suc n) else accepted bound ops n)"
| "accepted bound (Inr u # ops) n = accepted bound ops (n - 1)"

locale fifo =
  fixes ok :: "'q \<Rightarrow> bool" and queued :: "'q \<Rightarrow> 'm list" and send :: "'m \<Rightarrow> 'q \<Rightarrow> 'q"
    and recv :: "'q \<Rightarrow> 'm option \<times> 'q" and bound :: nat
  assumes send_law: "ok q \<Longrightarrow> ok (send m q) \<and>
      queued (send m q) = (if length (queued q) < bound then queued q @ [m] else queued q)"
    and recv_law: "ok q \<Longrightarrow> ok (snd (recv q)) \<and>
      fst (recv q) = (case queued q of [] \<Rightarrow> None | m # ms \<Rightarrow> Some m) \<and> queued (snd (recv q)) = tl (queued q)"
    and bound_law: "ok q \<Longrightarrow> length (queued q) \<le> bound"
begin

lemma run_fifo:
  "ok q \<Longrightarrow> ok (snd (queue_run send recv ops q)) \<and>
    fst (queue_run send recv ops q) @ queued (snd (queue_run send recv ops q)) = queued q @ accepted bound ops (length (queued q))"
proof (induction ops arbitrary: q)
  case (Cons x ops)
  show ?case
  proof (cases x)
    case (Inl m)
    then show ?thesis using Cons.IH [of "send m q"] send_law [OF Cons.prems, of m] by auto
  next
    case (Inr u)
    then show ?thesis
      using Cons.IH [of "snd (recv q)"] recv_law [OF Cons.prems] Inr
      by (cases "queued q") (auto simp: Let_def split: prod.splits)
  qed
qed simp

lemma all_sends_accepted: "n + length ms \<le> bound \<Longrightarrow> accepted bound (map Inl ms) n = ms"
  by (induction ms arbitrary: n) auto

end

section \<open>The mailbox keeps it\<close>

definition mailbox_wf :: "mailbox \<Rightarrow> bool" where
  "mailbox_wf q \<longleftrightarrow> length (ipc_queue q) = 256 \<and> unat (ipc_head q) < 256 \<and> unat (ipc_tail q) < 256"

definition contents :: "mailbox \<Rightarrow> os_message list" where
  "contents q = ring_read (ipc_queue q) (unat (ipc_head q)) (ring_dist 256 (unat (ipc_head q)) (unat (ipc_tail q)))"

definition mailbox_take :: "mailbox \<Rightarrow> os_message option \<times> mailbox" where
  "mailbox_take q = (if ipc_head q = ipc_tail q then None else Some (ipc_queue q ! unat (ipc_head q)),
     if ipc_head q = ipc_tail q then q else q\<lparr>ipc_head := (ipc_head q + 1) mod 256\<rparr>)"

lemma ipc_recv_take:
  "ipc_recv msg q = (case mailbox_take q of (None, q') \<Rightarrow> (msg\<lparr>msg_type := 0, msg_length := 0\<rparr>, q') | (Some m, q') \<Rightarrow> (m, q'))"
  by (simp add: ipc_recv_def mailbox_take_def)

lemma length_contents: "length (contents q) = ring_dist 256 (unat (ipc_head q)) (unat (ipc_tail q))"
  by (simp add: contents_def)

lemma contents_bound: "length (contents q) \<le> 255"
  using ring_dist_less [of 256 "unat (ipc_head q)" "unat (ipc_tail q)"] by (simp add: length_contents)

lemma full_iff:
  assumes "mailbox_wf q"
  shows "(ipc_tail q + 1) mod 256 = ipc_head q \<longleftrightarrow> length (contents q) = 255"
proof -
  have h: "unat (ipc_head q) < 256" "unat (ipc_tail q) < 256" using assms by (simp_all add: mailbox_wf_def)
  have nx: "unat ((ipc_tail q + 1) mod 256) = Suc (unat (ipc_tail q)) mod 256" by (rule unat_next256 [OF h(2)])
  show ?thesis
  proof
    assume "(ipc_tail q + 1) mod 256 = ipc_head q"
    then have "Suc (unat (ipc_tail q)) mod 256 = unat (ipc_head q)" using nx by simp
    then show "length (contents q) = 255"
      using h by (cases "Suc (unat (ipc_tail q)) = 256") (auto simp: length_contents ring_dist_def)
  next
    assume "length (contents q) = 255"
    then have "Suc (unat (ipc_tail q)) mod 256 = unat (ipc_head q)"
      using ring_dist_wrap [OF h] by (simp add: length_contents)
    then show "(ipc_tail q + 1) mod 256 = ipc_head q" using nx by (simp add: word_unat_eq_iff)
  qed
qed

lemma send_contents:
  assumes "mailbox_wf q"
  shows "mailbox_wf (ipc_kernel_send m q)"
    "contents (ipc_kernel_send m q) = (if length (contents q) < 255 then contents q @ [m] else contents q)"
proof -
  have h: "length (ipc_queue q) = 256" "unat (ipc_head q) < 256" "unat (ipc_tail q) < 256"
    using assms by (simp_all add: mailbox_wf_def)
  note nx = unat_next256 [OF h(3)]
  let ?n = "ring_dist 256 (unat (ipc_head q)) (unat (ipc_tail q))"
  show "mailbox_wf (ipc_kernel_send m q)"
    using h nx by (auto simp: ipc_kernel_send_def Let_def mailbox_wf_def)
  have room: "(ipc_tail q + 1) mod 256 \<noteq> ipc_head q \<longleftrightarrow> length (contents q) < 255"
    using full_iff [OF assms] contents_bound [of q] by linarith
  show "contents (ipc_kernel_send m q) = (if length (contents q) < 255 then contents q @ [m] else contents q)"
  proof (cases "length (contents q) < 255")
    case True
    then have n: "Suc ?n < 256" by (simp add: length_contents)
    have at: "(unat (ipc_head q) + ?n) mod 256 = unat (ipc_tail q)" by (rule ring_dist_end [OF h(2,3)])
    have "contents (ipc_kernel_send m q) = ring_read ((ipc_queue q)[unat (ipc_tail q) := m]) (unat (ipc_head q)) (Suc ?n)"
      using True room nx ring_dist_Suc_end [OF h(2,3) n] by (simp add: ipc_kernel_send_def contents_def)
    also have "\<dots> = contents q @ [m]"
      using ring_read_write_end [of ?n "ipc_queue q" "unat (ipc_head q)" m] n at h(1) by (simp add: contents_def)
    finally show ?thesis using True by simp
  next
    case False
    with room show ?thesis by (simp add: ipc_kernel_send_def)
  qed
qed

lemma take_contents:
  assumes "mailbox_wf q"
  shows "mailbox_wf (snd (mailbox_take q))"
    "fst (mailbox_take q) = (case contents q of [] \<Rightarrow> None | m # ms \<Rightarrow> Some m)"
    "contents (snd (mailbox_take q)) = tl (contents q)"
proof -
  have h: "length (ipc_queue q) = 256" "unat (ipc_head q) < 256" "unat (ipc_tail q) < 256"
    using assms by (simp_all add: mailbox_wf_def)
  note nx = unat_next256 [OF h(2)]
  show "mailbox_wf (snd (mailbox_take q))" using h nx by (auto simp: mailbox_take_def mailbox_wf_def)
  have "fst (mailbox_take q) = (case contents q of [] \<Rightarrow> None | m # ms \<Rightarrow> Some m) \<and>
      contents (snd (mailbox_take q)) = tl (contents q)"
  proof (cases "ipc_head q = ipc_tail q")
    case True
    then show ?thesis using h by (simp add: mailbox_take_def contents_def)
  next
    case False
    then have ne: "unat (ipc_head q) \<noteq> unat (ipc_tail q)" by (simp add: word_unat_eq_iff)
    let ?k = "ring_dist 256 (Suc (unat (ipc_head q)) mod 256) (unat (ipc_tail q))"
    have "contents q = ring_read (ipc_queue q) (unat (ipc_head q)) (Suc ?k)"
      using ring_dist_Suc_start [OF h(2,3) ne] by (simp add: contents_def)
    also have "\<dots> = ipc_queue q ! unat (ipc_head q) # ring_read (ipc_queue q) (Suc (unat (ipc_head q)) mod 256) ?k"
      using ring_read_Cons [of "ipc_queue q" "unat (ipc_head q)" ?k] h by simp
    finally show ?thesis using False nx by (simp add: mailbox_take_def contents_def)
  qed
  then show "fst (mailbox_take q) = (case contents q of [] \<Rightarrow> None | m # ms \<Rightarrow> Some m)"
    "contents (snd (mailbox_take q)) = tl (contents q)" by auto
qed

interpretation mbox: fifo mailbox_wf contents ipc_kernel_send mailbox_take 255
  by unfold_locales (simp_all add: send_contents take_contents contents_bound)

section \<open>Properties\<close>

text \<open>
  C12: the mailbox is a queue of at most 255 messages: a send appends the message or, when 255 are
  waiting, drops it without a trace; a receive hands out the oldest message, or clears type and
  length of the caller's message when there is none.
\<close>

theorem ipc_refines_bounded_queue:
  assumes "mailbox_wf q"
  shows "mailbox_wf (ipc_kernel_send m q)
    \<and> contents (ipc_kernel_send m q) = (if length (contents q) < 255 then contents q @ [m] else contents q)
    \<and> mailbox_wf (snd (ipc_recv msg q)) \<and> contents (snd (ipc_recv msg q)) = tl (contents q)
    \<and> fst (ipc_recv msg q) = (case contents q of [] \<Rightarrow> msg\<lparr>msg_type := 0, msg_length := 0\<rparr> | m # ms \<Rightarrow> m)"
  using mbox.send_law [OF assms, of m] take_contents [OF assms]
  by (cases "contents q") (auto simp: ipc_recv_take split: prod.splits option.splits)

definition empty_mailbox :: mailbox where
  "empty_mailbox = \<lparr>ipc_queue = replicate 256 \<lparr>sender_id = 0, target_id = 0, msg_type = 0, msg_length = 0,
     payload = replicate 256 0\<rparr>, ipc_head = 0, ipc_tail = 0\<rparr>"

lemma empty_mailbox_wf: "mailbox_wf empty_mailbox" "contents empty_mailbox = []"
  by (simp_all add: mailbox_wf_def empty_mailbox_def contents_def)

theorem ipc_refines_bounded_queue_witness:
  "contents (ipc_kernel_send \<lparr>sender_id = 3, target_id = 1, msg_type = 2, msg_length = 0, payload = []\<rparr> empty_mailbox)
    = [\<lparr>sender_id = 3, target_id = 1, msg_type = 2, msg_length = 0, payload = []\<rparr>]"
  using ipc_refines_bounded_queue [OF empty_mailbox_wf(1)] by (simp add: empty_mailbox_wf(2))

text \<open>
  Over any interleaving of sends and receives, what has been received followed by what is
  still queued is what was queued at first followed by the accepted messages, in the order they were
  sent: nothing is reordered, duplicated or made up.
\<close>

theorem ipc_first_in_first_out:
  assumes "mailbox_wf q"
  shows "fst (queue_run ipc_kernel_send mailbox_take ops q) @ contents (snd (queue_run ipc_kernel_send mailbox_take ops q))
      = contents q @ accepted 255 ops (length (contents q))
    \<and> mailbox_wf (snd (queue_run ipc_kernel_send mailbox_take ops q))"
  using mbox.run_fifo [OF assms, of ops] by blast

definition key_message :: "u8 \<Rightarrow> u8 \<Rightarrow> u8 list \<Rightarrow> os_message" where
  "key_message sender c rest = \<lparr>sender_id = sender, target_id = 3, msg_type = 1, msg_length = 1, payload = c # rest\<rparr>"

theorem ipc_first_in_first_out_witness:
  "let q = snd (queue_run ipc_kernel_send mailbox_take
       [Inl (key_message 1 65 []), Inl (key_message 1 66 []), Inr (), Inl (key_message 2 67 [])] empty_mailbox);
     r = fst (queue_run ipc_kernel_send mailbox_take
       [Inl (key_message 1 65 []), Inl (key_message 1 66 []), Inr (), Inl (key_message 2 67 [])] empty_mailbox)
   in r @ contents q = [key_message 1 65 [], key_message 1 66 [], key_message 2 67 []]"
  using ipc_first_in_first_out [OF empty_mailbox_wf(1),
      of "[Inl (key_message 1 65 []), Inl (key_message 1 66 []), Inr (), Inl (key_message 2 67 [])]"]
  by (simp add: empty_mailbox_wf(2) Let_def)

end
