(* ===== verification/Uart.thy ===== *)
theory Uart
  imports Prelude
begin

text \<open>
  Number formatting: \<^verbatim>\<open>uart_print_hex\<close> of \<^verbatim>\<open>kernel/uart.c\<close> and the two formatters of
  \<^verbatim>\<open>kernel/watcher.c\<close>. Both hexadecimal routines fill their buffer from the last digit to the
  first; the decimal one collects digits from the least significant and reverses them.
\<close>

section \<open>Hexadecimal\<close>

definition hex_chars :: "u8 list" where
  "hex_chars = lit ''0123456789ABCDEF''"

text \<open>\<^verbatim>\<open>for (i = n - 1; i >= 0; i--) { buf[base + i] = hex_chars[val & 0xF]; val >>= 4; }\<close>\<close>

fun hex_fill :: "nat \<Rightarrow> nat \<Rightarrow> u64 \<Rightarrow> u8 list \<Rightarrow> u8 list" where
  "hex_fill base 0 val buf = buf"
| "hex_fill base (Suc i) val buf =
     hex_fill base i (drop_bit 4 val) (buf[base + i := hex_chars ! unat (val AND 15)])"

definition uart_hex_string :: "u64 \<Rightarrow> u8 list" where
  "uart_hex_string val =
     (let buffer = (replicate 19 0)[0 := of_char (CHR ''0''), 1 := of_char (CHR ''x''), 18 := 0]
      in cstr (hex_fill 2 16 val buffer))"

definition uart_print_hex :: "'d io \<Rightarrow> u64 \<Rightarrow> 'd \<Rightarrow> 'd" where
  "uart_print_hex io val d = io_print io (uart_hex_string val) d"

text \<open>\<^verbatim>\<open>u64_to_hex_str\<close> of \<^verbatim>\<open>watcher.c\<close>: the same loop into a caller's 17-byte buffer.\<close>

definition u64_to_hex_str :: "u64 \<Rightarrow> u8 list \<Rightarrow> u8 list" where
  "u64_to_hex_str val buf = (hex_fill 0 16 val buf)[16 := 0]"

text \<open>The digits, most significant first, and the number a digit string denotes.\<close>

fun hexs :: "nat \<Rightarrow> u64 \<Rightarrow> u8 list" where
  "hexs 0 v = []"
| "hexs (Suc n) v = hexs n (drop_bit 4 v) @ [hex_chars ! unat (v AND 15)]"

definition hex_value :: "u8 \<Rightarrow> nat" where
  "hex_value c = (if unat c \<le> 57 then unat c - 48 else unat c - 55)"

definition unhex :: "u8 list \<Rightarrow> nat" where
  "unhex s = foldl (\<lambda>a c. 16 * a + hex_value c) 0 s"

lemma length_hexs [simp]: "length (hexs n v) = n"
  by (induction n arbitrary: v) auto

lemma hex_fill_hexs:
  "base + n \<le> length buf \<Longrightarrow> hex_fill base n v buf = take base buf @ hexs n v @ drop (base + n) buf"
proof (induction n arbitrary: v buf)
  case 0
  then show ?case by simp
next
  case (Suc n)
  have "drop (base + n) (buf[base + n := x]) = x # drop (Suc (base + n)) buf" for x
    using Suc.prems by (simp add: drop_update_swap Cons_nth_drop_Suc [symmetric])
  with Suc show ?case by (simp add: take_update_swap list_update_beyond)
qed

lemma nibble_less: "unat (v AND (15 :: u64)) < 16"
proof -
  have "v AND 15 \<le> (15 :: u64)" by (rule word_and_le1)
  then have "unat (v AND 15) \<le> unat (15 :: u64)" by (simp only: word_le_nat_alt)
  then show ?thesis by simp
qed

lemma nibble_mod: "unat (v AND (15 :: u64)) = unat v mod 16"
proof -
  have "(15 :: u64) = mask 4" by (simp add: mask_eq_exp_minus_1)
  then have "v AND 15 = take_bit 4 v" by (simp only: take_bit_eq_mask)
  also have "\<dots> = v mod 16" by (simp add: take_bit_eq_mod)
  finally have "v AND 15 = v mod 16" .
  then show ?thesis by (simp add: unat_mod)
qed

lemma hex_value_digit: "n < 16 \<Longrightarrow> hex_value (hex_chars ! n) = n"
proof -
  assume "n < 16"
  then have "n \<in> {0..<16}" by simp
  moreover have "\<forall>n \<in> {0..<16}. hex_value (hex_chars ! n) = n" by code_simp
  ultimately show ?thesis by blast
qed

lemma hex_digit_nonzero: "n < 16 \<Longrightarrow> hex_chars ! n \<noteq> 0"
proof -
  assume "n < 16"
  then have "n \<in> {0..<16}" by simp
  moreover have "\<forall>n \<in> {0..<16}. hex_chars ! n \<noteq> 0" by code_simp
  ultimately show ?thesis by blast
qed

lemma hexs_no_nul [simp]: "0 \<notin> set (hexs n v)"
  by (induction n arbitrary: v) (use hex_digit_nonzero nibble_less in fastforce)+

lemma unhex_hexs_mod: "unhex (hexs n v) = unat v mod 16 ^ n"
proof (induction n arbitrary: v)
  case 0
  then show ?case by (simp add: unhex_def)
next
  case (Suc n)
  have "unhex (hexs (Suc n) v) = 16 * unhex (hexs n (drop_bit 4 v)) + unat v mod 16"
    by (simp add: unhex_def hex_value_digit nibble_less nibble_mod)
  also have "\<dots> = 16 * (unat v div 16 mod 16 ^ n) + unat v mod 16"
    by (simp add: Suc.IH drop_bit_eq_div unat_div)
  also have "\<dots> = unat v mod 16 ^ Suc n"
    by (simp add: mod_mult2_eq)
  finally show ?case .
qed

lemma unhex_hexs: "unhex (hexs 16 v) = unat v"
proof -
  have "unat v < 16 ^ 16" using unsigned_less [of v] by simp
  then show ?thesis by (simp add: unhex_hexs_mod)
qed

lemma u64_to_hex_str_hexs:
  assumes "length buf = 17"
  shows "u64_to_hex_str v buf = hexs 16 v @ [0]"
proof -
  obtain x where x: "drop 16 buf = [x]"
    using assms by (metis One_nat_def add_diff_cancel_left' length_drop length_Suc_conv length_0_conv
        numeral_plus_one semiring_norm(5))
  have "u64_to_hex_str v buf = (hexs 16 v @ x # [])[length (hexs 16 v) := 0]"
    using assms x by (simp add: u64_to_hex_str_def hex_fill_hexs)
  then show ?thesis by (simp only: list_update_length)
qed

lemma uart_hex_string_hexs: "uart_hex_string v = lit ''0x'' @ hexs 16 v"
proof -
  define buffer :: "u8 list"
    where "buffer = (replicate 19 0)[0 := of_char (CHR ''0''), 1 := of_char (CHR ''x''), 18 := 0]"
  have "take 2 buffer = lit ''0x''" "drop 18 buffer = [0]" "length buffer = 19"
    unfolding buffer_def by code_simp+
  then have "hex_fill 2 16 v buffer = (lit ''0x'' @ hexs 16 v) @ [0]"
    by (simp add: hex_fill_hexs)
  moreover have "cstr ((lit ''0x'' @ hexs 16 v) @ [0]) = lit ''0x'' @ hexs 16 v"
    by (rule cstr_append_nul) (simp add: lit_def)
  ultimately show ?thesis
    by (simp only: uart_hex_string_def Let_def buffer_def)
qed

section \<open>Decimal\<close>

text \<open>
  \<^verbatim>\<open>i32_to_dec_str\<close>: \<^verbatim>\<open>while (val > 0) { temp[ti++] = (val % 10) + '0'; val /= 10; }\<close>, a
  sign, and the copy in reverse. The result is the string without its NUL. Negation is the
  machine's: the most negative value negates to itself.
\<close>

function dec_temp :: "int \<Rightarrow> u8 list" where
  "dec_temp val = (if val > 0 then (word_of_int (val mod 10) + 48) # dec_temp (val div 10) else [])"
  by pat_completeness auto
termination
  by (relation "measure nat") auto

declare dec_temp.simps [simp del]

definition i32_to_dec_str :: "i32 \<Rightarrow> u8 list" where
  "i32_to_dec_str val =
     (if val = 0 then lit ''0''
      else let is_neg = sint val < 0;
               val = (if is_neg then - val else val);
               temp = dec_temp (sint val) @ (if is_neg then lit ''-'' else [])
           in rev temp)"

text \<open>The number a decimal string denotes.\<close>

definition undec_pos :: "u8 list \<Rightarrow> int" where
  "undec_pos s = foldl (\<lambda>a c. 10 * a + (uint c - 48)) 0 s"

definition undec :: "u8 list \<Rightarrow> int" where
  "undec s = (case s of [] \<Rightarrow> 0
     | c # r \<Rightarrow> if c = of_char (CHR ''-'') then - undec_pos r else undec_pos s)"

lemma dec_digit: "uint (word_of_int (v mod 10) + 48 :: u8) = v mod 10 + 48"
proof -
  have "0 \<le> v mod 10 + 48" "v mod 10 + 48 < 256"
    using pos_mod_bound [of 10 v] pos_mod_sign [of 10 v] by linarith+
  then have "uint (word_of_int (v mod 10 + 48) :: u8) = v mod 10 + 48"
    unfolding uint_word_of_int_eq by (intro take_bit_int_eq_self) simp_all
  then show ?thesis by simp
qed

lemma undec_dec_temp: "0 \<le> v \<Longrightarrow> undec_pos (rev (dec_temp v)) = v"
proof (induction v rule: dec_temp.induct)
  case (1 v)
  show ?case
  proof (cases "v > 0")
    case True
    then have "undec_pos (rev (dec_temp (v div 10))) = v div 10"
      using "1.IH" by (simp add: pos_imp_zdiv_nonneg_iff)
    then show ?thesis
      using True by (simp add: dec_temp.simps [of v] undec_pos_def dec_digit)
  next
    case False
    with "1.prems" have "v = 0" by simp
    then show ?thesis by (simp add: dec_temp.simps undec_pos_def)
  qed
qed

lemma dec_temp_digits: "c \<in> set (dec_temp v) \<Longrightarrow> 48 \<le> uint c \<and> uint c \<le> 57"
proof (induction v rule: dec_temp.induct)
  case (1 v)
  show ?case
  proof (cases "v > 0")
    case True
    have "v mod 10 \<le> 9" using pos_mod_bound [of 10 v] by linarith
    with True 1 show ?thesis by (auto simp: dec_temp.simps [of v] dec_digit)
  qed (use 1 in \<open>simp add: dec_temp.simps [of v]\<close>)
qed

lemma length_dec_temp: "v < 10 ^ n \<Longrightarrow> length (dec_temp v) \<le> n"
proof (induction n arbitrary: v)
  case 0
  then show ?case by (simp add: dec_temp.simps)
next
  case (Suc n)
  then have "v div 10 < 10 ^ n" by (simp add: div_less_iff_less_mult)
  then show ?case using Suc.IH [of "v div 10"] by (simp add: dec_temp.simps [of v])
qed

lemma dec_temp_nonempty: "0 < v \<Longrightarrow> dec_temp v \<noteq> []"
  by (simp add: dec_temp.simps)

lemma sint_uminus:
  assumes "v \<noteq> (0x80000000 :: i32)"
  shows "sint (- v) = - sint v"
proof -
  have "sint v \<noteq> - 2147483648"
  proof
    assume *: "sint v = - 2147483648"
    have "v = word_of_int (sint v)" by simp
    also have "\<dots> = 0x80000000" by (simp add: *)
    finally show False using assms by contradiction
  qed
  moreover have "- 2147483648 \<le> sint v" "sint v < 2147483648"
    using sint_ge [of v] sint_lt [of v] by simp_all
  ultimately have "- 2147483648 \<le> - sint v" "- sint v < 2147483648" by linarith+
  then have "signed_take_bit 31 (- sint v) = - sint v"
    by (intro signed_take_bit_int_eq_self) simp_all
  then show ?thesis by (simp add: sint_word_minus)
qed

lemma dec_temp_no_sign: "0 \<notin> set (dec_temp v)" "of_char (CHR ''-'') \<notin> set (dec_temp v)"
  using dec_temp_digits by fastforce+

lemma undec_plain: "s \<noteq> [] \<Longrightarrow> of_char (CHR ''-'') \<notin> set s \<Longrightarrow> undec s = undec_pos s"
  by (cases s) (auto simp: undec_def)

lemma undec_i32_to_dec_str:
  assumes "val \<noteq> 0x80000000"
  shows "undec (i32_to_dec_str val) = sint val"
proof -
  consider "val = 0" | "sint val < 0" | "val \<noteq> 0" "0 \<le> sint val" by linarith
  then show ?thesis
  proof cases
    case 1
    have "undec (lit ''0'') = 0" by code_simp
    with 1 show ?thesis by (simp add: i32_to_dec_str_def)
  next
    case 2
    then have "0 \<le> - sint val" "val \<noteq> 0" by auto
    then have "i32_to_dec_str val = lit ''-'' @ rev (dec_temp (- sint val))"
      using 2 assms by (simp add: i32_to_dec_str_def Let_def sint_uminus lit_def)
    then show ?thesis
      using \<open>0 \<le> - sint val\<close> by (simp add: undec_def lit_def undec_dec_temp)
  next
    case 3
    have "sint val \<noteq> 0" using 3(1) signed_word_eqI [of val 0] by auto
    with 3 have pos: "0 < sint val" by linarith
    have "undec (rev (dec_temp (sint val))) = undec_pos (rev (dec_temp (sint val)))"
      using dec_temp_nonempty [OF pos] dec_temp_no_sign(2) by (intro undec_plain) simp_all
    with 3 show ?thesis by (simp add: i32_to_dec_str_def Let_def undec_dec_temp)
  qed
qed

lemma length_i32_to_dec_str: "length (i32_to_dec_str val) \<le> 11"
proof -
  have "sint v < 10 ^ 10" for v :: i32 using sint_lt [of v] by simp
  then have "length (dec_temp (sint v)) \<le> 10" for v :: i32 by (rule length_dec_temp)
  then show ?thesis
    by (auto simp: i32_to_dec_str_def Let_def intro: le_trans [of _ 10])
qed

lemma i32_to_dec_str_no_nul [simp]: "0 \<notin> set (i32_to_dec_str val)"
  by (auto simp: i32_to_dec_str_def Let_def lit_def dec_temp_no_sign)

end
