(* ===== verification/Watcher.thy ===== *)
theory Watcher
  imports Uart Ring
begin

text \<open>
  \<^verbatim>\<open>kernel/watcher.c\<close>: the 64-slot ring of recent events, its overwriting writer, the history
  dump, the ledger commit of the virtual machine and the flush of ledger entries to disk.
  \<^item> \<open>watcher_wf\<close> is the representation invariant; \<open>history\<close> reads the ring oldest first and
    \<open>unsynced\<close> reads what the flush will visit. Both are related to plain lists: one event is
    appended, the oldest is dropped when the ring is full.
  \<^item> The flush of a ring that has never been full since the last flush persists exactly the
    ledger entries logged in between; once the ring is full and flushed, no later flush writes.
\<close>

section \<open>State\<close>

text \<open>\<^verbatim>\<open>watcher_event_type_t\<close> and its numbering.\<close>

datatype event_type = EVENT_TYPE_NONE | EVENT_TYPE_KEYSTROKE | EVENT_TYPE_FS_READ
  | EVENT_TYPE_FS_WRITE | EVENT_TYPE_PROC_SPAWN | EVENT_TYPE_LEDGER_COMMIT

fun event_code :: "event_type \<Rightarrow> u32" where
  "event_code EVENT_TYPE_NONE = 0"
| "event_code EVENT_TYPE_KEYSTROKE = 1"
| "event_code EVENT_TYPE_FS_READ = 2"
| "event_code EVENT_TYPE_FS_WRITE = 3"
| "event_code EVENT_TYPE_PROC_SPAWN = 4"
| "event_code EVENT_TYPE_LEDGER_COMMIT = 5"

text \<open>\<^verbatim>\<open>watcher_event_t\<close>; \<open>ev_context\<close> is the 64-byte array.\<close>

record watcher_event =
  ev_timestamp :: u64
  ev_type :: event_type
  ev_pid :: u32
  ev_context :: "u8 list"

text \<open>\<^verbatim>\<open>watcher_state_t\<close> and the static \<^verbatim>\<open>sync_cursor\<close>.\<close>

record watcher =
  events :: "watcher_event list"
  head :: u32
  tail :: u32
  count :: u32
  sync_cursor :: u32

definition blank_event :: "watcher_event \<Rightarrow> watcher_event" where
  "blank_event e = e\<lparr>ev_timestamp := 0, ev_type := EVENT_TYPE_NONE, ev_pid := 0,
     ev_context := (ev_context e)[0 := 0]\<rparr>"

definition watcher_init :: "'d io \<Rightarrow> watcher \<Rightarrow> 'd \<Rightarrow> watcher \<times> 'd" where
  "watcher_init io w d =
     (w\<lparr>head := 0, tail := 0, count := 0, sync_cursor := 0, events := map blank_event (events w)\<rparr>,
      io_print io (lit ''[WATCHER] Sovereign Memory Initialized. (64 Slots)\<newline>'') d)"

section \<open>Logging\<close>

text \<open>
  \<^verbatim>\<open>while (context_data[i] != 0 && i < 63)\<close> copies at most 63 bytes and the copy is closed
  with a NUL; the rest of the slot keeps its old bytes. \<open>None\<close> is a null pointer.
\<close>

definition copied :: "u8 list option \<Rightarrow> u8 list" where
  "copied ctx = (case ctx of None \<Rightarrow> [] | Some s \<Rightarrow> take 63 (cstr s))"

definition write_event :: "u64 \<Rightarrow> event_type \<Rightarrow> u32 \<Rightarrow> u8 list option \<Rightarrow> watcher_event \<Rightarrow> watcher_event" where
  "write_event now ty pid ctx e = e\<lparr>ev_timestamp := now, ev_type := ty, ev_pid := pid,
     ev_context := overwrite (ev_context e) 0 (copied ctx @ [0])\<rparr>"

definition log_event_at :: "u64 \<Rightarrow> event_type \<Rightarrow> u32 \<Rightarrow> u8 list option \<Rightarrow> watcher \<Rightarrow> watcher" where
  "log_event_at now ty pid ctx w =
     (let idx = unat (head w);
          w = w\<lparr>events := (events w)[idx := write_event now ty pid ctx (events w ! idx)]\<rparr>;
          w = w\<lparr>head := (head w + 1) mod 64\<rparr>
      in if count w < 64 then w\<lparr>count := count w + 1\<rparr>
         else let old_tail = tail w; w = w\<lparr>tail := (tail w + 1) mod 64\<rparr>
              in if sync_cursor w = old_tail then w\<lparr>sync_cursor := tail w\<rparr> else w)"

definition watcher_log_event ::
  "'d io \<Rightarrow> event_type \<Rightarrow> u32 \<Rightarrow> u8 list option \<Rightarrow> watcher \<Rightarrow> 'd \<Rightarrow> watcher \<times> 'd" where
  "watcher_log_event io ty pid ctx w d =
     (let (now, d) = io_timer io d in (log_event_at now ty pid ctx w, d))"

section \<open>Dump\<close>

fun dump_loop :: "'d io \<Rightarrow> watcher \<Rightarrow> nat \<Rightarrow> u32 \<Rightarrow> u32 \<Rightarrow> 'd \<Rightarrow> 'd" where
  "dump_loop io w 0 i current d = d"
| "dump_loop io w (Suc n) i current d =
     (let e = events w ! unat current;
          d = io_print io (lit ''Event ['') d;
          d = uart_print_hex io (ucast i) d;
          d = io_print io (lit ''] Type: '') d;
          d = uart_print_hex io (ucast (event_code (ev_type e))) d;
          d = io_print io (lit '' | Ctx: '') d;
          d = io_print io (cstr (ev_context e)) d;
          d = io_print io (lit ''\<newline>'') d
      in dump_loop io w n (i + 1) ((current + 1) mod 64) d)"

definition watcher_dump_history :: "'d io \<Rightarrow> watcher \<Rightarrow> 'd \<Rightarrow> 'd" where
  "watcher_dump_history io w d =
     (let d = io_print io (lit ''\<newline>=== WATCHER MEMORY DUMP ===\<newline>'') d
      in if count w = 0 then io_print io (lit ''No events logged.\<newline>'') d
         else io_print io (lit ''===========================\<newline>'')
                (dump_loop io w (unat (count w)) 0 (tail w) d))"

section \<open>The ledger\<close>

definition ledger_context :: "u64 \<Rightarrow> i32 \<Rightarrow> u8 list" where
  "ledger_context tx_hash volume =
     lit ''TX: 0x'' @ cstr (u64_to_hex_str tx_hash (replicate 17 0))
       @ lit '' | VOL: '' @ i32_to_dec_str volume"

definition watcher_commit_ledger :: "'d io \<Rightarrow> u64 \<Rightarrow> i32 \<Rightarrow> watcher \<Rightarrow> 'd \<Rightarrow> watcher \<times> 'd" where
  "watcher_commit_ledger io tx_hash volume w d =
     (let context_buf = ledger_context tx_hash volume @ [0];
          (w, d) = watcher_log_event io EVENT_TYPE_LEDGER_COMMIT 0 (Some context_buf) w d;
          d = io_print io (lit ''[LEDGER] Receipt Committed: '') d;
          d = io_print io (cstr context_buf) d
      in (w, io_print io (lit ''\<newline>'') d))"

text \<open>
  The flush. \<open>app\<close> is \<^verbatim>\<open>fs_append_file_content\<close>. The loop's fuel is the number of slots: the
  loop body runs once per slot at most, since \<open>current\<close> walks the ring and stops at \<open>head\<close>.
\<close>

definition persist_event :: "(u8 list \<Rightarrow> u8 list \<Rightarrow> 'd \<Rightarrow> 'd res) \<Rightarrow> watcher_event \<Rightarrow> 'd \<Rightarrow> 'd res" where
  "persist_event app e d =
     (if \<not> terminated (ev_context e) then Inl OutOfBounds
      else res_bind (app (lit ''LEDGER.LOG'') (cstr (ev_context e)) d)
             (app (lit ''LEDGER.LOG'') (lit ''\<newline>'')))"

definition to_persist :: "watcher_event \<Rightarrow> bool" where
  "to_persist e \<longleftrightarrow> ev_timestamp e \<noteq> 0 \<and> ev_type e = EVENT_TYPE_LEDGER_COMMIT"

fun sync_loop :: "(u8 list \<Rightarrow> u8 list \<Rightarrow> 'd \<Rightarrow> 'd res) \<Rightarrow> watcher \<Rightarrow> nat \<Rightarrow> u32 \<Rightarrow> u32 \<Rightarrow> 'd \<Rightarrow> (u32 \<times> 'd) res" where
  "sync_loop app w fuel current synced d =
     (if current = head w then Inr (synced, d)
      else case fuel of 0 \<Rightarrow> Inl Spin
        | Suc fuel \<Rightarrow>
            let e = events w ! unat current; next = (current + 1) mod 64
            in if to_persist e
               then res_bind (persist_event app e d) (sync_loop app w fuel next (synced + 1))
               else sync_loop app w fuel next synced d)"

declare sync_loop.simps [simp del]

definition watcher_sync_to_disk ::
  "'d io \<Rightarrow> (u8 list \<Rightarrow> u8 list \<Rightarrow> 'd \<Rightarrow> 'd res) \<Rightarrow> watcher \<Rightarrow> 'd \<Rightarrow> (watcher \<times> 'd) res" where
  "watcher_sync_to_disk io app w d =
     (let d = io_print io (lit ''[WATCHER] Flushing Ledger to LEDGER.LOG...\<newline>'') d
      in if sync_cursor w = head w
         then Inr (w, io_print io (lit ''[WATCHER] Ledger is up to date. No new entries to sync.\<newline>'') d)
         else res_bind (sync_loop app w 64 (sync_cursor w) 0 d)
           (\<lambda>(synced, d). let d = io_print io (lit ''[WATCHER] Sync Complete. '') d;
                d = uart_print_hex io (ucast synced) d
            in Inr (w\<lparr>sync_cursor := head w\<rparr>, io_print io (lit '' new entries persisted.\<newline>'') d)))"

section \<open>Representation invariant and the lists it stands for\<close>

definition event_ok :: "watcher_event \<Rightarrow> bool" where
  "event_ok e \<longleftrightarrow> length (ev_context e) = 64 \<and> terminated (ev_context e)"

definition watcher_wf :: "watcher \<Rightarrow> bool" where
  "watcher_wf w \<longleftrightarrow> length (events w) = 64 \<and> (\<forall>e \<in> set (events w). event_ok e)
     \<and> unat (head w) < 64 \<and> unat (tail w) < 64 \<and> unat (count w) \<le> 64 \<and> unat (sync_cursor w) < 64
     \<and> unat (head w) = (unat (tail w) + unat (count w)) mod 64"

definition history :: "watcher \<Rightarrow> watcher_event list" where
  "history w = ring_read (events w) (unat (tail w)) (unat (count w))"

definition unsynced :: "watcher \<Rightarrow> watcher_event list" where
  "unsynced w = ring_read (events w) (unat (sync_cursor w))
     (ring_dist 64 (unat (sync_cursor w)) (unat (head w)))"

text \<open>What a reader sees of an event: its fields and its context as a string.\<close>

type_synonym event_view = "u64 \<times> event_type \<times> u32 \<times> u8 list"

definition event_view :: "watcher_event \<Rightarrow> event_view" where
  "event_view e = (ev_timestamp e, ev_type e, ev_pid e, cstr (ev_context e))"

definition last_n :: "nat \<Rightarrow> 'a list \<Rightarrow> 'a list" where
  "last_n n xs = drop (length xs - n) xs"

lemma copied_props: "length (copied ctx) \<le> 63" "0 \<notin> set (copied ctx)"
  by (auto simp: copied_def split: option.splits dest: in_set_takeD)

lemma write_event_ok: "event_ok e \<Longrightarrow> event_ok (write_event now ty pid ctx e)"
  using copied_props(1) [of ctx]
  by (auto simp: event_ok_def write_event_def overwrite_zero terminated_def)

lemma view_write_event [simp]:
  "event_view (write_event now ty pid ctx e) = (now, ty, pid, copied ctx)"
  using copied_props(2) [of ctx] by (simp add: event_view_def write_event_def overwrite_zero)

lemma watcher_init_wf:
  assumes "length (events w) = 64" "\<forall>e \<in> set (events w). length (ev_context e) = 64"
  shows "watcher_wf (fst (watcher_init io w d))"
  using assms
  by (auto simp: watcher_wf_def watcher_init_def event_ok_def blank_event_def terminated_def)
    (metis set_update_memI zero_less_numeral)

lemma log_event_events:
  "events (log_event_at now ty pid ctx w) =
     (events w)[unat (head w) := write_event now ty pid ctx (events w ! unat (head w))]"
  by (simp add: log_event_at_def Let_def)

lemma log_event_head [simp]: "head (log_event_at now ty pid ctx w) = (head w + 1) mod 64"
  by (simp add: log_event_at_def Let_def)

lemma log_event_not_full:
  assumes "count w < 64"
  shows "tail (log_event_at now ty pid ctx w) = tail w"
    "count (log_event_at now ty pid ctx w) = count w + 1"
    "sync_cursor (log_event_at now ty pid ctx w) = sync_cursor w"
  using assms by (simp_all add: log_event_at_def Let_def)

lemma log_event_full:
  assumes "\<not> count w < 64"
  shows "tail (log_event_at now ty pid ctx w) = (tail w + 1) mod 64"
    "count (log_event_at now ty pid ctx w) = count w"
    "sync_cursor (log_event_at now ty pid ctx w) =
       (if sync_cursor w = tail w then (tail w + 1) mod 64 else sync_cursor w)"
  using assms by (simp_all add: log_event_at_def Let_def)

lemma count_less_64: "count w < 64 \<longleftrightarrow> unat (count w) < 64"
  by (simp add: word_less_nat_alt)

lemma log_event_wf:
  assumes "watcher_wf w"
  shows "watcher_wf (log_event_at now ty pid ctx w)"
proof -
  have ev: "\<forall>e \<in> set (events (log_event_at now ty pid ctx w)). event_ok e"
  proof
    fix e assume "e \<in> set (events (log_event_at now ty pid ctx w))"
    then consider "e \<in> set (events w)" | "e = write_event now ty pid ctx (events w ! unat (head w))"
      by (auto simp: log_event_events dest: set_update_subset_insert [THEN subsetD])
    then show "event_ok e"
      using assms by cases (auto simp: watcher_wf_def intro!: write_event_ok)
  qed
  show ?thesis
  proof (cases "count w < 64")
    case True
    then have "unat (count w + 1) = Suc (unat (count w))"
      by (simp add: count_less_64 unat_word_ariths)
    with True assms ev show ?thesis
      by (auto simp: watcher_wf_def log_event_events log_event_not_full unat_next64 count_less_64
          mod_Suc_eq)
  next
    case False
    with assms have "unat (count w) = 64" by (simp add: count_less_64 watcher_wf_def)
    with False assms ev show ?thesis
      by (auto simp: watcher_wf_def log_event_events log_event_full unat_next64)
  qed
qed

section \<open>One event appended\<close>

lemma history_log_not_full:
  assumes "watcher_wf w" "count w < 64"
  shows "history (log_event_at now ty pid ctx w)
    = history w @ [write_event now ty pid ctx (events w ! unat (head w))]"
proof -
  let ?s = "unat (tail w)" and ?n = "unat (count w)"
  have n: "?n < length (events w)" and h: "unat (head w) = (?s + ?n) mod length (events w)"
    using assms by (auto simp: watcher_wf_def count_less_64)
  have "unat (count w + 1) = Suc ?n"
    using n assms(1) by (simp add: unat_word_ariths watcher_wf_def)
  then show ?thesis
    using ring_read_write_end [OF n, where s = ?s] h assms(2)
    by (simp add: history_def log_event_not_full log_event_events)
qed

lemma history_log_full:
  assumes "watcher_wf w" "\<not> count w < 64"
  shows "history (log_event_at now ty pid ctx w)
    = tl (history w) @ [write_event now ty pid ctx (events w ! unat (head w))]"
proof -
  let ?s = "unat (tail w)"
  have n: "unat (count w) = length (events w)" "unat (head w) = ?s mod length (events w)"
    "0 < length (events w)" "length (events w) = 64"
    using assms by (auto simp: watcher_wf_def count_less_64)
  have "unat ((tail w + 1) mod 64) = Suc ?s mod length (events w)"
    using assms(1) n by (simp add: unat_next64 watcher_wf_def)
  then show ?thesis
    using ring_read_overwrite_full [OF n(3), where s = ?s] n assms(2)
    by (simp add: history_def log_event_full log_event_events del: ring_read_mod)
       (metis length_list_update ring_read_mod)
qed

lemma length_history [simp]: "length (history w) = unat (count w)"
  by (simp add: history_def)

lemma history_log:
  assumes "watcher_wf w"
  shows "map event_view (history (log_event_at now ty pid ctx w))
    = last_n 64 (map event_view (history w) @ [(now, ty, pid, copied ctx)])"
proof (cases "count w < 64")
  case True
  then show ?thesis
    using assms by (simp add: history_log_not_full last_n_def count_less_64)
next
  case False
  then have "length (history w) = 64" using assms by (simp add: watcher_wf_def count_less_64)
  then show ?thesis
    using False assms
    by (simp add: history_log_full last_n_def map_tl drop_Suc Suc_diff_le tl_append2
        flip: length_greater_0_conv)
qed

section \<open>The flush\<close>

lemma unsynced_log:
  assumes "watcher_wf w" and room: "count w < 64 \<or> sync_cursor w \<noteq> tail w"
    and few: "length (unsynced w) < 63"
  shows "unsynced (log_event_at now ty pid ctx w)
    = unsynced w @ [write_event now ty pid ctx (events w ! unat (head w))]"
proof -
  let ?c = "unat (sync_cursor w)" and ?h = "unat (head w)"
  have w: "?c < 64" "?h < 64" "length (events w) = 64"
    using assms(1) by (auto simp: watcher_wf_def)
  have cur: "sync_cursor (log_event_at now ty pid ctx w) = sync_cursor w"
    using room by (cases "count w < 64") (auto simp: log_event_not_full log_event_full)
  have d: "ring_dist 64 ?c (Suc ?h mod 64) = Suc (ring_dist 64 ?c ?h)"
    using few w by (intro ring_dist_Suc_end) (auto simp: unsynced_def)
  have "ring_dist 64 ?c ?h < length (events w)" using few w by (simp add: unsynced_def)
  moreover have "?h = (?c + ring_dist 64 ?c ?h) mod length (events w)"
    using w by (simp add: ring_dist_end)
  ultimately show ?thesis
    using ring_read_write_end [of "ring_dist 64 ?c ?h" "events w" ?c] w
    by (simp add: unsynced_def cur log_event_events unat_next64 d)
qed

text \<open>What the flush persists of a list of events, and how many it counts.\<close>

fun persist_all :: "(u8 list \<Rightarrow> u8 list \<Rightarrow> 'd \<Rightarrow> 'd res) \<Rightarrow> u8 list list \<Rightarrow> 'd \<Rightarrow> 'd res" where
  "persist_all app [] d = Inr d"
| "persist_all app (s # ss) d =
     res_bind (res_bind (app (lit ''LEDGER.LOG'') s d) (app (lit ''LEDGER.LOG'') (lit ''\<newline>'')))
       (persist_all app ss)"

definition ledger_lines :: "event_view list \<Rightarrow> u8 list list" where
  "ledger_lines vs = [s. (now, ty, pid, s) \<leftarrow> vs, now \<noteq> 0 \<and> ty = EVENT_TYPE_LEDGER_COMMIT]"

lemma ledger_lines_simps [simp]:
  "ledger_lines [] = []"
  "ledger_lines ((now, ty, pid, s) # vs) =
     (if now \<noteq> 0 \<and> ty = EVENT_TYPE_LEDGER_COMMIT then s # ledger_lines vs else ledger_lines vs)"
  by (simp_all add: ledger_lines_def)

lemma sync_loop_ring:
  assumes "length (events w) = 64" "\<forall>e \<in> set (events w). event_ok e" "unat (head w) < 64"
    and "unat current < 64" "ring_dist 64 (unat current) (unat (head w)) \<le> fuel"
  shows "sync_loop app w fuel current synced d =
    (let ls = ledger_lines (map event_view
                (ring_read (events w) (unat current) (ring_dist 64 (unat current) (unat (head w)))))
     in res_bind (persist_all app ls d) (\<lambda>d. Inr (synced + of_nat (length ls), d)))"
  using assms(4,5)
proof (induction fuel arbitrary: current synced d)
  case 0
  then have "current = head w"
    using assms(3) by (simp add: ring_dist_0_iff word_unat_eq_iff)
  with 0 show ?case by (simp add: sync_loop.simps)
next
  case (Suc fuel)
  show ?case
  proof (cases "current = head w")
    case True
    with Suc.prems show ?thesis by (simp add: sync_loop.simps)
  next
    case False
    let ?next = "(current + 1) mod 64" and ?e = "events w ! unat current"
    have next_unat: "unat ?next = Suc (unat current) mod 64"
      using Suc.prems(1) by (rule unat_next64)
    have "unat current \<noteq> unat (head w)" using False by (simp add: word_unat_eq_iff)
    then have dist: "ring_dist 64 (unat current) (unat (head w))
        = Suc (ring_dist 64 (unat ?next) (unat (head w)))"
      using ring_dist_Suc_start [of "unat current" 64 "unat (head w)"] Suc.prems assms(3) next_unat
      by simp
    have read: "ring_read (events w) (unat current) (ring_dist 64 (unat current) (unat (head w)))
        = ?e # ring_read (events w) (unat ?next) (ring_dist 64 (unat ?next) (unat (head w)))"
      using Suc.prems(1) assms(1) by (simp add: dist ring_read_Cons next_unat)
    have ok: "terminated (ev_context ?e)"
      using assms(1,2) Suc.prems(1) by (auto simp: event_ok_def)
    have IH: "sync_loop app w fuel ?next s = (\<lambda>d'.
      (let ls = ledger_lines (map event_view
                (ring_read (events w) (unat ?next) (ring_dist 64 (unat ?next) (unat (head w)))))
       in res_bind (persist_all app ls d') (\<lambda>d. Inr (s + of_nat (length ls), d))))" for s
      using Suc.IH [of ?next] Suc.prems(2) dist next_unat by (intro ext) simp
    have view: "event_view ?e = (ev_timestamp ?e, ev_type ?e, ev_pid ?e, cstr (ev_context ?e))"
      by (simp add: event_view_def)
    show ?thesis
      using False ok
      by (simp add: sync_loop.simps [of _ _ "Suc fuel"] Let_def IH read view to_persist_def
          persist_event_def res_bind_assoc add.assoc)
  qed
qed

lemma sync_to_disk_unsynced:
  assumes "watcher_wf w"
  shows "watcher_sync_to_disk io app w d =
    (let d = io_print io (lit ''[WATCHER] Flushing Ledger to LEDGER.LOG...\<newline>'') d;
         ls = ledger_lines (map event_view (unsynced w))
     in if unsynced w = []
        then Inr (w, io_print io (lit ''[WATCHER] Ledger is up to date. No new entries to sync.\<newline>'') d)
        else res_bind (persist_all app ls d) (\<lambda>d. Inr (w\<lparr>sync_cursor := head w\<rparr>,
          print_all io [lit ''[WATCHER] Sync Complete. '', uart_hex_string (ucast (of_nat (length ls) :: u32)),
            lit '' new entries persisted.\<newline>''] d)))"
proof -
  let ?dist = "ring_dist 64 (unat (sync_cursor w)) (unat (head w))"
  have w: "length (events w) = 64" "\<forall>e \<in> set (events w). event_ok e" "unat (head w) < 64"
    "unat (sync_cursor w) < 64"
    using assms by (auto simp: watcher_wf_def)
  have fuel: "?dist \<le> 64" by (simp add: ring_dist_def)
  have empty: "unsynced w = [] \<longleftrightarrow> sync_cursor w = head w"
    using w by (simp add: unsynced_def ring_dist_0_iff word_unat_eq_iff flip: length_0_conv)
  show ?thesis
    by (simp add: watcher_sync_to_disk_def sync_loop_ring [OF w fuel] empty Let_def res_bind_assoc
        uart_print_hex_def flip: unsynced_def)
qed

section \<open>Runs of the watcher\<close>

type_synonym log_entry = "u64 \<times> event_type \<times> u32 \<times> u8 list option"

fun entry_view :: "log_entry \<Rightarrow> event_view" where
  "entry_view (now, ty, pid, ctx) = (now, ty, pid, copied ctx)"

fun log_all :: "log_entry list \<Rightarrow> watcher \<Rightarrow> watcher" where
  "log_all [] w = w"
| "log_all ((now, ty, pid, ctx) # es) w = log_all es (log_event_at now ty pid ctx w)"

lemma log_all_wf: "watcher_wf w \<Longrightarrow> watcher_wf (log_all es w)"
  by (induction es w rule: log_all.induct) (auto intro: log_event_wf)

lemma full_tail_head: "watcher_wf w \<Longrightarrow> \<not> count w < 64 \<Longrightarrow> tail w = head w"
  by (auto simp: watcher_wf_def count_less_64 word_unat_eq_iff)

lemma unsynced_Nil_iff: "watcher_wf w \<Longrightarrow> unsynced w = [] \<longleftrightarrow> sync_cursor w = head w"
  by (auto simp: watcher_wf_def unsynced_def ring_dist_0_iff word_unat_eq_iff simp flip: length_0_conv)

lemma unsynced_log_step:
  assumes "watcher_wf w" "count w < 64 \<or> unsynced w \<noteq> []" "length (unsynced w) < 63"
  shows "map event_view (unsynced (log_event_at now ty pid ctx w))
    = map event_view (unsynced w) @ [(now, ty, pid, copied ctx)]"
  using assms unsynced_log [of w now ty pid ctx]
  by (auto simp: unsynced_Nil_iff dest: full_tail_head)

lemma unsynced_log_all:
  assumes "watcher_wf w" "count w < 64 \<or> unsynced w \<noteq> []" "length (unsynced w) + length es < 64"
  shows "map event_view (unsynced (log_all es w))
    = map event_view (unsynced w) @ map entry_view es"
  using assms
proof (induction es w rule: log_all.induct)
  case (1 w)
  then show ?case by simp
next
  case (2 now ty pid ctx es w)
  let ?w = "log_event_at now ty pid ctx w"
  have step: "map event_view (unsynced ?w) = map event_view (unsynced w) @ [(now, ty, pid, copied ctx)]"
    using "2.prems" by (intro unsynced_log_step) auto
  then have "length (unsynced ?w) = Suc (length (unsynced w))"
    by (metis length_append_singleton length_map)
  then have "map event_view (unsynced (log_all es ?w))
      = map event_view (unsynced ?w) @ map entry_view es"
    using "2.prems" by (intro "2.IH" log_event_wf) auto
  then show ?case by (simp add: step)
qed

text \<open>The operations of the interface, in any order.\<close>

datatype watch_op = Log event_type u32 "u8 list option" | Commit u64 i32 | Dump | Sync

fun watch_step :: "'d io \<Rightarrow> (u8 list \<Rightarrow> u8 list \<Rightarrow> 'd \<Rightarrow> 'd res) \<Rightarrow> watch_op \<Rightarrow> watcher \<times> 'd \<Rightarrow> (watcher \<times> 'd) res" where
  "watch_step io app (Log ty pid ctx) (w, d) = Inr (watcher_log_event io ty pid ctx w d)"
| "watch_step io app (Commit h v) (w, d) = Inr (watcher_commit_ledger io h v w d)"
| "watch_step io app Dump (w, d) = Inr (w, watcher_dump_history io w d)"
| "watch_step io app Sync (w, d) = watcher_sync_to_disk io app w d"

fun watch_run :: "'d io \<Rightarrow> (u8 list \<Rightarrow> u8 list \<Rightarrow> 'd \<Rightarrow> 'd res) \<Rightarrow> watch_op list \<Rightarrow> watcher \<times> 'd \<Rightarrow> (watcher \<times> 'd) res" where
  "watch_run io app [] s = Inr s"
| "watch_run io app (op # ops) s = res_bind (watch_step io app op s) (watch_run io app ops)"

definition logs :: "watch_op \<Rightarrow> bool" where
  "logs op = (case op of Log _ _ _ \<Rightarrow> True | Commit _ _ \<Rightarrow> True | _ \<Rightarrow> False)"

lemma log_event_fst:
  "\<exists>now. fst (watcher_log_event io ty pid ctx w d) = log_event_at now ty pid ctx w"
  by (auto simp: watcher_log_event_def split: prod.split)

lemma commit_ledger_fst:
  "\<exists>now. fst (watcher_commit_ledger io h v w d)
     = log_event_at now EVENT_TYPE_LEDGER_COMMIT 0 (Some (ledger_context h v @ [0])) w"
  by (auto simp: watcher_commit_ledger_def watcher_log_event_def Let_def split: prod.split)

lemma watch_step_log_form:
  assumes "logs op"
  obtains now ty pid ctx d' where "watch_step io app op (w, d) = Inr (log_event_at now ty pid ctx w, d')"
proof (cases op)
  case (Log ty pid ctx)
  then show ?thesis using that log_event_fst [of io ty pid ctx w d] by (auto simp: prod_eq_iff)
next
  case (Commit h v)
  then show ?thesis using that commit_ledger_fst [of io h v w d] by (auto simp: prod_eq_iff)
qed (use assms in \<open>auto simp: logs_def\<close>)

lemma sync_result:
  assumes "watcher_wf w" "watcher_sync_to_disk io app w d = Inr (w', d')"
  shows "w' = w\<lparr>sync_cursor := head w\<rparr>"
  using assms(2) unsynced_Nil_iff [OF assms(1)]
  by (auto simp: sync_to_disk_unsynced [OF assms(1)] Let_def res_simps split: if_splits)

lemma sync_wf:
  assumes "watcher_wf w" "watcher_sync_to_disk io app w d = Inr (w', d')"
  shows "watcher_wf w'"
  using assms(1) sync_result [OF assms] by (auto simp: watcher_wf_def)

lemma watch_step_wf:
  assumes "watcher_wf w" "watch_step io app op (w, d) = Inr (w', d')"
  shows "watcher_wf w'"
proof (cases "logs op")
  case True
  then show ?thesis
    using assms by (metis watch_step_log_form log_event_wf Inr_inject prod.inject)
next
  case False
  then show ?thesis using assms by (cases op) (auto simp: logs_def intro: sync_wf)
qed

lemma watch_run_wf:
  "watcher_wf (fst s) \<Longrightarrow> watch_run io app ops s = Inr s' \<Longrightarrow> watcher_wf (fst s')"
proof (induction ops arbitrary: s)
  case (Cons op ops)
  obtain w d where s: "s = (w, d)" by (cases s)
  from Cons.prems s obtain t where "watch_step io app op (w, d) = Inr t" "watch_run io app ops t = Inr s'"
    by (auto simp: res_simps)
  with Cons.IH [of t] Cons.prems(1) s watch_step_wf [of w io app op d] show ?case
    by (cases t) auto
qed simp

text \<open>How full the ring is after a run.\<close>

lemma log_event_count:
  "watcher_wf w \<Longrightarrow> unat (count (log_event_at now ty pid ctx w)) = min 64 (Suc (unat (count w)))"
  by (cases "count w < 64")
    (auto simp: log_event_not_full log_event_full count_less_64 watcher_wf_def unat_word_ariths)

lemma watch_step_count:
  assumes "watcher_wf w" "watch_step io app op (w, d) = Inr (w', d')"
  shows "min 64 (unat (count w) + (if logs op then 1 else 0)) = unat (count w')"
proof (cases "logs op")
  case True
  then obtain now ty pid ctx where "w' = log_event_at now ty pid ctx w"
    using assms(2) by (metis watch_step_log_form Inr_inject prod.inject)
  with True assms(1) show ?thesis by (simp add: log_event_count)
next
  case False
  have "unat (count w) \<le> 64" using assms(1) by (simp add: watcher_wf_def)
  with False show ?thesis
    using assms by (cases op) (auto simp: logs_def dest: sync_result)
qed

lemma watch_run_count:
  "watcher_wf (fst s) \<Longrightarrow> watch_run io app ops s = Inr s'
    \<Longrightarrow> unat (count (fst s')) = min 64 (unat (count (fst s)) + length (filter logs ops))"
proof (induction ops arbitrary: s)
  case Nil
  then show ?case by (auto simp: watcher_wf_def)
next
  case (Cons op ops)
  obtain w d where s: "s = (w, d)" by (cases s)
  from Cons.prems s obtain w1 d1 where t: "watch_step io app op (w, d) = Inr (w1, d1)"
    "watch_run io app ops (w1, d1) = Inr s'"
    by (auto simp: res_simps)
  have wf: "watcher_wf w" "watcher_wf w1" using Cons.prems(1) s t(1) watch_step_wf by auto
  show ?case
    using Cons.IH [of "(w1, d1)"] t(2) wf watch_step_count [OF wf(1) t(1)] s by auto
qed

text \<open>A full ring whose cursor has caught up: every later event takes the cursor with it.\<close>

definition flush_dead :: "watcher \<Rightarrow> bool" where
  "flush_dead w \<longleftrightarrow> watcher_wf w \<and> count w = 64 \<and> sync_cursor w = head w"

lemma flush_dead_log: "flush_dead w \<Longrightarrow> flush_dead (log_event_at now ty pid ctx w)"
  using full_tail_head [of w]
  by (simp add: flush_dead_def log_event_wf log_event_full)

lemma flush_dead_sync:
  assumes "flush_dead w"
  shows "watcher_sync_to_disk io app w d = Inr (w, print_all io
    [lit ''[WATCHER] Flushing Ledger to LEDGER.LOG...\<newline>'',
     lit ''[WATCHER] Ledger is up to date. No new entries to sync.\<newline>''] d)"
  using assms by (simp add: flush_dead_def watcher_sync_to_disk_def)

lemma flush_dead_step:
  assumes "flush_dead w"
  shows "\<exists>w' d'. flush_dead w' \<and> (\<forall>app. watch_step io app op (w, d) = Inr (w', d'))"
proof (cases op)
  case (Log ty pid ctx)
  then show ?thesis using log_event_fst [of io ty pid ctx w d] flush_dead_log [OF assms]
    by (cases "watcher_log_event io ty pid ctx w d") auto
next
  case (Commit h v)
  then show ?thesis using commit_ledger_fst [of io h v w d] flush_dead_log [OF assms]
    by (cases "watcher_commit_ledger io h v w d") auto
qed (use assms in \<open>auto simp: flush_dead_sync\<close>)

lemma flush_dead_run:
  "flush_dead w \<Longrightarrow> \<exists>s. \<forall>app. watch_run io app ops (w, d) = Inr s"
proof (induction ops arbitrary: w d)
  case (Cons op ops)
  obtain w' d' where "flush_dead w'" "\<forall>app. watch_step io app op (w, d) = Inr (w', d')"
    using flush_dead_step [OF Cons.prems, of io op d] by blast
  with Cons.IH [of w' d'] show ?case by simp
qed simp

section \<open>Receipt text\<close>

lemma ledger_context_eq:
  "ledger_context h v = lit ''TX: 0x'' @ hexs 16 h @ lit '' | VOL: '' @ i32_to_dec_str v"
  by (simp add: ledger_context_def u64_to_hex_str_hexs)

lemma copied_ledger_context:
  "copied (Some (ledger_context h v @ [0])) = ledger_context h v"
proof -
  have "0 \<notin> set (lit ''TX: 0x'')" "0 \<notin> set (lit '' | VOL: '')" by (simp_all add: lit_def)
  then have "0 \<notin> set (ledger_context h v)"
    by (simp add: ledger_context_eq i32_to_dec_str_no_nul)
  moreover have "length (ledger_context h v) \<le> 63"
    using length_i32_to_dec_str [of v] by (simp add: ledger_context_eq)
  ultimately show ?thesis by (simp add: copied_def)
qed

section \<open>Properties\<close>

text \<open>The zeroed statics before \<^verbatim>\<open>watcher_init\<close>.\<close>

definition bss_watcher :: watcher where
  "bss_watcher = \<lparr>events = replicate 64 \<lparr>ev_timestamp = 0, ev_type = EVENT_TYPE_NONE, ev_pid = 0,
     ev_context = replicate 64 0\<rparr>, head = 0, tail = 0, count = 0, sync_cursor = 0\<rparr>"

lemma bss_watcher_wf: "watcher_wf bss_watcher"
  by (auto simp: bss_watcher_def watcher_wf_def event_ok_def terminated_def)

lemma unsynced_bss [simp]: "unsynced bss_watcher = []"
  by (simp add: unsynced_def bss_watcher_def)

lemma count_bss [simp]: "count bss_watcher = 0"
  by (simp add: bss_watcher_def)

text \<open>A machine with no services, for concrete instances: time stands at 7, printing is a no-op.\<close>

definition quiet_io :: "unit io" where
  "quiet_io = \<lparr>io_read = \<lambda>s d. Inr (None, d), io_write = \<lambda>s b d. Inr (False, d), io_print = \<lambda>s d. d,
     io_timer = \<lambda>d. (7, d), io_key = \<lambda>d. (0, d), io_rx = \<lambda>d. (0, d), io_flush = Inr\<rparr>"

text \<open>
  C2: \<^verbatim>\<open>watcher_log_event\<close> implements a bounded log: it keeps the representation invariant of the
  64-slot ring, and the events read oldest first are the previous ones with the new one appended,
  cut to the last 64; the stored context is the caller's string cut to 63 bytes.
\<close>

theorem log_event_refines_bounded_log:
  assumes "watcher_wf w"
  shows "watcher_wf (log_event_at now ty pid ctx w)
    \<and> map event_view (history (log_event_at now ty pid ctx w))
      = last_n 64 (map event_view (history w) @ [(now, ty, pid, copied ctx)])"
  using assms log_event_wf history_log by blast

theorem log_event_refines_bounded_log_witness:
  "watcher_wf bss_watcher \<and> map event_view (history (log_event_at 5 EVENT_TYPE_FS_READ 3 (Some (lit ''A'')) bss_watcher))
      = last_n 64 (map event_view (history bss_watcher) @ [(5, EVENT_TYPE_FS_READ, 3, copied (Some (lit ''A'')))])"
  using log_event_refines_bounded_log [OF bss_watcher_wf] bss_watcher_wf by blast

text \<open>
  C9: \<^verbatim>\<open>watcher_sync_to_disk\<close> is exact while the ring has not filled: after a flush (or a start) that
  left nothing unsynced in a ring that is not full, and fewer than 64 further events, a flush
  appends exactly the ledger commits among those events, in order, each followed by a newline,
  then moves the cursor to the head; it never reads outside the ring or loops.
\<close>

theorem sync_persists_events_since_last_flush:
  assumes "watcher_wf w" "count w < 64" "unsynced w = []" "es \<noteq> []" "length es < 64"
  shows "watcher_sync_to_disk io app (log_all es w) d =
    (let ls = ledger_lines (map entry_view es)
     in res_bind (persist_all app ls (io_print io (lit ''[WATCHER] Flushing Ledger to LEDGER.LOG...\<newline>'') d))
          (\<lambda>d. Inr ((log_all es w)\<lparr>sync_cursor := head (log_all es w)\<rparr>,
            print_all io [lit ''[WATCHER] Sync Complete. '', uart_hex_string (ucast (of_nat (length ls) :: u32)),
              lit '' new entries persisted.\<newline>''] d)))"
proof -
  have u: "map event_view (unsynced (log_all es w)) = map entry_view es"
    using unsynced_log_all [of w es] assms by simp
  then have "unsynced (log_all es w) \<noteq> []" using assms(4) by (metis map_is_Nil_conv)
  then show ?thesis
    using u by (simp add: sync_to_disk_unsynced [OF log_all_wf [OF assms(1)]] Let_def)
qed

theorem sync_persists_events_since_last_flush_witness:
  "watcher_sync_to_disk quiet_io (\<lambda>f s d. Inr d) (log_all [(9, EVENT_TYPE_LEDGER_COMMIT, 0, None)] bss_watcher) ()
    = Inr ((log_all [(9, EVENT_TYPE_LEDGER_COMMIT, 0, None)] bss_watcher)\<lparr>sync_cursor := 1\<rparr>, ())"
proof -
  have "head (log_all [(9, EVENT_TYPE_LEDGER_COMMIT, 0, None)] bss_watcher) = 1"
    by (simp add: bss_watcher_def)
  then show ?thesis
    using sync_persists_events_since_last_flush
      [of bss_watcher "[(9, EVENT_TYPE_LEDGER_COMMIT, 0, None)]" quiet_io "\<lambda>f s d. Inr d" "()"]
    by (simp add: bss_watcher_wf)
qed

text \<open>
  C19: once the ring has held 64 events, the first flush that completes is the last one that writes:
  from then on, whatever is logged, committed, dumped or flushed, no entry reaches the disk (the run
  is the same as with an append that always fails), because the full ring's tail takes the cursor
  along with every new event.
\<close>

theorem no_flush_writes_after_full_ring:
  assumes "watcher_wf w" "watch_run io app ops (w, d) = Inr (w1, d1)" "64 \<le> length (filter logs ops)"
    and "watcher_sync_to_disk io app w1 d1 = Inr (w2, d2)"
  shows "watch_run io app ops' (w2, d2) = watch_run io (\<lambda>_ _ _. Inl OutOfBounds) ops' (w2, d2)
    \<and> (\<exists>s. watch_run io app ops' (w2, d2) = Inr s)"
proof -
  have wf1: "watcher_wf w1" using watch_run_wf [of "(w, d)"] assms(1,2) by fastforce
  have "unat (count w1) = 64" using watch_run_count [of "(w, d)"] assms(1-3) by fastforce
  then have "count w1 = 64" by (simp add: word_unat_eq_iff)
  then have "flush_dead w2"
    using sync_result [OF wf1 assms(4)] sync_wf [OF wf1 assms(4)] by (simp add: flush_dead_def)
  from flush_dead_run [OF this, of io ops' d2] show ?thesis by auto
qed

definition full_watcher :: watcher where
  "full_watcher = bss_watcher\<lparr>count := 64\<rparr>"

theorem no_flush_writes_after_full_ring_witness:
  "\<exists>w1. watch_run quiet_io (\<lambda>f s d. Inr d) (replicate 64 (Commit 1 2)) (full_watcher, ()) = Inr (w1, ())
    \<and> (\<exists>w2 s. watcher_sync_to_disk quiet_io (\<lambda>f s d. Inr d) w1 () = Inr (w2, ())
         \<and> watch_run quiet_io (\<lambda>_ _ _. Inl OutOfBounds) [Commit 5 6, Sync] (w2, ()) = Inr s)"
proof -
  have dead: "flush_dead full_watcher"
    by (auto simp: flush_dead_def full_watcher_def bss_watcher_def watcher_wf_def event_ok_def terminated_def)
  let ?app = "\<lambda>f s d. Inr d :: unit res"
  obtain s where "watch_run quiet_io ?app (replicate 64 (Commit 1 2)) (full_watcher, ()) = Inr s"
    using flush_dead_run [OF dead, of quiet_io "replicate 64 (Commit 1 2)" "()"] by auto
  then obtain w1 where run: "watch_run quiet_io ?app (replicate 64 (Commit 1 2)) (full_watcher, ()) = Inr (w1, ())"
    by (cases s) auto
  have wf: "watcher_wf full_watcher" using dead by (simp add: flush_dead_def)
  then have "watcher_wf w1" using watch_run_wf run by fastforce
  have "persist_all ?app ls d = Inr d" for ls d by (induction ls) auto
  then obtain w2 where sync: "watcher_sync_to_disk quiet_io ?app w1 () = Inr (w2, ())"
    by (cases "unsynced w1 = []") (auto simp: sync_to_disk_unsynced [OF \<open>watcher_wf w1\<close>] Let_def)
  have "64 \<le> length (filter logs (replicate 64 (Commit 1 2)))" by (simp add: logs_def)
  from no_flush_writes_after_full_ring [OF wf run this sync, of "[Commit 5 6, Sync]"]
  show ?thesis using run sync by metis
qed



text \<open>
  The most negative volume loses its digits: the receipt's volume field is a bare minus sign,
  since negating it gives it back and the digit loop does not run.
\<close>

theorem ledger_receipt_min_volume:
  "i32_to_dec_str 0x80000000 = lit ''-''"
  by code_simp

end
