(* ===== verification/Fat32.thy ===== *)
theory Fat32
  imports Uart
begin

text \<open>
  \<^verbatim>\<open>modules/fs/fat32.c\<close> over the block driver: mounting, the root directory scan, reading,
  writing and appending. The driver is the \<open>io_read\<close>/\<open>io_write\<close> of the services record; the two
  static sector buffers are local values, since every routine fills them before it uses them.
  Sector contents are 512-byte lists; packed structures are fields at their byte offsets
  (\<^verbatim>\<open>include/os_fat32.h\<close>).
\<close>

section \<open>State and geometry\<close>

record fat_fs =
  bytes_per_cluster :: u32
  fat_start_sector :: u32
  data_start_sector :: u32
  root_dir_cluster :: u32
  max_valid_clusters :: u32

definition cluster_to_sector :: "fat_fs \<Rightarrow> u32 \<Rightarrow> u32" where
  "cluster_to_sector fs cluster =
     (let offset = cluster - 2; sectors_per_cluster = bytes_per_cluster fs div 512
      in data_start_sector fs + offset * sectors_per_cluster)"

text \<open>\<^verbatim>\<open>struct fat32_bpb\<close>: the fields the mount reads.\<close>

definition bpb_bytes_per_sector :: "u8 list \<Rightarrow> u16" where
  "bpb_bytes_per_sector b = get16 b 11"

definition bpb_sectors_per_cluster :: "u8 list \<Rightarrow> u8" where
  "bpb_sectors_per_cluster b = b ! 13"

definition bpb_reserved_sectors :: "u8 list \<Rightarrow> u16" where
  "bpb_reserved_sectors b = get16 b 14"

definition bpb_fat_count :: "u8 list \<Rightarrow> u8" where
  "bpb_fat_count b = b ! 16"

definition bpb_total_sectors_16 :: "u8 list \<Rightarrow> u16" where
  "bpb_total_sectors_16 b = get16 b 19"

definition bpb_total_sectors_32 :: "u8 list \<Rightarrow> u32" where
  "bpb_total_sectors_32 b = get32 b 32"

definition bpb_sectors_per_fat_32 :: "u8 list \<Rightarrow> u32" where
  "bpb_sectors_per_fat_32 b = get32 b 36"

definition bpb_root_cluster :: "u8 list \<Rightarrow> u32" where
  "bpb_root_cluster b = get32 b 44"

text \<open>What the mount stores; a division by zero sectors per cluster gives zero on AArch64, as in HOL.\<close>

definition mount_bpb :: "u8 list \<Rightarrow> fat_fs" where
  "mount_bpb b =
     (let fat_start = ucast (bpb_reserved_sectors b);
          fat_size = bpb_sectors_per_fat_32 b;
          total = (if bpb_total_sectors_32 b \<noteq> 0 then bpb_total_sectors_32 b
                   else ucast (bpb_total_sectors_16 b));
          max_clusters = total div ucast (bpb_sectors_per_cluster b)
      in \<lparr>bytes_per_cluster = ucast (bpb_bytes_per_sector b) * ucast (bpb_sectors_per_cluster b),
          fat_start_sector = fat_start,
          data_start_sector = fat_start + ucast (bpb_fat_count b) * fat_size,
          root_dir_cluster = bpb_root_cluster b,
          max_valid_clusters = (if max_clusters = 0 then 65536 else max_clusters)\<rparr>)"

definition print_field :: "'d io \<Rightarrow> string \<Rightarrow> u32 \<Rightarrow> 'd \<Rightarrow> 'd" where
  "print_field io label v d =
     io_print io (lit ''\<newline>'') (uart_print_hex io (ucast v) (io_print io (lit label) d))"

definition fs_fat32_init :: "'d io \<Rightarrow> fat_fs \<Rightarrow> 'd \<Rightarrow> (fat_fs \<times> 'd) res" where
  "fs_fat32_init io fs d =
     (let d = io_print io (lit ''[FS] Initializing FAT32 File System (Direct Mode)...\<newline>'') d
      in res_bind (io_read io 0 d) (\<lambda>(r, d). case r of
           None \<Rightarrow> Inr (fs, io_print io (lit ''[FS] ERROR: Failed to read Boot Sector.\<newline>'') d)
         | Some disk_buffer \<Rightarrow>
             if disk_buffer ! 510 \<noteq> 0x55 \<or> disk_buffer ! 511 \<noteq> 0xAA
             then Inr (fs, io_print io (lit ''[FS] ERROR: Invalid Boot Sector signature.\<newline>'') d)
             else let fs = mount_bpb disk_buffer;
                      d = io_print io (lit ''[FS] FAT32 Mount Successful!\<newline>'') d;
                      d = print_field io ''     -> Bytes/Cluster : '' (bytes_per_cluster fs) d;
                      d = print_field io ''     -> FAT Start LBA : '' (fat_start_sector fs) d;
                      d = print_field io ''     -> Data Start LBA: '' (data_start_sector fs) d;
                      d = print_field io ''     -> Root Cluster  : '' (root_dir_cluster fs) d
                  in Inr (fs, d)))"

section \<open>Directory entries\<close>

text \<open>\<^verbatim>\<open>struct fat32_dir_entry\<close>, 32 bytes: sixteen of them in a sector.\<close>

definition dir_name :: "u8 list \<Rightarrow> nat \<Rightarrow> u8 list" where
  "dir_name b i = take 11 (drop (32 * i) b)"

definition dir_name0 :: "u8 list \<Rightarrow> nat \<Rightarrow> u8" where
  "dir_name0 b i = b ! (32 * i)"

definition dir_attr :: "u8 list \<Rightarrow> nat \<Rightarrow> u8" where
  "dir_attr b i = b ! (32 * i + 11)"

definition dir_cluster :: "u8 list \<Rightarrow> nat \<Rightarrow> u32" where
  "dir_cluster b i = push_bit 16 (ucast (get16 b (32 * i + 20))) OR ucast (get16 b (32 * i + 26))"

definition dir_file_size :: "u8 list \<Rightarrow> nat \<Rightarrow> u32" where
  "dir_file_size b i = get32 b (32 * i + 28)"

text \<open>The scans skip deleted (\<^verbatim>\<open>0xE5\<close>) and long-name (\<^verbatim>\<open>0x0F\<close>) entries and stop at a zero byte.\<close>

definition dir_skipped :: "u8 list \<Rightarrow> nat \<Rightarrow> bool" where
  "dir_skipped b i \<longleftrightarrow> dir_name0 b i = 0xE5 \<or> dir_attr b i = 0x0F"

fun list_root_loop :: "'d io \<Rightarrow> u8 list \<Rightarrow> nat list \<Rightarrow> nat \<Rightarrow> 'd \<Rightarrow> nat \<times> 'd" where
  "list_root_loop io b [] files_found d = (files_found, d)"
| "list_root_loop io b (i # is) files_found d =
     (if dir_name0 b i = 0 then (files_found, d)
      else if dir_skipped b i then list_root_loop io b is files_found d
      else let d = io_print io (lit ''     -> FILE FOUND: '') d;
               d = io_print io (cstr (dir_name b i)) d;
               d = io_print io (lit '' | Size: '') d;
               d = uart_print_hex io (ucast (dir_file_size b i)) d;
               d = io_print io (lit '' bytes\<newline>'') d
           in list_root_loop io b is (files_found + 1) d)"

definition root_sector :: "fat_fs \<Rightarrow> u64" where
  "root_sector fs = ucast (cluster_to_sector fs (root_dir_cluster fs))"

definition fs_list_root :: "'d io \<Rightarrow> fat_fs \<Rightarrow> 'd \<Rightarrow> 'd res" where
  "fs_list_root io fs d =
     (let d = io_print io (lit ''[FS] Scanning Root Directory...\<newline>'') d
      in res_bind (io_read io (root_sector fs) d) (\<lambda>(r, d). case r of
           None \<Rightarrow> Inr (io_print io (lit ''[FS] ERROR: Failed to read Root Directory sector.\<newline>'') d)
         | Some disk_buffer \<Rightarrow>
             let (files_found, d) = list_root_loop io disk_buffer [0..<16] 0 d
             in Inr (if files_found = 0 then io_print io (lit ''     -> (Directory is empty)\<newline>'') d else d)))"

text \<open>
  \<^verbatim>\<open>fs_get_dir_list\<close>: names as \<^verbatim>\<open>BASE.EXT\<close> lines, each byte stored only while \<open>pos < max_len - 1\<close>.
  The result is the buffer's bytes up to and with the final NUL.
\<close>

definition put_char :: "nat \<Rightarrow> u8 list \<Rightarrow> u8 \<Rightarrow> u8 list" where
  "put_char cap out c = (if length out < cap then out @ [c] else out)"

definition put_name_char :: "nat \<Rightarrow> u8 \<Rightarrow> u8 list \<Rightarrow> u8 list" where
  "put_name_char cap c out = (if c \<noteq> 32 then put_char cap out c else out)"

definition put_entry :: "nat \<Rightarrow> u8 list \<Rightarrow> u8 list \<Rightarrow> u8 list" where
  "put_entry cap name out =
     (let out = fold (put_name_char cap) (take 8 name) out;
          out = (if name ! 8 \<noteq> 32 \<and> length out < cap
                 then fold (put_name_char cap) (take 3 (drop 8 name)) (out @ lit ''.'') else out)
      in put_char cap out 10)"

fun dir_list_loop :: "nat \<Rightarrow> u8 list \<Rightarrow> nat list \<Rightarrow> u8 list \<Rightarrow> u8 list" where
  "dir_list_loop cap b [] out = out"
| "dir_list_loop cap b (i # is) out =
     (if dir_name0 b i = 0 then out
      else if dir_skipped b i then dir_list_loop cap b is out
      else dir_list_loop cap b is (put_entry cap (dir_name b i) out))"

definition fs_get_dir_list :: "'d io \<Rightarrow> fat_fs \<Rightarrow> u32 \<Rightarrow> 'd \<Rightarrow> (u8 list \<times> 'd) res" where
  "fs_get_dir_list io fs max_len d =
     res_bind (io_read io (root_sector fs) d) (\<lambda>(r, d). case r of
       None \<Rightarrow> Inr ([0], d)
     | Some disk_buffer \<Rightarrow>
         Inr (dir_list_loop (unat (max_len - 1)) disk_buffer [0..<16] [] @ [0], d))"

section \<open>File names\<close>

definition to_upper :: "u8 \<Rightarrow> u8" where
  "to_upper c = (if 97 \<le> c \<and> c \<le> 122 then c - 32 else c)"

text \<open>
  \<^verbatim>\<open>format_fat_name\<close>: eleven blanks; up to eight bytes before the first dot go to the front, up to
  three after it to position 8, in upper case.
\<close>

definition format_fat_name :: "u8 list \<Rightarrow> u8 list" where
  "format_fat_name input =
     (let s = cstr input;
          dot = of_char (CHR ''.'');
          output = overwrite (replicate 11 32) 0 (map to_upper (take 8 (takeWhile (\<lambda>c. c \<noteq> dot) s)))
      in case dropWhile (\<lambda>c. c \<noteq> dot) s of
           [] \<Rightarrow> output
         | _ # ext \<Rightarrow> overwrite output 8 (map to_upper (take 3 ext)))"

section \<open>Reading\<close>

text \<open>The directory search of the readers: it ends at a zero name byte.\<close>

fun find_entry :: "u8 list \<Rightarrow> u8 list \<Rightarrow> nat list \<Rightarrow> nat option" where
  "find_entry b target [] = None"
| "find_entry b target (i # is) =
     (if dir_name0 b i = 0 then None
      else if dir_name b i = target then Some i else find_entry b target is)"

text \<open>
  \<^verbatim>\<open>buffer\<close> is the caller's array of \<^verbatim>\<open>max_len\<close> bytes; a failed read of the data sector leaves it as
  it was. Copying more than the 512 bytes of the sector buffer is outside the array.
\<close>

definition fs_read_file_content ::
  "'d io \<Rightarrow> fat_fs \<Rightarrow> u8 list \<Rightarrow> u8 list \<Rightarrow> u32 \<Rightarrow> 'd \<Rightarrow> (u8 list \<times> 'd) res" where
  "fs_read_file_content io fs filename buffer max_len d =
     (let target_name = format_fat_name filename
      in res_bind (io_read io (root_sector fs) d) (\<lambda>(r, d). case r of
           None \<Rightarrow> Inr (overwrite buffer 0 [0], d)
         | Some disk_buffer \<Rightarrow>
             let (target_cluster, target_size) =
               (case find_entry disk_buffer target_name [0..<16] of
                  None \<Rightarrow> (0, 0) | Some i \<Rightarrow> (dir_cluster disk_buffer i, dir_file_size disk_buffer i))
             in if target_cluster = 0
                then if length buffer \<le> 16 then Inl OutOfBounds
                     else Inr (overwrite (overwrite buffer 0 (take (unat (max_len - 1)) (lit ''File not found.\<newline>''))) 16 [0], d)
                else res_bind (io_read io (ucast (cluster_to_sector fs target_cluster)) d) (\<lambda>(r, d). case r of
                       None \<Rightarrow> Inr (buffer, d)
                     | Some disk_buffer \<Rightarrow>
                         let bytes_to_copy = unat (if target_size < max_len - 1 then target_size else max_len - 1)
                         in if 512 < bytes_to_copy \<or> length buffer \<le> bytes_to_copy then Inl OutOfBounds
                            else Inr (overwrite buffer 0 (take bytes_to_copy disk_buffer @ [0]), d))))"

text \<open>
  \<^verbatim>\<open>fs_read_test_file\<close> prints the first sector of \<^verbatim>\<open>TEST.TXT\<close>; for an empty file it looks at the
  byte before the buffer.
\<close>

definition fs_read_test_file :: "'d io \<Rightarrow> fat_fs \<Rightarrow> 'd \<Rightarrow> 'd res" where
  "fs_read_test_file io fs d =
     (let d = io_print io (lit ''[FS] Attempting to read TEST    TXT...\<newline>'') d
      in res_bind (io_read io (root_sector fs) d) (\<lambda>(r, d). case r of
           None \<Rightarrow> Inr d
         | Some disk_buffer \<Rightarrow>
             let (target_cluster, target_size) =
               (case find_entry disk_buffer (lit ''TEST    TXT'') [0..<16] of
                  None \<Rightarrow> (0, 0) | Some i \<Rightarrow> (dir_cluster disk_buffer i, dir_file_size disk_buffer i))
             in if target_cluster = 0
                then Inr (io_print io (lit ''[FS] ERROR: TEST    TXT not found.\<newline>'') d)
                else let d = io_print io (lit ''[FS] File found at Cluster: '') d;
                         d = uart_print_hex io (ucast target_cluster) d;
                         d = io_print io (lit ''\<newline>[FS] Contents:\<newline>'') d;
                         d = io_print io (lit ''----------------------------------------\<newline>'') d
                     in res_bind (io_read io (ucast (cluster_to_sector fs target_cluster)) d) (\<lambda>(r, d). case r of
                          None \<Rightarrow> Inr d
                        | Some disk_buffer \<Rightarrow>
                            let end_idx = (if target_size < 512 then unat target_size else 511);
                                disk_buffer = disk_buffer[end_idx := 0];
                                d = io_print io (cstr disk_buffer) d
                            in if end_idx = 0 then Inl OutOfBounds
                               else let d = (if disk_buffer ! (end_idx - 1) \<noteq> 10 then io_print io (lit ''\<newline>'') d else d)
                                    in Inr (io_print io (lit ''----------------------------------------\<newline>'') d))))"

section \<open>Writing\<close>

definition fat_entry :: "u8 list \<Rightarrow> nat \<Rightarrow> u32" where
  "fat_entry b i = get32 b (4 * i) AND 0x0FFFFFFF"

fun find_free_cluster :: "u8 list \<Rightarrow> nat list \<Rightarrow> nat option" where
  "find_free_cluster b [] = None"
| "find_free_cluster b (i # is) = (if fat_entry b i = 0 then Some i else find_free_cluster b is)"

fun find_free_slot :: "u8 list \<Rightarrow> nat list \<Rightarrow> nat option" where
  "find_free_slot b [] = None"
| "find_free_slot b (i # is) =
     (if dir_name0 b i = 0 \<or> dir_name0 b i = 0xE5 then Some i else find_free_slot b is)"

text \<open>The entries of the first FAT sector a cluster is looked for in: \<^verbatim>\<open>i = 2; i < 128\<close>.\<close>

definition fat_indices :: "nat list" where
  "fat_indices = [2..<128]"

text \<open>The 32 bytes stored for a new file: name, archive attribute, zero times, cluster halves, size.\<close>

definition new_entry :: "u8 list \<Rightarrow> u32 \<Rightarrow> u32 \<Rightarrow> u8 list" where
  "new_entry name cluster fsize = name @ [0x20, 0, 0] @ bytes16 0 @ bytes16 0 @ bytes16 0
     @ bytes16 (ucast (drop_bit 16 cluster)) @ bytes16 0 @ bytes16 0
     @ bytes16 (ucast (cluster AND 0xFFFF)) @ bytes32 fsize"

text \<open>
  The results of the sector writes are not looked at. \<open>data\<close> holds the readable bytes behind the
  caller's pointer.
\<close>

definition fs_write_file_content ::
  "'d io \<Rightarrow> fat_fs \<Rightarrow> u8 list \<Rightarrow> u8 list \<Rightarrow> u32 \<Rightarrow> 'd \<Rightarrow> 'd res" where
  "fs_write_file_content io fs filename data length' d =
     (let target_name = format_fat_name filename;
          fat_sector = ucast (fat_start_sector fs)
      in res_bind (io_read io fat_sector d) (\<lambda>(r, d). case r of
           None \<Rightarrow> Inr d
         | Some disk_buffer \<Rightarrow>
             (case find_free_cluster disk_buffer fat_indices of
                None \<Rightarrow> Inr d
              | Some free_cluster \<Rightarrow>
                  res_bind (io_write io fat_sector (put32 disk_buffer (4 * free_cluster) 0x0FFFFFFF) d) (\<lambda>(_, d).
                  let bytes_to_copy = (if length' < 512 then unat length' else 512)
                  in if length data < bytes_to_copy then Inl OutOfBounds
                     else let write_buffer = overwrite (replicate 512 0) 0 (take bytes_to_copy data);
                              data_sector = ucast (cluster_to_sector fs (of_nat free_cluster))
                          in res_bind (io_write io data_sector write_buffer d) (\<lambda>(_, d).
                             res_bind (io_read io (root_sector fs) d) (\<lambda>(r, d). case r of
                               None \<Rightarrow> Inr d
                             | Some disk_buffer \<Rightarrow>
                                 (case find_free_slot disk_buffer [0..<16] of
                                    None \<Rightarrow> Inr d
                                  | Some free_idx \<Rightarrow>
                                      res_bind (io_write io (root_sector fs)
                                        (overwrite disk_buffer (32 * free_idx)
                                           (new_entry target_name (of_nat free_cluster) length')) d)
                                        (\<lambda>(_, d). Inr d))))))))"

section \<open>Appending\<close>

text \<open>The append's directory search looks at all sixteen entries.\<close>

fun find_entry_all :: "u8 list \<Rightarrow> u8 list \<Rightarrow> nat list \<Rightarrow> nat option" where
  "find_entry_all b target [] = None"
| "find_entry_all b target (i # is) = (if dir_name b i = target then Some i else find_entry_all b target is)"

text \<open>
  The chain walk inside the first FAT sector: \<open>None\<close> is the cycle abort. A cluster number past the
  128 entries of the sector is outside the array. The 32-bit guard can only come back to zero on a
  cycle under the limit \<^verbatim>\<open>0xFFFFFFFF\<close>, where the loop never ends.
\<close>

lemma guard_decreases:
  assumes "(g :: u32) \<noteq> 0xFFFFFFFF"
  shows "4294967296 - unat (g + 1) < 4294967296 - unat g"
proof -
  have "1 + g \<noteq> 0"
  proof
    assume "1 + g = 0"
    then have "g = - 1" by (simp add: add_eq_0_iff)
    then show False using assms by simp
  qed
  then have "unat (1 + g) = Suc (unat g)" by (rule unatSuc)
  moreover have "unat g < 4294967296" using unsigned_less [of g] by simp
  ultimately show ?thesis by (simp add: add.commute)
qed

function fat_walk :: "u8 list \<Rightarrow> u32 \<Rightarrow> u32 \<Rightarrow> u32 \<Rightarrow> u32 option res" where
  "fat_walk b max_clusters current cycle_guard =
     (if 128 \<le> unat current then Inl OutOfBounds
      else let next = fat_entry b (unat current)
           in if 2 \<le> next \<and> next < 0x0FFFFFF8
              then if cycle_guard = 0xFFFFFFFF then Inl Spin
                   else if max_clusters < cycle_guard + 1 then Inr None
                        else fat_walk b max_clusters next (cycle_guard + 1)
              else Inr (Some current))"
  by pat_completeness auto
termination
  by (relation "measure (\<lambda>(b, m, c, g). 4294967296 - unat g)") (auto intro: guard_decreases)

declare fat_walk.simps [simp del]

definition fs_append_file_content ::
  "'d io \<Rightarrow> fat_fs \<Rightarrow> u8 list \<Rightarrow> u8 list \<Rightarrow> u32 \<Rightarrow> 'd \<Rightarrow> 'd res" where
  "fs_append_file_content io fs filename data length' d =
     (let target_name = format_fat_name filename
      in res_bind (io_read io (root_sector fs) d) (\<lambda>(r, d). case r of
           None \<Rightarrow> Inr d
         | Some disk_buffer \<Rightarrow>
             (case find_entry_all disk_buffer target_name [0..<16] of
                None \<Rightarrow> fs_write_file_content io fs filename data length' d
              | Some file_idx \<Rightarrow>
                  let current_cluster = dir_cluster disk_buffer file_idx;
                      current_size = dir_file_size disk_buffer file_idx
                  in res_bind (io_read io (ucast (fat_start_sector fs)) d) (\<lambda>(r, d). case r of
                       None \<Rightarrow> Inr d
                     | Some fat_table \<Rightarrow>
                         res_bind (fat_walk fat_table (max_valid_clusters fs) current_cluster 0) (\<lambda>w. case w of
                           None \<Rightarrow> Inr (io_print io (lit ''[FS] FATAL: Circular FAT chain detected! Aborting append.\<newline>'') d)
                         | Some last_cluster \<Rightarrow>
                             let target_sector = ucast (cluster_to_sector fs last_cluster)
                             in res_bind (io_read io target_sector d) (\<lambda>(r, d). case r of
                                  None \<Rightarrow> Inr d
                                | Some write_buffer \<Rightarrow>
                                    let offset = current_size mod 512;
                                        space_left = 512 - offset;
                                        to_copy = (if length' < space_left then length' else space_left)
                                    in if length data < unat to_copy then Inl OutOfBounds
                                       else res_bind (io_write io target_sector
                                              (overwrite write_buffer (unat offset) (take (unat to_copy) data)) d) (\<lambda>(_, d).
                                            res_bind (io_read io (root_sector fs) d) (\<lambda>(r, d). case r of
                                              None \<Rightarrow> Inr d
                                            | Some disk_buffer \<Rightarrow>
                                                res_bind (io_write io (root_sector fs)
                                                  (put32 disk_buffer (32 * file_idx + 28)
                                                     (dir_file_size disk_buffer file_idx + to_copy)) d)
                                                  (\<lambda>(_, d). Inr d)))))))))"

end
