(* ===== verification/Syscall.thy ===== *)
theory Syscall
  imports Ipc Watcher Fat32
begin

text \<open>
  \<^verbatim>\<open>kernel/syscall.c\<close>: draining the keyboard and the UART into the mailbox, and the system call
  handler. The state is the mailbox, the watcher and the mounted volume. \<open>vm\<close> stands for
  \<^verbatim>\<open>autarky_execute\<close>, the entry of the Rust virtual machine; \<open>stale\<close> gives the bytes an uninitialised
  local array holds. A message is the one behind the caller's pointer.
\<close>

record kernel =
  mail :: mailbox
  watch :: watcher
  vol :: fat_fs

type_synonym 'd vm = "u8 list \<Rightarrow> u8 list \<Rightarrow> watcher \<times> 'd \<Rightarrow> (u8 list \<times> watcher \<times> 'd) res"
type_synonym stale = "nat \<Rightarrow> u8"

definition local_array :: "stale \<Rightarrow> nat \<Rightarrow> u8 list" where
  "local_array stale n = map stale [0..<n]"

definition capability_matrix :: "nat list list" where
  "capability_matrix =
     [[1, 1, 1, 1, 1, 1, 1, 1, 1],
      [1, 0, 1, 0, 0, 0, 0, 0, 0],
      [0, 1, 0, 1, 1, 0, 0, 0, 0],
      [0, 0, 1, 0, 0, 0, 0, 0, 1],
      [1, 0, 1, 0, 0, 1, 0, 0, 0],
      [0, 0, 0, 0, 1, 0, 0, 0, 0],
      [1, 1, 0, 0, 0, 0, 0, 0, 1],
      [1, 1, 0, 0, 0, 0, 1, 0, 0],
      [0, 1, 0, 1, 0, 0, 1, 0, 0]]"

section \<open>Draining the hardware queues\<close>

text \<open>\<^verbatim>\<open>hw_msg\<close>: only the first payload byte is written.\<close>

definition hw_msg :: "stale \<Rightarrow> u8 \<Rightarrow> u8 \<Rightarrow> os_message" where
  "hw_msg stale sender c = \<lparr>sender_id = sender, target_id = SYS_MOD_GUI_SHELL, msg_type = IPC_MSG_KEY_PRESS, msg_length = 1,
     payload = (local_array stale 256)[0 := c]\<rparr>"

text \<open>
  \<^verbatim>\<open>while ((c = poll()) != 0)\<close>; the fuel bounds the number of polls, and running out of it means that
  the source never goes quiet.
\<close>

fun drain :: "('d \<Rightarrow> u8 \<times> 'd) \<Rightarrow> (u8 \<Rightarrow> os_message) \<Rightarrow> nat \<Rightarrow> mailbox \<Rightarrow> 'd \<Rightarrow> (mailbox \<times> 'd) res" where
  "drain poll mk 0 q d = Inl Spin"
| "drain poll mk (Suc fuel) q d =
     (let (c, d) = poll d in if c \<noteq> 0 then drain poll mk fuel (ipc_kernel_send (mk c) q) d else Inr (q, d))"

definition newline_for_return :: "u8 \<Rightarrow> u8" where
  "newline_for_return c = (if c = 13 then 10 else c)"

definition drain_hardware_queues :: "stale \<Rightarrow> 'd io \<Rightarrow> nat \<Rightarrow> mailbox \<Rightarrow> 'd \<Rightarrow> (mailbox \<times> 'd) res" where
  "drain_hardware_queues stale io fuel q d =
     res_bind (drain (io_key io) (hw_msg stale SYS_MOD_KERNEL) fuel q d)
       (\<lambda>(q, d). drain (io_rx io) (\<lambda>c. hw_msg stale SYS_MOD_UART (newline_for_return c)) fuel q d)"

section \<open>Requests to the kernel\<close>

text \<open>
  The reply: \<open>s\<close> and a NUL at the front of the payload, the length counting both; the rest of the
  payload is what the local message held before.
\<close>

definition reply :: "stale \<Rightarrow> os_message \<Rightarrow> u16 \<Rightarrow> u8 list \<Rightarrow> os_message" where
  "reply stale in_msg t s = \<lparr>sender_id = SYS_MOD_KERNEL, target_id = sender_id in_msg, msg_type = t,
     msg_length = of_nat (length s) + 1, payload = overwrite (local_array stale 256) 0 (s @ [0])\<rparr>"

definition send_reply :: "stale \<Rightarrow> os_message \<Rightarrow> u16 \<Rightarrow> u8 list \<Rightarrow> kernel \<Rightarrow> kernel" where
  "send_reply stale in_msg t s k = k\<lparr>mail := ipc_kernel_send (reply stale in_msg t s) (mail k)\<rparr>"

text \<open>\<^verbatim>\<open>while (buf[len] != 0 && len < 255)\<close>: what of a buffer goes into a reply.\<close>

definition reply_text :: "u8 list \<Rightarrow> u8 list" where
  "reply_text buf = take 255 (cstr buf)"

text \<open>
  The name scan of \<^verbatim>\<open>format_fat_name\<close> ends inside the payload: at a NUL, or behind a dot that leaves
  the bytes the extension loop looks at.
\<close>

definition name_in_bounds :: "u8 list \<Rightarrow> bool" where
  "name_in_bounds p \<longleftrightarrow> terminated p \<or> 5 \<le> length (dropWhile (\<lambda>c. c \<noteq> of_char (CHR ''.'')) p)"

definition log_request :: "'d io \<Rightarrow> event_type \<Rightarrow> os_message \<Rightarrow> u8 list \<Rightarrow> kernel \<Rightarrow> 'd \<Rightarrow> kernel \<times> 'd" where
  "log_request io ty in_msg ctx k d =
     (let (w, d) = watcher_log_event io ty (ucast (sender_id in_msg)) (Some ctx) (watch k) d
      in (k\<lparr>watch := w\<rparr>, d))"

definition fs_list_request :: "stale \<Rightarrow> 'd io \<Rightarrow> os_message \<Rightarrow> kernel \<Rightarrow> 'd \<Rightarrow> (kernel \<times> 'd) res" where
  "fs_list_request stale io in_msg k d =
     (let (k, d) = log_request io EVENT_TYPE_FS_READ in_msg (lit ''ROOT_DIR'') k d
      in res_bind (fs_get_dir_list io (vol k) 256 d) (\<lambda>(dir_buf, d).
           Inr (send_reply stale in_msg IPC_MSG_FS_LIST_RESP (reply_text dir_buf) k, d)))"

definition fs_read_request :: "stale \<Rightarrow> 'd io \<Rightarrow> os_message \<Rightarrow> kernel \<Rightarrow> 'd \<Rightarrow> (kernel \<times> 'd) res" where
  "fs_read_request stale io in_msg k d =
     (let (k, d) = log_request io EVENT_TYPE_FS_READ in_msg (payload in_msg) k d
      in if \<not> name_in_bounds (payload in_msg) then Inl OutOfBounds
         else res_bind (fs_read_file_content io (vol k) (payload in_msg) (local_array stale 256) 256 d) (\<lambda>(file_buf, d).
                Inr (send_reply stale in_msg IPC_MSG_FS_READ_RESP (reply_text file_buf) k, d)))"

text \<open>
  The file's data follow the name's NUL; their length is the message length less the bytes before
  them, modulo \<open>2 ^ 32\<close>.
\<close>

definition fs_write_request :: "stale \<Rightarrow> 'd io \<Rightarrow> os_message \<Rightarrow> kernel \<Rightarrow> 'd \<Rightarrow> (kernel \<times> 'd) res" where
  "fs_write_request stale io in_msg k d =
     (let (k, d) = log_request io EVENT_TYPE_FS_WRITE in_msg (payload in_msg) k d
      in if \<not> terminated (payload in_msg) then Inl OutOfBounds
         else let skip = length (cstr (payload in_msg)) + 1;
                  data_len = msg_length in_msg - of_nat skip
              in res_bind (fs_write_file_content io (vol k) (payload in_msg) (drop skip (payload in_msg)) data_len d) (\<lambda>d.
                   Inr (send_reply stale in_msg IPC_MSG_FS_WRITE_RESP (lit ''Write committed to disk.\<newline>'') k, d)))"

definition atk_exec_request :: "stale \<Rightarrow> 'd io \<Rightarrow> 'd vm \<Rightarrow> os_message \<Rightarrow> kernel \<Rightarrow> 'd \<Rightarrow> (kernel \<times> 'd) res" where
  "atk_exec_request stale io vm in_msg k d =
     (let (k, d) = log_request io EVENT_TYPE_FS_READ in_msg (payload in_msg) k d
      in if \<not> name_in_bounds (payload in_msg) then Inl OutOfBounds
         else res_bind (fs_read_file_content io (vol k) (payload in_msg) (local_array stale 1024) 1024 d) (\<lambda>(file_buf, d).
              res_bind (vm file_buf (local_array stale 256) (watch k, d)) (\<lambda>(out_buf, w, d).
                Inr (send_reply stale in_msg IPC_MSG_ATK_EXEC_RESP (reply_text out_buf) (k\<lparr>watch := w\<rparr>), d))))"

definition watcher_dump_request :: "stale \<Rightarrow> 'd io \<Rightarrow> os_message \<Rightarrow> kernel \<Rightarrow> 'd \<Rightarrow> (kernel \<times> 'd) res" where
  "watcher_dump_request stale io in_msg k d =
     (let d = watcher_dump_history io (watch k) d
      in Inr (send_reply stale in_msg IPC_MSG_WATCHER_DUMP_RESP (lit ''Watcher memory dumped to host UART terminal.\<newline>'') k, d))"

definition ledger_append :: "'d io \<Rightarrow> fat_fs \<Rightarrow> u8 list \<Rightarrow> u8 list \<Rightarrow> 'd \<Rightarrow> 'd res" where
  "ledger_append io fs name s d = fs_append_file_content io fs name s (of_nat (length s)) d"

definition watcher_sync_request :: "stale \<Rightarrow> 'd io \<Rightarrow> os_message \<Rightarrow> kernel \<Rightarrow> 'd \<Rightarrow> (kernel \<times> 'd) res" where
  "watcher_sync_request stale io in_msg k d =
     res_bind (watcher_sync_to_disk io (ledger_append io (vol k)) (watch k) d) (\<lambda>(w, d).
       Inr (send_reply stale in_msg IPC_MSG_WATCHER_SYNC_RESP (lit ''Ledger persisted to LEDGER.LOG\<newline>'') (k\<lparr>watch := w\<rparr>), d))"

definition kernel_request :: "stale \<Rightarrow> 'd io \<Rightarrow> 'd vm \<Rightarrow> os_message \<Rightarrow> kernel \<Rightarrow> 'd \<Rightarrow> (kernel \<times> 'd) res" where
  "kernel_request stale io vm in_msg k d =
     (if msg_type in_msg = IPC_MSG_FS_LIST_REQ then fs_list_request stale io in_msg k d
      else if msg_type in_msg = IPC_MSG_FS_READ_REQ then fs_read_request stale io in_msg k d
      else if msg_type in_msg = IPC_MSG_FS_WRITE_REQ then fs_write_request stale io in_msg k d
      else if msg_type in_msg = IPC_MSG_ATK_EXEC_REQ then atk_exec_request stale io vm in_msg k d
      else if msg_type in_msg = IPC_MSG_WATCHER_DUMP_REQ then watcher_dump_request stale io in_msg k d
      else if msg_type in_msg = IPC_MSG_WATCHER_SYNC_REQ then watcher_sync_request stale io in_msg k d
      else Inr (k, d))"

section \<open>The handler\<close>

text \<open>
  The result is the value left in \<^verbatim>\<open>x0\<close>, when the call writes it, and the message behind the pointer in
  \<^verbatim>\<open>x0\<close>, which only the receive call changes.
\<close>

definition syscall_handler ::
  "stale \<Rightarrow> 'd io \<Rightarrow> 'd vm \<Rightarrow> nat \<Rightarrow> u64 \<Rightarrow> os_message \<Rightarrow> kernel \<Rightarrow> 'd \<Rightarrow> (u64 option \<times> os_message \<times> kernel \<times> 'd) res" where
  "syscall_handler stale io vm fuel num msg k d =
     (if num = SYS_HW_DRAIN then res_bind (drain_hardware_queues stale io fuel (mail k) d) (\<lambda>(q, d). Inr (None, msg, k\<lparr>mail := q\<rparr>, d))
      else if num = SYS_GPU_FLUSH then res_bind (io_flush io d) (\<lambda>d. Inr (None, msg, k, d))
      else if num = SYS_UART_RECV then (let (c, d) = io_rx io d in Inr (Some (ucast c), msg, k, d))
      else if num = SYS_IPC_SEND then
        if target_id msg = SYS_MOD_KERNEL then res_bind (kernel_request stale io vm msg k d) (\<lambda>(k, d). Inr (None, msg, k, d))
        else Inr (None, msg, k\<lparr>mail := ipc_kernel_send msg (mail k)\<rparr>, d)
      else if num = SYS_IPC_RECV then
        (let (m, q) = ipc_recv msg (mail k) in Inr (None, m, k\<lparr>mail := q\<rparr>, d))
      else Inr (None, msg, k, d))"

end
