(* ===== verification/Terminal.thy ===== *)
theory Terminal
  imports Prelude
begin

text \<open>
  The text terminal of \<^verbatim>\<open>modules/shell_gui/main.c\<close>: the font and the routines that draw into the
  framebuffer. The framebuffer is the memory behind the context's pointer, as a list of pixels;
  a store outside it is \<open>OutOfBounds\<close>. Indices are the code's 32-bit arithmetic.
\<close>

section \<open>State\<close>

record term_ctx =
  framebuffer :: "u32 list"
  screen_width :: u32
  screen_height :: u32
  cursor_x :: u32
  cursor_y :: u32

definition COLOR_BG :: u32 where "COLOR_BG = 0xFF1E1E1E"
definition COLOR_FG :: u32 where "COLOR_FG = 0xFF00FF00"

definition font8x8 :: "u8 list list" where
  "font8x8 = [
    [0, 0, 0, 0, 0, 0, 0, 0],
    [0x18, 0x3C, 0x3C, 0x18, 0x18, 0, 0x18, 0],
    [0x6C, 0x6C, 0x6C, 0, 0, 0, 0, 0],
    [0x6C, 0x6C, 0xFE, 0x6C, 0xFE, 0x6C, 0x6C, 0],
    [0x18, 0x7E, 0xC0, 0x7E, 6, 0x7E, 0x18, 0],
    [0, 0xC6, 0xCC, 0x18, 0x30, 0x66, 0xC6, 0],
    [0x38, 0x6C, 0x38, 0x76, 0xDC, 0xCC, 0x76, 0],
    [0x30, 0x30, 0x60, 0, 0, 0, 0, 0],
    [0x18, 0x30, 0x60, 0x60, 0x60, 0x30, 0x18, 0],
    [0x60, 0x30, 0x18, 0x18, 0x18, 0x30, 0x60, 0],
    [0, 0x66, 0x3C, 0xFF, 0x3C, 0x66, 0, 0],
    [0, 0x18, 0x18, 0x7E, 0x18, 0x18, 0, 0],
    [0, 0, 0, 0, 0, 0x30, 0x30, 0x60],
    [0, 0, 0, 0x7E, 0, 0, 0, 0],
    [0, 0, 0, 0, 0, 0x18, 0x18, 0],
    [6, 0x0C, 0x18, 0x30, 0x60, 0xC0, 0x80, 0],
    [0x7C, 0xC6, 0xCE, 0xD6, 0xE6, 0xC6, 0x7C, 0],
    [0x18, 0x38, 0x18, 0x18, 0x18, 0x18, 0x7E, 0],
    [0x7C, 0xC6, 6, 0x1C, 0x30, 0x60, 0xFE, 0],
    [0x7C, 0xC6, 6, 0x3C, 6, 0xC6, 0x7C, 0],
    [0x1C, 0x3C, 0x6C, 0xCC, 0xFE, 0x0C, 0x1E, 0],
    [0xFE, 0xC0, 0xFC, 6, 6, 0xC6, 0x7C, 0],
    [0x38, 0x60, 0xC0, 0xFC, 0xC6, 0xC6, 0x7C, 0],
    [0xFE, 0xC6, 6, 0x0C, 0x18, 0x30, 0x30, 0],
    [0x7C, 0xC6, 0xC6, 0x7C, 0xC6, 0xC6, 0x7C, 0],
    [0x7C, 0xC6, 0xC6, 0x7E, 6, 0x0C, 0x78, 0],
    [0, 0x30, 0x30, 0, 0, 0x30, 0x30, 0],
    [0, 0x30, 0x30, 0, 0, 0x30, 0x30, 0x60],
    [0x18, 0x30, 0x60, 0xC0, 0x60, 0x30, 0x18, 0],
    [0, 0, 0x7E, 0, 0x7E, 0, 0, 0],
    [0x60, 0x30, 0x18, 0x0C, 0x18, 0x30, 0x60, 0],
    [0x7C, 0xC6, 6, 0x1C, 0x18, 0, 0x18, 0],
    [0x7C, 0xC6, 0xDE, 0xDE, 0xDC, 0xC0, 0x7C, 0],
    [0x38, 0x6C, 0xC6, 0xFE, 0xC6, 0xC6, 0xC6, 0],
    [0xFC, 0xC6, 0xC6, 0xFC, 0xC6, 0xC6, 0xFC, 0],
    [0x3C, 0x66, 0xC0, 0xC0, 0xC0, 0x66, 0x3C, 0],
    [0xF8, 0xCC, 0xC6, 0xC6, 0xC6, 0xCC, 0xF8, 0],
    [0xFE, 0xC0, 0xC0, 0xFC, 0xC0, 0xC0, 0xFE, 0],
    [0xFE, 0xC0, 0xC0, 0xFC, 0xC0, 0xC0, 0xC0, 0],
    [0x3C, 0x66, 0xC0, 0xCE, 0xC6, 0x66, 0x3E, 0],
    [0xC6, 0xC6, 0xC6, 0xFE, 0xC6, 0xC6, 0xC6, 0],
    [0x7E, 0x18, 0x18, 0x18, 0x18, 0x18, 0x7E, 0],
    [0x0E, 6, 6, 6, 0xC6, 0xC6, 0x7C, 0],
    [0xC6, 0xCC, 0xD8, 0xF0, 0xD8, 0xCC, 0xC6, 0],
    [0xC0, 0xC0, 0xC0, 0xC0, 0xC0, 0xC0, 0xFE, 0],
    [0xC6, 0xEE, 0xFE, 0xD6, 0xC6, 0xC6, 0xC6, 0],
    [0xC6, 0xE6, 0xF6, 0xDE, 0xCE, 0xC6, 0xC6, 0],
    [0x7C, 0xC6, 0xC6, 0xC6, 0xC6, 0xC6, 0x7C, 0],
    [0xFC, 0xC6, 0xC6, 0xFC, 0xC0, 0xC0, 0xC0, 0],
    [0x7C, 0xC6, 0xC6, 0xC6, 0xDA, 0xCC, 0x7A, 0],
    [0xFC, 0xC6, 0xC6, 0xFC, 0xD8, 0xCC, 0xC6, 0],
    [0x7C, 0xC6, 0xC0, 0x7C, 6, 0xC6, 0x7C, 0],
    [0xFE, 0x18, 0x18, 0x18, 0x18, 0x18, 0x18, 0],
    [0xC6, 0xC6, 0xC6, 0xC6, 0xC6, 0xC6, 0x7C, 0],
    [0xC6, 0xC6, 0xC6, 0xC6, 0xC6, 0x6C, 0x38, 0],
    [0xC6, 0xC6, 0xC6, 0xD6, 0xFE, 0xEE, 0xC6, 0],
    [0xC6, 0xC6, 0x6C, 0x38, 0x6C, 0xC6, 0xC6, 0],
    [0xC6, 0xC6, 0xC6, 0x7C, 0x18, 0x18, 0x18, 0],
    [0xFE, 6, 0x0C, 0x18, 0x30, 0x60, 0xFE, 0],
    [0x3C, 0x30, 0x30, 0x30, 0x30, 0x30, 0x3C, 0],
    [0x80, 0xC0, 0x60, 0x30, 0x18, 0x0C, 6, 0],
    [0x3C, 0x0C, 0x0C, 0x0C, 0x0C, 0x0C, 0x3C, 0],
    [0x18, 0x3C, 0x66, 0, 0, 0, 0, 0],
    [0, 0, 0, 0, 0, 0, 0xFF, 0],
    [0x60, 0x60, 0x30, 0, 0, 0, 0, 0],
    [0, 0, 0x7C, 6, 0x7E, 0xC6, 0x7E, 0],
    [0xC0, 0xC0, 0xFC, 0xC6, 0xC6, 0xC6, 0xFC, 0],
    [0, 0, 0x7C, 0xC6, 0xC0, 0xC6, 0x7C, 0],
    [6, 6, 0x7E, 0xC6, 0xC6, 0xC6, 0x7E, 0],
    [0, 0, 0x7C, 0xC6, 0xFE, 0xC0, 0x7C, 0],
    [0x1C, 0x30, 0xFC, 0x30, 0x30, 0x30, 0x30, 0],
    [0, 0, 0x7E, 0xC6, 0xC6, 0x7E, 6, 0x7C],
    [0xC0, 0xC0, 0xFC, 0xC6, 0xC6, 0xC6, 0xC6, 0],
    [0x18, 0, 0x38, 0x18, 0x18, 0x18, 0x3C, 0],
    [6, 0, 6, 6, 6, 0xC6, 0x7C, 0],
    [0xC0, 0xC0, 0xCC, 0xD8, 0xF0, 0xD8, 0xCC, 0],
    [0x38, 0x18, 0x18, 0x18, 0x18, 0x18, 0x3C, 0],
    [0, 0, 0xFC, 0xFE, 0xD6, 0xD6, 0xC6, 0],
    [0, 0, 0xFC, 0xC6, 0xC6, 0xC6, 0xC6, 0],
    [0, 0, 0x7C, 0xC6, 0xC6, 0xC6, 0x7C, 0],
    [0, 0, 0xFC, 0xC6, 0xC6, 0xFC, 0xC0, 0xC0],
    [0, 0, 0x7E, 0xC6, 0xC6, 0x7E, 6, 6],
    [0, 0, 0xDC, 0x66, 0x60, 0x60, 0x60, 0],
    [0, 0, 0x7C, 0xC0, 0x7C, 6, 0x7C, 0],
    [0x30, 0x30, 0xFC, 0x30, 0x30, 0x30, 0x1C, 0],
    [0, 0, 0xC6, 0xC6, 0xC6, 0xC6, 0x7E, 0],
    [0, 0, 0xC6, 0xC6, 0xC6, 0x6C, 0x38, 0],
    [0, 0, 0xC6, 0xC6, 0xD6, 0xFE, 0x6C, 0],
    [0, 0, 0xC6, 0x6C, 0x38, 0x6C, 0xC6, 0],
    [0, 0, 0xC6, 0xC6, 0xC6, 0x7E, 6, 0x7C],
    [0, 0, 0xFE, 0x0C, 0x18, 0x30, 0xFE, 0],
    [0x0E, 0x18, 0x18, 0x70, 0x18, 0x18, 0x0E, 0],
    [0x18, 0x18, 0x18, 0, 0x18, 0x18, 0x18, 0],
    [0x70, 0x18, 0x18, 0x0E, 0x18, 0x18, 0x70, 0],
    [0x76, 0xDC, 0, 0, 0, 0, 0, 0]]"

section \<open>Drawing\<close>

text \<open>\<^verbatim>\<open>ctx->framebuffer[i] = v\<close>\<close>

definition set_pixel :: "u32 \<Rightarrow> u32 \<Rightarrow> term_ctx \<Rightarrow> term_ctx res" where
  "set_pixel i v ctx =
     (if unat i < length (framebuffer ctx) then Inr (ctx\<lparr>framebuffer := (framebuffer ctx)[unat i := v]\<rparr>)
      else Inl OutOfBounds)"

definition term_clear_screen :: "term_ctx \<Rightarrow> term_ctx res" where
  "term_clear_screen ctx =
     res_bind (res_fold (\<lambda>i. set_pixel (of_nat i) COLOR_BG) [0..<unat (screen_width ctx * screen_height ctx)] ctx)
       (\<lambda>ctx. Inr (ctx\<lparr>cursor_x := 0, cursor_y := 0\<rparr>))"

text \<open>
  The four nested loops over \<open>row\<close>, \<open>col\<close>, \<open>dy\<close> and \<open>dx\<close>, as one loop over the quadruples in their
  order.
\<close>

definition draw_pixel :: "u8 list \<Rightarrow> u32 \<Rightarrow> u32 \<Rightarrow> nat \<times> nat \<times> nat \<times> nat \<Rightarrow> term_ctx \<Rightarrow> term_ctx res" where
  "draw_pixel glyph x y = (\<lambda>(row, col, dy, dx) ctx.
     if (glyph ! row AND push_bit (7 - col) 1) \<noteq> 0
     then let px = x + of_nat col * 2 + of_nat dx;
              py = y + of_nat row * 2 + of_nat dy
          in if px < screen_width ctx \<and> py < screen_height ctx
             then set_pixel (py * screen_width ctx + px) COLOR_FG ctx
             else Inr ctx
     else Inr ctx)"

definition term_draw_char :: "u8 \<Rightarrow> u32 \<Rightarrow> u32 \<Rightarrow> term_ctx \<Rightarrow> term_ctx res" where
  "term_draw_char c x y ctx =
     (if c < 32 \<or> c > 126 then Inr ctx
      else res_fold (draw_pixel (font8x8 ! (unat c - 32)) x y)
             (List.product [0..<8] (List.product [0..<8] (List.product [0..<2] [0..<2]))) ctx)"

definition copy_pixel :: "u32 \<Rightarrow> nat \<Rightarrow> term_ctx \<Rightarrow> term_ctx res" where
  "copy_pixel src i ctx =
     (let from = unat src + i
      in if from < length (framebuffer ctx) then set_pixel (of_nat i) (framebuffer ctx ! from) ctx
         else Inl OutOfBounds)"

definition term_scroll :: "term_ctx \<Rightarrow> term_ctx res" where
  "term_scroll ctx =
     (let char_height = 16;
          words_to_move = screen_width ctx * (screen_height ctx - char_height)
      in res_bind (res_fold (copy_pixel (screen_width ctx * char_height)) [0..<unat words_to_move] ctx) (\<lambda>ctx.
         res_bind (res_fold (\<lambda>i. set_pixel (of_nat i) COLOR_BG)
            [unat words_to_move..<unat (screen_width ctx * screen_height ctx)] ctx) (\<lambda>ctx.
         Inr (ctx\<lparr>cursor_y := cursor_y ctx - char_height\<rparr>))))"

definition erase_pixel :: "nat \<times> nat \<Rightarrow> term_ctx \<Rightarrow> term_ctx res" where
  "erase_pixel = (\<lambda>(dy, dx) ctx.
     set_pixel ((cursor_y ctx + of_nat dy) * screen_width ctx + (cursor_x ctx + of_nat dx)) COLOR_BG ctx)"

definition term_putc :: "u8 \<Rightarrow> term_ctx \<Rightarrow> term_ctx res" where
  "term_putc c ctx =
     (let char_width = 16; char_height = 16
      in res_bind
        (if c = 10 then Inr (ctx\<lparr>cursor_x := 0, cursor_y := cursor_y ctx + char_height\<rparr>)
         else if c = 8 then
           (if char_width \<le> cursor_x ctx
            then res_fold erase_pixel (List.product [0..<16] [0..<16]) (ctx\<lparr>cursor_x := cursor_x ctx - char_width\<rparr>)
            else Inr ctx)
         else res_bind (term_draw_char c (cursor_x ctx) (cursor_y ctx) ctx) (\<lambda>ctx.
           let ctx = ctx\<lparr>cursor_x := cursor_x ctx + char_width\<rparr>
           in Inr (if screen_width ctx < cursor_x ctx + char_width
                   then ctx\<lparr>cursor_x := 0, cursor_y := cursor_y ctx + char_height\<rparr> else ctx)))
        (\<lambda>ctx. if screen_height ctx < cursor_y ctx + char_height then term_scroll ctx else Inr ctx))"

text \<open>The string behind the pointer: its bytes up to the NUL.\<close>

definition term_print :: "u8 list \<Rightarrow> term_ctx \<Rightarrow> term_ctx res" where
  "term_print str ctx = res_fold term_putc (cstr str) ctx"

end
