(* ===== verification/Shell.thy ===== *)
theory Shell
  imports Syscall Terminal
begin

text \<open>
  The shell program of \<^verbatim>\<open>modules/shell_gui/main.c\<close>: reading keys from the mailbox into the command
  line, taking a command apart, the requests it sends to the kernel, the loops that wait for the
  replies, and the trade mode. The system calls it makes are the fields of \<open>sys\<close>, over a state \<open>'k\<close>
  that stands for the kernel and the machine below it.
\<close>

section \<open>System calls\<close>

record 'k sys =
  sys_ipc_send :: "os_message \<Rightarrow> 'k \<Rightarrow> 'k res"
  ipc_receive :: "os_message \<Rightarrow> 'k \<Rightarrow> (os_message \<times> 'k) res"
  sys_hw_drain :: "'k \<Rightarrow> 'k res"
  sys_gpu_flush :: "'k \<Rightarrow> 'k res"
  sys_uart_recv :: "'k \<Rightarrow> (u8 \<times> 'k) res"

section \<open>Texts\<close>

definition msg_init :: "u8 list" where "msg_init = lit ''ai-os-desktop terminal subsystem initialized.\<newline>''"
definition msg_fb :: "u8 list" where "msg_fb = lit ''Framebuffer rendering active.\<newline>''"
definition msg_wait :: "u8 list" where "msg_wait = lit ''IPC Mailbox Online. Ready for commands.\<newline>\<newline>''"
definition msg_prompt :: "u8 list" where "msg_prompt = lit ''ai-os / % ''"
definition cmd_help :: "u8 list" where "cmd_help = lit ''help''"
definition cmd_clear :: "u8 list" where "cmd_clear = lit ''clear''"
definition msg_help_1 :: "u8 list" where "msg_help_1 = lit ''Available commands:\<newline>''"
definition msg_help_2 :: "u8 list" where "msg_help_2 = lit ''  help      - Show this message\<newline>''"
definition msg_help_3 :: "u8 list" where "msg_help_3 = lit ''  clear     - Clear the terminal screen\<newline>''"
definition msg_help_4 :: "u8 list" where "msg_help_4 = lit ''  s.list    - List directory contents (alias: s.ls)\<newline>''"
definition msg_help_5 :: "u8 list" where "msg_help_5 = lit ''  s.read    - Print file contents (Usage: s.read <file>)\<newline>''"
definition msg_help_6 :: "u8 list" where "msg_help_6 = lit ''  s.write   - Write file (Usage: s.write <file> <data>)\<newline>''"
definition msg_help_7 :: "u8 list" where "msg_help_7 = lit ''  agent.why - View OS short-term memory logic\<newline>''"
definition msg_help_8 :: "u8 list" where "msg_help_8 = lit ''  atk.run   - Execute Autarky bytecode (.atk)\<newline>''"
definition msg_help_9 :: "u8 list" where "msg_help_9 = lit ''  ledger.sync - Persist VM history to LEDGER.LOG\<newline>''"
definition msg_help_10 :: "u8 list" where "msg_help_10 = lit '' trade.listen - Lock GUI and wait for trade payloads\<newline>''"
definition msg_unknown :: "u8 list" where "msg_unknown = lit ''Unknown command: ''"
definition msg_trade_suspend :: "u8 list" where "msg_trade_suspend = lit ''\<newline>[SYSTEM] Suspending UI Thread...\<newline>''"
definition msg_trade_mode :: "u8 list" where "msg_trade_mode = lit ''[SYSTEM] Entering High-Frequency Exchange Mode.\<newline>''"
definition msg_trade_locked :: "u8 list" where "msg_trade_locked = lit ''[SYSTEM] Locked onto Gateway. Awaiting payloads...\<newline>\<newline>''"
definition msg_trade_capture :: "u8 list" where "msg_trade_capture = lit ''[GATEWAY] SECURE TRADE CAPTURED: ''"
definition msg_newline :: "u8 list" where "msg_newline = lit ''\<newline>''"
definition msg_usage_atk :: "u8 list" where "msg_usage_atk = lit ''Usage: atk.run <filename>\<newline>''"
definition msg_unk_ledger :: "u8 list" where "msg_unk_ledger = lit ''Unknown ledger verb.\<newline>''"
definition msg_unk_trade :: "u8 list" where "msg_unk_trade = lit ''Unknown trade verb.\<newline>''"
definition msg_trade_commit :: "u8 list" where "msg_trade_commit = lit ''[SYSTEM] Payload committed to TRADES.LOG on disk.\<newline>\<newline>''"
definition file_trades :: "u8 list" where "file_trades = lit ''TRADES.LOG''"
definition ns_storage :: "u8 list" where "ns_storage = lit ''storage''"
definition ns_s :: "u8 list" where "ns_s = lit ''s''"
definition ns_agent :: "u8 list" where "ns_agent = lit ''agent''"
definition ns_atk :: "u8 list" where "ns_atk = lit ''atk''"
definition ns_ledger :: "u8 list" where "ns_ledger = lit ''ledger''"
definition ns_trade :: "u8 list" where "ns_trade = lit ''trade''"
definition verb_list :: "u8 list" where "verb_list = lit ''list''"
definition verb_ls :: "u8 list" where "verb_ls = lit ''ls''"
definition verb_read :: "u8 list" where "verb_read = lit ''read''"
definition verb_write :: "u8 list" where "verb_write = lit ''write''"
definition verb_why :: "u8 list" where "verb_why = lit ''why''"
definition verb_run :: "u8 list" where "verb_run = lit ''run''"
definition verb_sync :: "u8 list" where "verb_sync = lit ''sync''"
definition verb_listen :: "u8 list" where "verb_listen = lit ''listen''"
definition err_usage_write :: "u8 list" where "err_usage_write = lit ''Usage: s.write <filename> <data>\<newline>''"
definition err_unk_verb :: "u8 list" where "err_unk_verb = lit ''Unknown storage verb.\<newline>''"
definition err_unk_ns :: "u8 list" where "err_unk_ns = lit ''Unknown namespace.\<newline>''"
definition err_unk_agent_verb :: "u8 list" where "err_unk_agent_verb = lit ''Unknown agent verb.\<newline>''"

section \<open>Strings\<close>

text \<open>C strings by their characters before the NUL.\<close>

fun shell_strcmp :: "u8 list \<Rightarrow> u8 list \<Rightarrow> int" where
  "shell_strcmp [] [] = 0"
| "shell_strcmp [] (d # t) = - uint d"
| "shell_strcmp (c # s) [] = uint c"
| "shell_strcmp (c # s) (d # t) = (if c = d then shell_strcmp s t else uint c - uint d)"

text \<open>The string from the first \<open>c\<close> on.\<close>

fun shell_strchr :: "u8 list \<Rightarrow> u8 \<Rightarrow> u8 list option" where
  "shell_strchr [] c = None"
| "shell_strchr (d # s) c = (if d = c then Some (d # s) else shell_strchr s c)"

section \<open>Requests\<close>

definition plain_request :: "stale \<Rightarrow> u16 \<Rightarrow> os_message" where
  "plain_request stale t = \<lparr>sender_id = SYS_MOD_GUI_SHELL, target_id = SYS_MOD_KERNEL, msg_type = t, msg_length = 0, payload = local_array stale 256\<rparr>"

definition name_request :: "stale \<Rightarrow> u16 \<Rightarrow> u8 list \<Rightarrow> os_message" where
  "name_request stale t args =
     (let name = take 255 args
      in \<lparr>sender_id = SYS_MOD_GUI_SHELL, target_id = SYS_MOD_KERNEL, msg_type = t, msg_length = of_nat (length name) + 1,
          payload = overwrite (local_array stale 256) 0 (name @ [0])\<rparr>)"

definition write_request :: "stale \<Rightarrow> u8 list \<Rightarrow> u8 list \<Rightarrow> os_message res" where
  "write_request stale filename data =
     (let name = take 255 filename;
          stored = take (254 - (length name + 1)) data;
          i = length name + 1 + length stored
      in if 256 \<le> i then Inl OutOfBounds
         else Inr \<lparr>sender_id = SYS_MOD_GUI_SHELL, target_id = SYS_MOD_KERNEL, msg_type = IPC_MSG_FS_WRITE_REQ, msg_length = of_nat i,
           payload = overwrite (local_array stale 256) 0 (name @ [0] @ stored @ [0])\<rparr>)"

definition trade_request :: "stale \<Rightarrow> u8 list \<Rightarrow> os_message" where
  "trade_request stale trade =
     (let p_idx = length file_trades + 1;
          stored = take (253 - p_idx) trade
      in \<lparr>sender_id = SYS_MOD_GUI_SHELL, target_id = SYS_MOD_KERNEL, msg_type = IPC_MSG_FS_WRITE_REQ, msg_length = of_nat (p_idx + length stored + 1),
          payload = overwrite (local_array stale 256) 0 (file_trades @ [0] @ stored @ [10] @ [0])\<rparr>)"

text \<open>
  \<^verbatim>\<open>while (waiting)\<close>: every message that is not the awaited reply is dropped. Each turn is one system
  call; running out of turns means that the reply never comes.
\<close>

fun wait_reply :: "'k sys \<Rightarrow> os_message \<Rightarrow> u16 \<Rightarrow> nat \<Rightarrow> 'k \<Rightarrow> (os_message \<times> 'k) res" where
  "wait_reply sys resp t 0 k = Inl Spin"
| "wait_reply sys resp t (Suc fuel) k =
     res_bind (ipc_receive sys resp k) (\<lambda>(resp, k).
       if msg_type resp = t then Inr (resp, k) else wait_reply sys resp t fuel k)"

definition local_message :: "stale \<Rightarrow> os_message" where
  "local_message stale = \<lparr>sender_id = stale 0, target_id = stale 1, msg_type = ucast (stale 2), msg_length = ucast (stale 4),
     payload = local_array stale 256\<rparr>"

definition exchange :: "'k sys \<Rightarrow> stale \<Rightarrow> nat \<Rightarrow> os_message \<Rightarrow> u16 \<Rightarrow> 'k \<Rightarrow> (os_message \<times> 'k) res" where
  "exchange sys stale fuel req t k =
     res_bind (sys_ipc_send sys req k) (wait_reply sys (local_message stale) t fuel)"

definition show_reply :: "os_message \<Rightarrow> term_ctx \<Rightarrow> term_ctx res" where
  "show_reply resp ctx = (if terminated (payload resp) then term_print (payload resp) ctx else Inl OutOfBounds)"

text \<open>A request, its reply on the screen, what is printed after it, and the drain.\<close>

definition ask_and_show :: "'k sys \<Rightarrow> stale \<Rightarrow> nat \<Rightarrow> os_message \<Rightarrow> u16 \<Rightarrow> u8 list \<Rightarrow> term_ctx \<Rightarrow> 'k \<Rightarrow> (term_ctx \<times> 'k) res" where
  "ask_and_show sys stale fuel req t after ctx k =
     res_bind (exchange sys stale fuel req t k) (\<lambda>(resp, k).
     res_bind (show_reply resp ctx) (\<lambda>ctx.
     res_bind (res_fold term_putc after ctx) (\<lambda>ctx.
     res_bind (sys_hw_drain sys k) (\<lambda>k. Inr (ctx, k)))))"

definition say :: "u8 list \<Rightarrow> term_ctx \<Rightarrow> 'k \<Rightarrow> (term_ctx \<times> 'k) res" where
  "say s ctx k = res_bind (term_print s ctx) (\<lambda>ctx. Inr (ctx, k))"

section \<open>Trade mode\<close>

text \<open>
  \<^verbatim>\<open>while (index < 255)\<close>: a line from the UART; \<open>line\<close> is \<^verbatim>\<open>trade_payload\<close> up to \<open>index\<close>. After more
  than 5,000,000 empty polls in a row the line starts over.
\<close>

fun read_trade :: "'k sys \<Rightarrow> nat \<Rightarrow> u8 list \<Rightarrow> u32 \<Rightarrow> 'k \<Rightarrow> (u8 list \<times> 'k) res" where
  "read_trade sys 0 line timeout k = Inl Spin"
| "read_trade sys (Suc fuel) line timeout k =
     (if 255 \<le> length line then Inr (line, k)
      else res_bind (sys_uart_recv sys k) (\<lambda>(c, k).
        if c = 0 then
          (if timeout + 1 > 5000000 then read_trade sys fuel [] 0 k
           else read_trade sys fuel line (timeout + 1) k)
        else if c = 10 \<or> c = 13 then Inr (line, k)
        else read_trade sys fuel (line @ [c]) 0 k))"

definition flush_every_100 :: "'k sys \<Rightarrow> u32 \<Rightarrow> 'k \<Rightarrow> 'k res" where
  "flush_every_100 sys n k = (if n mod 100 = 0 then sys_gpu_flush sys k else Inr k)"

text \<open>One turn of the endless loop: a captured line goes to the disk, any other is dropped.\<close>

definition trade_round :: "'k sys \<Rightarrow> stale \<Rightarrow> nat \<Rightarrow> u32 \<times> term_ctx \<times> 'k \<Rightarrow> (u32 \<times> term_ctx \<times> 'k) res" where
  "trade_round sys stale fuel = (\<lambda>(trade_count, ctx, k).
     res_bind (read_trade sys fuel [] 0 k) (\<lambda>(trade_payload, k).
     if trade_payload \<noteq> [] \<and> hd trade_payload = of_char (CHR ''{'') then
       let trade_count = trade_count + 1
       in res_bind (term_print msg_trade_capture ctx) (\<lambda>ctx.
          res_bind (term_print trade_payload ctx) (\<lambda>ctx.
          res_bind (term_print msg_newline ctx) (\<lambda>ctx.
          res_bind (flush_every_100 sys trade_count k) (\<lambda>k.
          res_bind (exchange sys stale fuel (trade_request stale trade_payload) IPC_MSG_FS_WRITE_RESP k) (\<lambda>(resp, k).
          res_bind (term_print msg_trade_commit ctx) (\<lambda>ctx.
          res_bind (flush_every_100 sys trade_count k) (\<lambda>k.
          Inr (trade_count, ctx, k))))))))
     else Inr (trade_count, ctx, k)))"

fun trade_rounds :: "'k sys \<Rightarrow> stale \<Rightarrow> nat \<Rightarrow> nat \<Rightarrow> u32 \<times> term_ctx \<times> 'k \<Rightarrow> (u32 \<times> term_ctx \<times> 'k) res" where
  "trade_rounds sys stale fuel 0 s = Inr s"
| "trade_rounds sys stale fuel (Suc n) s = res_bind (trade_round sys stale fuel s) (trade_rounds sys stale fuel n)"

text \<open>\<^verbatim>\<open>trade.listen\<close> never comes back: after any number of turns the loop goes on.\<close>

definition trade_listen :: "'k sys \<Rightarrow> stale \<Rightarrow> nat \<Rightarrow> term_ctx \<Rightarrow> 'k \<Rightarrow> (term_ctx \<times> 'k) res" where
  "trade_listen sys stale fuel ctx k =
     res_bind (term_print msg_trade_suspend ctx) (\<lambda>ctx.
     res_bind (term_print msg_trade_mode ctx) (\<lambda>ctx.
     res_bind (term_print msg_trade_locked ctx) (\<lambda>ctx.
     res_bind (sys_gpu_flush sys k) (\<lambda>k.
     res_bind (trade_rounds sys stale fuel fuel (0, ctx, k)) (\<lambda>_. Inl Spin)))))"

section \<open>Commands\<close>

definition storage_command :: "'k sys \<Rightarrow> stale \<Rightarrow> nat \<Rightarrow> u8 list \<Rightarrow> u8 list option \<Rightarrow> term_ctx \<Rightarrow> 'k \<Rightarrow> (term_ctx \<times> 'k) res" where
  "storage_command sys stale fuel verb args ctx k =
     (if shell_strcmp verb verb_list = 0 \<or> shell_strcmp verb verb_ls = 0
      then ask_and_show sys stale fuel (plain_request stale IPC_MSG_FS_LIST_REQ) IPC_MSG_FS_LIST_RESP [] ctx k
      else if shell_strcmp verb verb_read = 0 \<and> args \<noteq> None
      then ask_and_show sys stale fuel (name_request stale IPC_MSG_FS_READ_REQ (the args)) IPC_MSG_FS_READ_RESP [10] ctx k
      else if shell_strcmp verb verb_write = 0 \<and> args \<noteq> None
      then (case shell_strchr (the args) 32 of
              None \<Rightarrow> say err_usage_write ctx k
            | Some data \<Rightarrow>
                let filename = takeWhile (\<lambda>c. c \<noteq> 32) (the args)
                in res_bind (write_request stale filename (tl data)) (\<lambda>req.
                   ask_and_show sys stale fuel req IPC_MSG_FS_WRITE_RESP [] ctx k))
      else say err_unk_verb ctx k)"

definition plain_command :: "u8 list \<Rightarrow> term_ctx \<Rightarrow> 'k \<Rightarrow> (term_ctx \<times> 'k) res" where
  "plain_command line ctx k =
     (if shell_strcmp line cmd_clear = 0
      then res_bind (term_clear_screen ctx) (\<lambda>ctx. Inr (ctx, k))
      else if shell_strcmp line cmd_help = 0
      then say (concat [msg_help_1, msg_help_2, msg_help_3, msg_help_4, msg_help_5, msg_help_6, msg_help_7,
             msg_help_8, msg_help_9, msg_help_10]) ctx k
      else res_bind (say msg_unknown ctx k) (\<lambda>(ctx, k).
           res_bind (say line ctx k) (\<lambda>(ctx, k).
           res_bind (term_putc 10 ctx) (\<lambda>ctx. Inr (ctx, k)))))"

definition run_command :: "'k sys \<Rightarrow> stale \<Rightarrow> nat \<Rightarrow> u8 list \<Rightarrow> term_ctx \<Rightarrow> 'k \<Rightarrow> (term_ctx \<times> 'k) res" where
  "run_command sys stale fuel line ctx k =
     (case shell_strchr line (of_char (CHR ''.'')) of
        Some dot \<Rightarrow>
          let ns = takeWhile (\<lambda>c. c \<noteq> of_char (CHR ''.'')) line;
              verb = takeWhile (\<lambda>c. c \<noteq> 32) (tl dot);
              args = (case shell_strchr (tl dot) 32 of None \<Rightarrow> None | Some a \<Rightarrow> Some (tl a))
          in if shell_strcmp ns ns_storage = 0 \<or> shell_strcmp ns ns_s = 0
             then storage_command sys stale fuel verb args ctx k
             else if shell_strcmp ns ns_agent = 0
             then if shell_strcmp verb verb_why = 0
                  then ask_and_show sys stale fuel (plain_request stale IPC_MSG_WATCHER_DUMP_REQ) IPC_MSG_WATCHER_DUMP_RESP [] ctx k
                  else say err_unk_agent_verb ctx k
             else if shell_strcmp ns ns_atk = 0
             then if shell_strcmp verb verb_run = 0 \<and> args \<noteq> None
                  then ask_and_show sys stale fuel (name_request stale IPC_MSG_ATK_EXEC_REQ (the args)) IPC_MSG_ATK_EXEC_RESP [10] ctx k
                  else say msg_usage_atk ctx k
             else if shell_strcmp ns ns_ledger = 0
             then if shell_strcmp verb verb_sync = 0
                  then ask_and_show sys stale fuel (plain_request stale IPC_MSG_WATCHER_SYNC_REQ) IPC_MSG_WATCHER_SYNC_RESP [] ctx k
                  else say msg_unk_ledger ctx k
             else if shell_strcmp ns ns_trade = 0
             then if shell_strcmp verb verb_listen = 0 then trade_listen sys stale fuel ctx k
                  else say msg_unk_trade ctx k
             else say err_unk_ns ctx k
      | None \<Rightarrow>
          plain_command line ctx k)"

section \<open>The main loop\<close>

text \<open>
  The local state of \<^verbatim>\<open>shell_main\<close>. The NULs that a command puts into \<^verbatim>\<open>cmd_buffer\<close> are not kept: the
  next command overwrites every byte before it is read.
\<close>

record shell =
  ctx :: term_ctx
  cmd_buffer :: "u8 list"
  cmd_idx :: u32

text \<open>\<open>fb\<close> is the memory at \<^verbatim>\<open>0x20000000\<close>, the framebuffer of the display.\<close>

definition shell_boot :: "'k sys \<Rightarrow> stale \<Rightarrow> u32 list \<Rightarrow> 'k \<Rightarrow> (shell \<times> 'k) res" where
  "shell_boot sys stale fb k =
     (let c = \<lparr>framebuffer = fb, screen_width = 1280, screen_height = 800, cursor_x = 0, cursor_y = 0\<rparr>
      in res_bind (term_clear_screen c) (\<lambda>c.
         res_bind (term_print msg_init c) (\<lambda>c.
         res_bind (term_print msg_fb c) (\<lambda>c.
         res_bind (term_print msg_wait c) (\<lambda>c.
         res_bind (term_print msg_prompt c) (\<lambda>c.
         res_bind (sys_gpu_flush sys k) (\<lambda>k.
         Inr (\<lparr>ctx = c, cmd_buffer = local_array stale 256, cmd_idx = 0\<rparr>, k))))))))"

definition enter_key :: "'k sys \<Rightarrow> stale \<Rightarrow> nat \<Rightarrow> shell \<Rightarrow> 'k \<Rightarrow> (shell \<times> 'k) res" where
  "enter_key sys stale fuel s k =
     res_bind (term_putc 10 (ctx s)) (\<lambda>c.
     res_bind (sys_gpu_flush sys k) (\<lambda>k.
     if length (cmd_buffer s) \<le> unat (cmd_idx s) then Inl OutOfBounds
     else let s = s\<lparr>cmd_buffer := (cmd_buffer s)[unat (cmd_idx s) := 0]\<rparr>
          in res_bind (if cmd_idx s > 0 then run_command sys stale fuel (cstr (cmd_buffer s)) c k else Inr (c, k)) (\<lambda>(c, k).
             res_bind (term_print msg_prompt c) (\<lambda>c. Inr (s\<lparr>ctx := c, cmd_idx := 0\<rparr>, k)))))"

definition key_pressed :: "'k sys \<Rightarrow> stale \<Rightarrow> nat \<Rightarrow> u8 \<Rightarrow> shell \<Rightarrow> 'k \<Rightarrow> (shell \<times> 'k) res" where
  "key_pressed sys stale fuel c s k =
     res_bind
       (if c = 10 \<or> c = 13 then enter_key sys stale fuel s k
        else if c = 8 then
          (if cmd_idx s > 0
           then let s = s\<lparr>cmd_idx := cmd_idx s - 1\<rparr>
                in res_bind (term_putc c (ctx s)) (\<lambda>t. Inr (s\<lparr>ctx := t\<rparr>, k))
           else Inr (s, k))
        else if cmd_idx s < 256 - 1
          then if length (cmd_buffer s) \<le> unat (cmd_idx s) then Inl OutOfBounds
               else let s = s\<lparr>cmd_buffer := (cmd_buffer s)[unat (cmd_idx s) := c], cmd_idx := cmd_idx s + 1\<rparr>
                    in res_bind (term_putc c (ctx s)) (\<lambda>t. Inr (s\<lparr>ctx := t\<rparr>, k))
        else Inr (s, k))
       (\<lambda>(s, k). res_bind (sys_gpu_flush sys k) (\<lambda>k. Inr (s, k)))"

definition shell_step :: "'k sys \<Rightarrow> stale \<Rightarrow> nat \<Rightarrow> shell \<times> 'k \<Rightarrow> (shell \<times> 'k) res" where
  "shell_step sys stale fuel = (\<lambda>(s, k).
     res_bind (sys_hw_drain sys k) (\<lambda>k.
     res_bind (ipc_receive sys (local_message stale) k) (\<lambda>(msg, k).
     if msg_type msg = IPC_MSG_KEY_PRESS \<and> msg_length msg > 0 then
       (case payload msg of [] \<Rightarrow> Inl OutOfBounds | c # _ \<Rightarrow> key_pressed sys stale fuel c s k)
     else Inr (s, k))))"

text \<open>\<^verbatim>\<open>while (1)\<close>: \<open>n\<close> turns of the main loop.\<close>

fun shell_steps :: "'k sys \<Rightarrow> stale \<Rightarrow> nat \<Rightarrow> nat \<Rightarrow> shell \<times> 'k \<Rightarrow> (shell \<times> 'k) res" where
  "shell_steps sys stale fuel 0 x = Inr x"
| "shell_steps sys stale fuel (Suc n) x = res_bind (shell_step sys stale fuel x) (shell_steps sys stale fuel n)"

definition shell_main :: "'k sys \<Rightarrow> stale \<Rightarrow> nat \<Rightarrow> nat \<Rightarrow> u32 list \<Rightarrow> 'k \<Rightarrow> (shell \<times> 'k) res" where
  "shell_main sys stale fuel n fb k = res_bind (shell_boot sys stale fb k) (shell_steps sys stale fuel n)"

section \<open>On the kernel\<close>

text \<open>The system calls of the shell, answered by the kernel's handler.\<close>

definition kernel_sys :: "stale \<Rightarrow> 'd io \<Rightarrow> 'd vm \<Rightarrow> nat \<Rightarrow> (kernel \<times> 'd) sys" where
  "kernel_sys stale io vm fuel =
     (let call = (\<lambda>num msg (k, d). syscall_handler stale io vm fuel num msg k d)
      in \<lparr>sys_ipc_send = (\<lambda>msg kd. res_bind (call SYS_IPC_SEND msg kd) (\<lambda>(_, _, kd). Inr kd)),
          ipc_receive = (\<lambda>msg kd. res_bind (call SYS_IPC_RECV msg kd) (\<lambda>(_, m, kd). Inr (m, kd))),
          sys_hw_drain = (\<lambda>kd. res_bind (call SYS_HW_DRAIN (local_message stale) kd) (\<lambda>(_, _, kd). Inr kd)),
          sys_gpu_flush = (\<lambda>kd. res_bind (call SYS_GPU_FLUSH (local_message stale) kd) (\<lambda>(_, _, kd). Inr kd)),
          sys_uart_recv = (\<lambda>kd. res_bind (call SYS_UART_RECV (local_message stale) kd) (\<lambda>(x0, _, kd).
             Inr (case x0 of None \<Rightarrow> 0 | Some c \<Rightarrow> ucast c, kd)))\<rparr>)"

end
