(* ===== verification/Fat32_Lemmas.thy ===== *)
theory Fat32_Lemmas
  imports Fat32
begin

text \<open>
  Facts about the pure parts of the file system: the name format, the directory and FAT searches,
  the fields of a stored entry, the sector numbers of a sane geometry and the chain walk.
\<close>

section \<open>Names\<close>

lemma to_upper_nonzero: "c \<noteq> 0 \<Longrightarrow> to_upper c \<noteq> 0"
  by (auto simp: to_upper_def)

lemma length_format_fat_name [simp]: "length (format_fat_name s) = 11"
proof -
  have "length (overwrite (replicate 11 (32 :: u8)) 0 (map to_upper (take 8 t))) = 11" for t
    by (subst length_overwrite) auto
  then show ?thesis
    by (auto simp: format_fat_name_def Let_def length_overwrite split: list.split)
qed

lemma set_overwrite: "set (overwrite b i s) \<subseteq> set b \<union> set s"
  by (auto simp: overwrite_def dest: in_set_takeD in_set_dropD)

lemma map_upper_nonzero: "0 \<notin> set t \<Longrightarrow> 0 \<notin> set (map to_upper t)"
  by (auto dest: to_upper_nonzero simp: image_iff) (metis to_upper_nonzero)

lemma overwrite_nonzero: "0 \<notin> set b \<Longrightarrow> 0 \<notin> set s \<Longrightarrow> 0 \<notin> set (overwrite b i s)"
  using set_overwrite by fastforce

lemma format_fat_name_nonzero: "0 \<notin> set (format_fat_name s)"
proof -
  let ?P = "\<lambda>c. c \<noteq> (of_char (CHR ''.'') :: u8)"
  have "0 \<notin> set (take 8 (takeWhile ?P (cstr s)))"
    using cstr_no_nul [of s] by (metis in_set_takeD set_takeWhileD)
  then have base: "0 \<notin> set (overwrite (replicate 11 (32 :: u8)) 0 (map to_upper (take 8 (takeWhile ?P (cstr s)))))"
    by (intro overwrite_nonzero map_upper_nonzero) auto
  show ?thesis
  proof (cases "dropWhile ?P (cstr s)")
    case Nil
    then show ?thesis using base by (simp only: format_fat_name_def Let_def list.case simp_thms)
  next
    case (Cons x r)
    then have "set r \<subseteq> set (cstr s)" by (metis list.set_intros(2) set_dropWhileD subsetI)
    then have "0 \<notin> set (take 3 r)" using cstr_no_nul [of s] by (meson in_set_takeD subsetD)
    then show ?thesis
      using base by (simp only: format_fat_name_def Let_def list.case Cons overwrite_nonzero map_upper_nonzero simp_thms)
  qed
qed

section \<open>Directory entries\<close>

lemma length_new_entry [simp]: "length name = 11 \<Longrightarrow> length (new_entry name c n) = 32"
  by (simp add: new_entry_def)

lemma dir_name0_name: "length b = 512 \<Longrightarrow> i < 16 \<Longrightarrow> dir_name0 b i = dir_name b i ! 0"
  by (simp add: dir_name0_def dir_name_def)

lemma slot_bounds: "i < 16 \<Longrightarrow> length b = 512 \<Longrightarrow> 32 * i + 32 \<le> length b"
  by simp

text \<open>The entry just stored, field by field.\<close>

lemma dir_name_stored:
  "length b = 512 \<Longrightarrow> i < 16 \<Longrightarrow> length name = 11
    \<Longrightarrow> dir_name (overwrite b (32 * i) (new_entry name c n)) i = name"
  by (simp add: dir_name_def overwrite_def new_entry_def)

lemma stored_nth:
  "length b = 512 \<Longrightarrow> i < 16 \<Longrightarrow> length name = 11 \<Longrightarrow> k < 32
    \<Longrightarrow> overwrite b (32 * i) (new_entry name c n) ! (32 * i + k) = new_entry name c n ! k"
  by (simp add: nth_overwrite)

lemma get16_stored:
  assumes "length b = 512" "i < 16" "length name = 11" "k + 2 \<le> 32"
  shows "get16 (overwrite b (32 * i) (new_entry name c n)) (32 * i + k) = get16 (new_entry name c n) k"
proof -
  have "overwrite b (32 * i) (new_entry name c n) ! (32 * i + j) = new_entry name c n ! j" if "j < 32" for j
    using stored_nth assms that by blast
  from this [of k] this [of "k + 1"] show ?thesis
    using assms(4) by (simp add: get16_def add.assoc)
qed

lemma get32_stored:
  assumes "length b = 512" "i < 16" "length name = 11" "k + 4 \<le> 32"
  shows "get32 (overwrite b (32 * i) (new_entry name c n)) (32 * i + k) = get32 (new_entry name c n) k"
proof -
  have "overwrite b (32 * i) (new_entry name c n) ! (32 * i + j) = new_entry name c n ! j" if "j < 32" for j
    using stored_nth assms that by blast
  from this [of k] this [of "k + 1"] this [of "k + 2"] this [of "k + 3"] show ?thesis
    using assms(4) by (simp add: get32_def add.assoc)
qed

lemma get16_bytes16_at:
  "length p = k \<Longrightarrow> get16 (p @ bytes16 v @ r) k = v"
  using get16_put16 [of k "p @ bytes16 v @ r" v] by (simp add: put16_def overwrite_def)

lemma get32_bytes32_at:
  "length p = k \<Longrightarrow> get32 (p @ bytes32 v @ r) k = v"
  using get32_put32 [of k "p @ bytes32 v @ r" v] by (simp add: put32_def overwrite_def)

lemma new_entry_fields:
  assumes "length name = 11"
  shows "get16 (new_entry name c n) 20 = ucast (drop_bit 16 c)"
    "get16 (new_entry name c n) 26 = ucast (c AND 0xFFFF)"
    "get32 (new_entry name c n) 28 = n"
proof -
  let ?p = "name @ [0x20, 0, 0] @ bytes16 0 @ bytes16 0 @ bytes16 0"
  let ?hi = "bytes16 (ucast (drop_bit 16 c))" and ?lo = "bytes16 (ucast (c AND 0xFFFF))"
  show "get16 (new_entry name c n) 20 = ucast (drop_bit 16 c)"
    using get16_bytes16_at [of ?p 20 "ucast (drop_bit 16 c)" "bytes16 0 @ bytes16 0 @ ?lo @ bytes32 n"] assms
    by (simp add: new_entry_def)
  show "get16 (new_entry name c n) 26 = ucast (c AND 0xFFFF)"
    using get16_bytes16_at [of "?p @ ?hi @ bytes16 0 @ bytes16 0" 26 "ucast (c AND 0xFFFF)" "bytes32 n"] assms
    by (simp add: new_entry_def)
  show "get32 (new_entry name c n) 28 = n"
    using get32_bytes32_at [of "?p @ ?hi @ bytes16 0 @ bytes16 0 @ ?lo" 28 n "[]"] assms
    by (simp add: new_entry_def)
qed

lemma cluster_halves:
  "push_bit 16 (ucast (ucast (drop_bit 16 c) :: u16)) OR ucast (ucast (c AND 0xFFFF) :: u16) = (c :: u32)"
proof -
  have m: "(0xFFFF :: u32) = mask 16" by (simp add: mask_eq_exp_minus_1)
  show ?thesis
    unfolding m
  proof (rule bit_word_eqI)
    fix k assume "k < LENGTH(32)"
    then show "bit (push_bit 16 (ucast (ucast (drop_bit 16 c) :: u16)) OR ucast (ucast (c AND mask 16) :: u16) :: u32) k
        \<longleftrightarrow> bit c k"
      by (cases "k < 16") (auto simp: bit_simps)
  qed
qed

lemma stored_entry_fields:
  assumes "length b = 512" "i < 16" "length name = 11"
  shows "dir_cluster (overwrite b (32 * i) (new_entry name c n)) i = c"
    "dir_file_size (overwrite b (32 * i) (new_entry name c n)) i = n"
  using assms
  by (simp_all add: dir_cluster_def dir_file_size_def get16_stored get32_stored new_entry_fields cluster_halves)

text \<open>The other entries of the sector are as they were.\<close>

lemma other_entry_drop:
  assumes "length b = 512" "i < 16" "j < 16" "j \<noteq> i" "length e = 32" "k < 32"
  shows "overwrite b (32 * i) e ! (32 * j + k) = b ! (32 * j + k)"
proof -
  have "32 * j + k < 32 * i \<or> 32 * i + 32 \<le> 32 * j + k" using assms(4,6) by (cases "j < i") auto
  moreover have "32 * j + k < 512" using assms(3,6) by linarith
  ultimately show ?thesis using assms by (auto simp: nth_overwrite)
qed

lemma other_entry_fields:
  assumes "length b = 512" "i < 16" "j < 16" "j \<noteq> i" "length e = 32"
  shows "dir_name (overwrite b (32 * i) e) j = dir_name b j"
    "dir_name0 (overwrite b (32 * i) e) j = dir_name0 b j"
    "dir_attr (overwrite b (32 * i) e) j = dir_attr b j"
    "dir_cluster (overwrite b (32 * i) e) j = dir_cluster b j"
    "dir_file_size (overwrite b (32 * i) e) j = dir_file_size b j"
proof -
  note nth = other_entry_drop [OF assms]
  have len: "length (overwrite b (32 * i) e) = 512" using assms by simp
  show "dir_name (overwrite b (32 * i) e) j = dir_name b j"
    unfolding dir_name_def using nth len assms(1,3)
    by (intro nth_equalityI) auto
  show "dir_name0 (overwrite b (32 * i) e) j = dir_name0 b j"
    using nth [of 0] by (simp add: dir_name0_def)
  show "dir_attr (overwrite b (32 * i) e) j = dir_attr b j"
    using nth [of 11] by (simp add: dir_attr_def)
  have apart: "32 * j + 32 \<le> 32 * i \<or> 32 * i + length e \<le> 32 * j"
    using assms(4,5) by (cases "j < i") auto
  show "dir_cluster (overwrite b (32 * i) e) j = dir_cluster b j"
    unfolding dir_cluster_def using apart assms by (subst (1 2) get16_overwrite_other) auto
  show "dir_file_size (overwrite b (32 * i) e) j = dir_file_size b j"
    unfolding dir_file_size_def using apart assms by (intro get32_overwrite_other) auto
qed

section \<open>Searches\<close>

lemma find_entry_upt:
  assumes "i < 16" "\<forall>k < i. dir_name0 b k \<noteq> 0 \<and> dir_name b k \<noteq> t" "dir_name0 b i \<noteq> 0" "dir_name b i = t"
  shows "find_entry b t [0..<16] = Some i"
proof -
  have skip: "find_entry b t (xs @ ys) = find_entry b t ys"
    if "\<forall>k \<in> set xs. dir_name0 b k \<noteq> 0 \<and> dir_name b k \<noteq> t" for xs ys
    using that by (induction xs) auto
  have "[0..<16] = [0..<i] @ i # [Suc i..<16]"
    using assms(1) by (metis less_imp_le_nat upt_add_eq_append upt_conv_Cons le_add_diff_inverse zero_le)
  then show ?thesis using skip [of "[0..<i]"] assms(2-4) by simp
qed

lemma find_entry_Some:
  "find_entry b t is = Some i \<Longrightarrow> i \<in> set is \<and> dir_name b i = t \<and> dir_name0 b i \<noteq> 0"
  by (induction "is") (auto split: if_splits)

lemma upt_splitD: "[0..<n] = xs @ k # ys \<Longrightarrow> k < n \<and> xs = [0..<k]"
proof -
  assume split: "[0..<n] = xs @ k # ys"
  have len: "n = length xs + Suc (length ys)"
    using arg_cong [OF split, of length] by simp
  have nth: "(xs @ k # ys) ! m = m" if "m < n" for m
    using that by (simp flip: split)
  have k: "k = length xs" using nth [of "length xs"] len by simp
  have "xs ! m = m" if "m < length xs" for m
    using nth [of m] that len by (simp add: nth_append)
  then show ?thesis using k len by (auto intro: nth_equalityI)
qed

lemma find_free_slot_split:
  "find_free_slot b is = Some i \<Longrightarrow> \<exists>xs ys. is = xs @ i # ys \<and> (dir_name0 b i = 0 \<or> dir_name0 b i = 0xE5)
    \<and> (\<forall>k \<in> set xs. dir_name0 b k \<noteq> 0 \<and> dir_name0 b k \<noteq> 0xE5)"
proof (induction "is")
  case (Cons j js)
  show ?case
  proof (cases "dir_name0 b j = 0 \<or> dir_name0 b j = 0xE5")
    case True
    with Cons.prems show ?thesis by (intro exI [of _ "[]"] exI [of _ js]) (auto split: if_splits)
  next
    case False
    with Cons obtain xs ys where "js = xs @ i # ys" "dir_name0 b i = 0 \<or> dir_name0 b i = 0xE5"
      "\<forall>k \<in> set xs. dir_name0 b k \<noteq> 0 \<and> dir_name0 b k \<noteq> 0xE5"
      by auto
    with False show ?thesis by (intro exI [of _ "j # xs"] exI [of _ ys]) auto
  qed
qed simp

lemma find_free_slot_SomeD:
  assumes "find_free_slot b [0..<n] = Some i"
  shows "i < n" "dir_name0 b i = 0 \<or> dir_name0 b i = 0xE5"
    "\<forall>k < i. dir_name0 b k \<noteq> 0 \<and> dir_name0 b k \<noteq> 0xE5"
proof -
  obtain xs ys where split: "[0..<n] = xs @ i # ys" "dir_name0 b i = 0 \<or> dir_name0 b i = 0xE5"
    "\<forall>k \<in> set xs. dir_name0 b k \<noteq> 0 \<and> dir_name0 b k \<noteq> 0xE5"
    using find_free_slot_split [OF assms] by blast
  with upt_splitD [OF split(1)] show "i < n" "dir_name0 b i = 0 \<or> dir_name0 b i = 0xE5"
    "\<forall>k < i. dir_name0 b k \<noteq> 0 \<and> dir_name0 b k \<noteq> 0xE5"
    by auto
qed

lemma find_entry_split:
  "find_entry b t is = Some k \<Longrightarrow> \<exists>xs ys. is = xs @ k # ys \<and> dir_name b k = t \<and> dir_name0 b k \<noteq> 0
    \<and> (\<forall>j \<in> set xs. dir_name0 b j \<noteq> 0 \<and> dir_name b j \<noteq> t)"
proof (induction "is")
  case (Cons j js)
  show ?case
  proof (cases "dir_name b j = t")
    case True
    with Cons.prems show ?thesis by (intro exI [of _ "[]"] exI [of _ js]) (auto split: if_splits)
  next
    case False
    with Cons obtain xs ys where "js = xs @ k # ys" "dir_name b k = t" "dir_name0 b k \<noteq> 0" "dir_name0 b j \<noteq> 0"
      "\<forall>j \<in> set xs. dir_name0 b j \<noteq> 0 \<and> dir_name b j \<noteq> t"
      by (auto split: if_splits)
    with False show ?thesis by (intro exI [of _ "j # xs"] exI [of _ ys]) auto
  qed
qed simp

lemma find_entry_Some_iff:
  "find_entry b t [0..<16] = Some k \<longleftrightarrow>
    k < 16 \<and> dir_name b k = t \<and> (\<forall>j \<le> k. dir_name0 b j \<noteq> 0) \<and> (\<forall>j < k. dir_name b j \<noteq> t)" (is "?l \<longleftrightarrow> ?r")
proof
  assume ?l
  then obtain xs ys where "[0..<16] = xs @ k # ys" "dir_name b k = t" "dir_name0 b k \<noteq> 0"
    "\<forall>j \<in> set xs. dir_name0 b j \<noteq> 0 \<and> dir_name b j \<noteq> t"
    using find_entry_split by blast
  with upt_splitD [of 16 xs k ys] show ?r by (auto simp: le_less)
next
  assume ?r then show ?l by (intro find_entry_upt) auto
qed

lemma find_entry_NoneD:
  assumes "find_entry b t [0..<16] = None" "j < 16" "\<forall>m \<le> j. dir_name0 b m \<noteq> 0"
  shows "dir_name b j \<noteq> t"
proof -
  have skip: "\<forall>m \<in> set xs. dir_name b m \<noteq> t"
    if "find_entry b t (xs @ ys) = None" "\<forall>m \<in> set xs. dir_name0 b m \<noteq> 0" for xs ys
    using that by (induction xs) (auto split: if_splits)
  have "[0..<16] = [0..<Suc j] @ [Suc j..<16]"
    using assms(2) upt_add_eq_append [of 0 "Suc j" "16 - Suc j"] by simp
  then show ?thesis using skip [of "[0..<Suc j]" "[Suc j..<16]"] assms(1,3) by (auto simp del: upt_Suc)
qed

text \<open>What the readers' search finds after an entry is stored in the first free slot.\<close>

lemma stored_names:
  assumes "length b = 512" "length t = 11" "i < 16" "j < 16"
  shows "dir_name (overwrite b (32 * i) (new_entry t c n)) j = (if j = i then t else dir_name b j)"
    "dir_name0 (overwrite b (32 * i) (new_entry t c n)) j = (if j = i then t ! 0 else dir_name0 b j)"
  using assms other_entry_fields [of b i j "new_entry t c n"] dir_name_stored [of b i t c n]
    dir_name0_name [of "overwrite b (32 * i) (new_entry t c n)" i] by (auto split: if_splits)

lemma find_entry_stored_same:
  assumes len: "length b = 512" "length t = 11" "t ! 0 \<noteq> 0" "t ! 0 \<noteq> 0xE5"
    and slot: "find_free_slot b [0..<16] = Some i"
  shows "find_entry (overwrite b (32 * i) (new_entry t c n)) t [0..<16] =
    Some (case find_entry b t [0..<16] of None \<Rightarrow> i | Some k \<Rightarrow> min k i)"
proof -
  note i = find_free_slot_SomeD [OF slot]
  note names = stored_names [OF len(1,2) i(1)]
  have old: "dir_name b i \<noteq> t" using i(1,2) len dir_name0_name [of b i] by auto
  show ?thesis
  proof (cases "find_entry b t [0..<16]")
    case None
    then have "dir_name b j \<noteq> t" if "j < i" for j
      using that i find_entry_NoneD [of b t j] by auto
    then show ?thesis using None i len(3) by (simp add: find_entry_Some_iff names)
  next
    case (Some m)
    have "find_entry (overwrite b (32 * i) (new_entry t c n)) t [0..<16] = Some (min m i)"
      using Some [unfolded find_entry_Some_iff] i(1,3) len(3) unfolding find_entry_Some_iff
      by (auto simp: names min_def)
    with Some show ?thesis by simp
  qed
qed

lemma find_entry_stored_other:
  assumes len: "length b = 512" "length t = 11" "t ! 0 \<noteq> 0" and slot: "find_free_slot b [0..<16] = Some i"
    and tail: "\<forall>j<16. \<forall>i<j. dir_name0 b i = 0 \<longrightarrow> dir_name0 b j = 0"
    and t': "t' ! 0 \<noteq> 0" "t' ! 0 \<noteq> 0xE5" "t' \<noteq> t"
  shows "find_entry (overwrite b (32 * i) (new_entry t c n)) t' [0..<16] = find_entry b t' [0..<16]"
proof -
  note i = find_free_slot_SomeD [OF slot]
  note names = stored_names [OF len(1,2) i(1)]
  have old: "dir_name b i \<noteq> t'" using i(1,2) t' len(1) dir_name0_name [of b i] by auto
  have "find_entry (overwrite b (32 * i) (new_entry t c n)) t' [0..<16] = Some k
      \<longleftrightarrow> find_entry b t' [0..<16] = Some k" for k
  proof (cases "k < 16 \<and> i < k")
    case True
    then have "dir_name0 b k = 0" if "dir_name0 b i = 0" using tail that by blast
    with True show ?thesis
      using old t'(3) len(3) by (auto simp: find_entry_Some_iff names) metis+
  next
    case False
    then show ?thesis using old t'(3) i(1) by (cases "k = i") (auto simp: find_entry_Some_iff names)
  qed
  then show ?thesis by (metis not_None_eq)
qed

lemma find_entry_cong:
  "\<forall>k \<in> set is. dir_name b' k = dir_name b k \<and> dir_name0 b' k = dir_name0 b k
    \<Longrightarrow> find_entry b' t is = find_entry b t is"
  by (induction "is") auto

lemma find_entry_all_upt:
  assumes "i < 16" "\<forall>k < i. dir_name b k \<noteq> t" "dir_name b i = t"
  shows "find_entry_all b t [0..<16] = Some i"
proof -
  have skip: "find_entry_all b t (xs @ ys) = find_entry_all b t ys"
    if "\<forall>k \<in> set xs. dir_name b k \<noteq> t" for xs ys
    using that by (induction xs) auto
  have "[0..<16] = [0..<i] @ i # [Suc i..<16]"
    using assms(1) by (metis less_imp_le_nat upt_add_eq_append upt_conv_Cons le_add_diff_inverse zero_le)
  then show ?thesis using skip [of "[0..<i]"] assms(2,3) by simp
qed

lemma find_entry_all_SomeD:
  "find_entry_all b t is = Some i \<Longrightarrow> i \<in> set is \<and> dir_name b i = t"
  by (induction "is") (auto split: if_splits)

lemma find_entry_to_all:
  "find_entry b t is = Some i \<Longrightarrow> find_entry_all b t is = Some i"
  by (induction "is") (auto split: if_splits)

lemma find_free_slot_None_iff:
  "find_free_slot b is = None \<longleftrightarrow> (\<forall>i \<in> set is. dir_name0 b i \<noteq> 0 \<and> dir_name0 b i \<noteq> 0xE5)"
  by (induction "is") auto

lemma find_free_cluster_SomeD:
  "find_free_cluster b is = Some c \<Longrightarrow> c \<in> set is \<and> fat_entry b c = 0"
  by (induction "is") (auto split: if_splits)

lemma find_free_cluster_None_iff:
  "find_free_cluster b is = None \<longleftrightarrow> (\<forall>i \<in> set is. fat_entry b i \<noteq> 0)"
  by (induction "is") auto

text \<open>The FAT after one entry is stored.\<close>

lemma fat_entry_put:
  assumes "length b = 512" "c < 128" "k < 128"
  shows "fat_entry (put32 b (4 * c) v) k = (if k = c then v AND 0x0FFFFFFF else fat_entry b k)"
proof (cases "k = c")
  case True
  then show ?thesis using assms by (simp add: fat_entry_def bytes_simps)
next
  case False
  then have "4 * k + 4 \<le> 4 * c \<or> 4 * c + 4 \<le> 4 * k" by linarith
  with False show ?thesis using assms by (simp add: fat_entry_def put32_def bytes_simps)
qed

end
