(* ===== verification/Block_Device.thy ===== *)
theory Block_Device
  imports Prelude
begin

text \<open>
  The contract between the file system and the block driver: sectors of 512 bytes, numbered below
  a capacity, that keep what was last written; requests past the capacity fail and change nothing;
  printing and reading the timer touch no sector. \<open>ram_io\<close> is the contract's own model, a map from sector numbers to
  bytes; \<open>simulates\<close> says that a call over the driver does what the same call does over the map.
\<close>

type_synonym store = "u64 \<Rightarrow> u8 list"

definition ram_io :: "nat \<Rightarrow> store io" where
  "ram_io cap = \<lparr>
     io_read = (\<lambda>s S. Inr (if unat s < cap then Some (S s) else None, S)),
     io_write = (\<lambda>s b S. Inr (unat s < cap, if unat s < cap then S(s := b) else S)),
     io_print = (\<lambda>b S. S), io_timer = (\<lambda>S. (0, S)), io_key = (\<lambda>S. (0, S)), io_rx = (\<lambda>S. (0, S)),
     io_flush = Inr\<rparr>"

definition store_wf :: "store \<Rightarrow> bool" where
  "store_wf S \<longleftrightarrow> (\<forall>s. length (S s) = 512)"

lemma store_wf_length [simp]: "store_wf S \<Longrightarrow> length (S s) = 512"
  by (simp add: store_wf_def)

lemma store_wf_upd [simp]: "store_wf S \<Longrightarrow> length b = 512 \<Longrightarrow> store_wf (S(s := b))"
  by (simp add: store_wf_def)

lemma ram_io_simps [res_simps]:
  "io_read (ram_io cap) s S = Inr (if unat s < cap then Some (S s) else None, S)"
  "io_write (ram_io cap) s b S = Inr (unat s < cap, if unat s < cap then S(s := b) else S)"
  by (simp_all add: ram_io_def)

lemma ram_io_print [simp]: "io_print (ram_io cap) p S = S"
  by (simp add: ram_io_def)

locale block_device =
  fixes io :: "'d io" and inv :: "'d \<Rightarrow> bool" and sec :: "'d \<Rightarrow> store" and cap :: nat
  assumes read_law: "inv d \<Longrightarrow> \<exists>d'. io_read io s d = Inr (if unat s < cap then Some (sec d s) else None, d')
      \<and> inv d' \<and> sec d' = sec d"
    and write_law: "inv d \<Longrightarrow> length b = 512 \<Longrightarrow> \<exists>d'. io_write io s b d = Inr (unat s < cap, d')
      \<and> inv d' \<and> sec d' = (if unat s < cap then (sec d)(s := b) else sec d)"
    and print_law: "inv d \<Longrightarrow> inv (io_print io p d) \<and> sec (io_print io p d) = sec d"
    and timer_law: "inv d \<Longrightarrow> inv (snd (io_timer io d)) \<and> sec (snd (io_timer io d)) = sec d"
    and sector_law: "inv d \<Longrightarrow> store_wf (sec d)"
begin

definition simulates :: "'d res \<Rightarrow> store res \<Rightarrow> bool" where
  "simulates x y = (case x of Inl e \<Rightarrow> y = Inl e | Inr d \<Rightarrow> inv d \<and> y = Inr (sec d))"

definition simulates_val :: "('a \<times> 'd) res \<Rightarrow> ('a \<times> store) res \<Rightarrow> bool" where
  "simulates_val x y = (case x of Inl e \<Rightarrow> y = Inl e | Inr (a, d) \<Rightarrow> inv d \<and> y = Inr (a, sec d))"

lemma simulates_pure_bind:
  assumes "\<And>a. simulates (f a) (g a)"
  shows "simulates (res_bind x f) (res_bind x g)"
  by (cases x) (simp_all add: assms simulates_def [of "Inl _"])

text \<open>A read that hands on a sector of 512 bytes, or nothing.\<close>

lemma simulates_read_bind:
  assumes "inv d" "\<And>r d. inv d \<Longrightarrow> (\<And>b. r = Some b \<Longrightarrow> length b = 512) \<Longrightarrow> simulates (f r d) (g r (sec d))"
  shows "simulates (res_bind (io_read io s d) (\<lambda>(r, d). f r d)) (res_bind (io_read (ram_io cap) s (sec d)) (\<lambda>(r, d). g r d))"
proof -
  obtain d' where d': "io_read io s d = Inr (if unat s < cap then Some (sec d s) else None, d')"
    "inv d'" "sec d' = sec d"
    using read_law [OF assms(1), of s] by blast
  have "simulates (f (if unat s < cap then Some (sec d s) else None) d')
      (g (if unat s < cap then Some (sec d s) else None) (sec d'))"
    using d'(2) sector_law [OF assms(1)] by (intro assms(2)) (auto split: if_splits)
  then show ?thesis using d' by (simp add: ram_io_simps)
qed

lemma simulates_val_read_bind:
  assumes "inv d" "\<And>r d. inv d \<Longrightarrow> (\<And>b. r = Some b \<Longrightarrow> length b = 512) \<Longrightarrow> simulates_val (f r d) (g r (sec d))"
  shows "simulates_val (res_bind (io_read io s d) (\<lambda>(r, d). f r d)) (res_bind (io_read (ram_io cap) s (sec d)) (\<lambda>(r, d). g r d))"
proof -
  obtain d' where d': "io_read io s d = Inr (if unat s < cap then Some (sec d s) else None, d')"
    "inv d'" "sec d' = sec d"
    using read_law [OF assms(1), of s] by blast
  have "simulates_val (f (if unat s < cap then Some (sec d s) else None) d')
      (g (if unat s < cap then Some (sec d s) else None) (sec d'))"
    using d'(2) sector_law [OF assms(1)] by (intro assms(2)) (auto split: if_splits)
  then show ?thesis using d' by (simp add: ram_io_simps)
qed

lemma simulates_write_bind:
  assumes "inv d" "length b = 512" "\<And>r d. inv d \<Longrightarrow> simulates (f r d) (g r (sec d))"
  shows "simulates (res_bind (io_write io s b d) (\<lambda>(r, d). f r d)) (res_bind (io_write (ram_io cap) s b (sec d)) (\<lambda>(r, d). g r d))"
proof -
  obtain d' where d': "io_write io s b d = Inr (unat s < cap, d')" "inv d'"
    "sec d' = (if unat s < cap then (sec d)(s := b) else sec d)"
    using write_law [OF assms(1,2), of s] by blast
  have "simulates (f (unat s < cap) d') (g (unat s < cap) (sec d'))"
    using d'(2) by (rule assms(3))
  then show ?thesis using d' by (simp add: ram_io_simps)
qed

lemma simulates_fault: "simulates (Inl e) (Inl e)"
  by (simp add: simulates_def)

lemma simulates_val_fault: "simulates_val (Inl e) (Inl e)"
  by (simp add: simulates_val_def)

lemma simulates_val_done: "inv d \<Longrightarrow> S = sec d \<Longrightarrow> simulates_val (Inr (a, d)) (Inr (a, S))"
  by (simp add: simulates_val_def)

lemma simulates_done: "inv d \<Longrightarrow> S = sec d \<Longrightarrow> simulates (Inr d) (Inr S)"
  by (simp add: simulates_def)

lemma simulates_option:
  "(x = None \<Longrightarrow> simulates a b) \<Longrightarrow> (\<And>y. x = Some y \<Longrightarrow> simulates (f y) (g y))
    \<Longrightarrow> simulates (case x of None \<Rightarrow> a | Some y \<Rightarrow> f y) (case x of None \<Rightarrow> b | Some y \<Rightarrow> g y)"
  by (cases x) simp_all

lemma simulates_if:
  "(P \<Longrightarrow> simulates a b) \<Longrightarrow> (\<not> P \<Longrightarrow> simulates a' b') \<Longrightarrow> simulates (if P then a else a') (if P then b else b')"
  by simp

lemma simulates_val_option:
  "(x = None \<Longrightarrow> simulates_val a b) \<Longrightarrow> (\<And>y. x = Some y \<Longrightarrow> simulates_val (f y) (g y))
    \<Longrightarrow> simulates_val (case x of None \<Rightarrow> a | Some y \<Rightarrow> f y) (case x of None \<Rightarrow> b | Some y \<Rightarrow> g y)"
  by (cases x) simp_all

lemma simulates_val_if:
  "(P \<Longrightarrow> simulates_val a b) \<Longrightarrow> (\<not> P \<Longrightarrow> simulates_val a' b')
    \<Longrightarrow> simulates_val (if P then a else a') (if P then b else b')"
  by simp

lemma simulates_val_pair:
  "(\<And>y z. x = (y, z) \<Longrightarrow> simulates_val (f y z) (g y z)) \<Longrightarrow> simulates_val (case x of (y, z) \<Rightarrow> f y z) (case x of (y, z) \<Rightarrow> g y z)"
  by (cases x) simp

lemmas simulates_rules = simulates_read_bind simulates_write_bind simulates_option simulates_if
  simulates_done simulates_fault simulates_val_read_bind simulates_val_option simulates_val_if
  simulates_val_pair simulates_val_done simulates_val_fault simulates_pure_bind

lemma simulates_InrD: "simulates x (Inr S) \<Longrightarrow> \<exists>d. x = Inr d \<and> inv d \<and> sec d = S"
  by (auto simp: simulates_def split: sum.splits)

lemma simulates_val_InrD: "simulates_val x (Inr (a, S)) \<Longrightarrow> \<exists>d. x = Inr (a, d) \<and> inv d \<and> sec d = S"
  by (auto simp: simulates_val_def split: sum.splits)

lemma simulates_InlD: "simulates x (Inl e) \<Longrightarrow> x = Inl e"
  by (auto simp: simulates_def split: sum.splits)

lemma simulates_val_InlD: "simulates_val x (Inl e) \<Longrightarrow> x = Inl e"
  by (auto simp: simulates_val_def split: sum.splits)

end

end
