(* ===== verification/Fat32_Sim.thy ===== *)
theory Fat32_Sim
  imports Fat32_Lemmas Block_Device
begin

text \<open>
  Over any device that keeps the block contract, every file system operation does what it does
  over a plain map of sectors: same result, and the sectors it leaves are those of the map. The
  functional properties are then proved over the map (\<open>Fat32_Files\<close>).
\<close>

lemma length_put_fat: "length b = 512 \<Longrightarrow> c < 128 \<Longrightarrow> length (put32 b (4 * c) v) = 512"
  by simp

lemma find_free_cluster_less: "find_free_cluster b fat_indices = Some c \<Longrightarrow> 2 \<le> c \<and> c < 128"
  unfolding fat_indices_def by (metis find_free_cluster_SomeD atLeastLessThan_iff set_upt)

lemma find_entry_all_less: "find_entry_all b t [0..<16] = Some i \<Longrightarrow> i < 16"
  by (metis find_entry_all_SomeD atLeastLessThan_iff set_upt)

lemma length_append_sector:
  assumes "length b = 512"
  shows "length (overwrite b (unat ((n :: u32) mod 512)) (take (unat (if l < 512 - n mod 512 then l else 512 - n mod 512)) data)) = 512"
proof -
  have off: "unat (n mod 512) < 512" by (simp add: unat_mod)
  have "n mod 512 \<le> 512" using off by (simp add: word_le_nat_alt)
  then have "unat (512 - n mod 512) = 512 - unat (n mod 512)" by (simp add: unat_sub)
  then have "unat (if l < 512 - n mod 512 then l else 512 - n mod 512) \<le> 512 - unat (n mod 512)"
    by (auto simp: word_less_nat_alt)
  then show ?thesis using assms off by (subst length_overwrite) auto
qed

lemma length_append_sectors:
  "length b = 512 \<Longrightarrow> l < 512 - n mod 512
    \<Longrightarrow> length (overwrite b (unat ((n :: u32) mod 512)) (take (unat l) data)) = 512"
  "length b = 512
    \<Longrightarrow> length (overwrite b (unat ((n :: u32) mod 512)) (take (unat (512 - n mod 512)) data)) = 512"
  using length_append_sector [of b n l data] length_append_sector [of b n "- 1" data]
  by (simp_all split: if_splits)

lemma length_put_size: "length b = 512 \<Longrightarrow> i < 16 \<Longrightarrow> length (put32 b (32 * i + 28) v) = 512"
  by simp

lemma length_put_entry: "length b = 512 \<Longrightarrow> i < 16 \<Longrightarrow> length e = 32 \<Longrightarrow> length (overwrite b (32 * i) e) = 512"
  by simp

lemma find_free_slot_less: "find_free_slot b [0..<16] = Some i \<Longrightarrow> i < 16"
  by (rule find_free_slot_SomeD)

lemma find_entry_less: "find_entry b t [0..<16] = Some i \<Longrightarrow> i < 16"
  by (metis find_entry_Some atLeastLessThan_iff set_upt)

definition data_sector_bytes :: "u32 \<Rightarrow> u8 list \<Rightarrow> u8 list" where
  "data_sector_bytes n data = overwrite (replicate 512 0) 0 (take (if n < 512 then unat n else 512) data)"

lemma length_data_sector_bytes [simp]: "length (data_sector_bytes n data) = 512"
  unfolding data_sector_bytes_def by (subst length_overwrite) (auto simp: word_less_nat_alt)

context block_device
begin

lemma fs_read_sim:
  assumes "inv d"
  shows "simulates_val (fs_read_file_content io fs name buffer m d)
    (fs_read_file_content (ram_io cap) fs name buffer m (sec d))"
  unfolding fs_read_file_content_def Let_def
  by (intro simulates_rules assms refl) assumption+

lemma fs_get_dir_list_sim:
  assumes "inv d"
  shows "simulates_val (fs_get_dir_list io fs m d) (fs_get_dir_list (ram_io cap) fs m (sec d))"
  unfolding fs_get_dir_list_def
  by (intro simulates_rules assms refl) assumption+

lemma fs_write_sim:
  assumes "inv d"
  shows "simulates (fs_write_file_content io fs name data n d)
    (fs_write_file_content (ram_io cap) fs name data n (sec d))"
  unfolding fs_write_file_content_def Let_def data_sector_bytes_def [symmetric]
  by (intro simulates_rules assms refl)
    (simp_all add: length_put_fat find_free_cluster_less find_free_slot_less length_put_entry)

lemma fs_append_sim:
  assumes "inv d"
  shows "simulates (fs_append_file_content io fs name data n d)
    (fs_append_file_content (ram_io cap) fs name data n (sec d))"
  unfolding fs_append_file_content_def Let_def
  by (intro simulates_rules assms refl fs_write_sim)
    (simp_all add: length_append_sector length_put_size find_entry_all_less print_law)

end

end
