(* ===== verification/Fat32_Files.thy ===== *)
theory Fat32_Files
  imports Fat32_Sim
begin

text \<open>
  What reading, writing and appending do to files. A volume is sane when its geometry keeps FAT, root
  directory and data apart and inside the device (\<open>geometry\<close>), and when its directory entries own
  distinct allocated clusters (\<open>volume_wf\<close>). \<open>file_of\<close> is the abstract file system, a map from
  stored names to the bytes the kernel can read back. Everything is proved over a map of sectors
  and holds over any device with the block contract by the simulation of \<open>Fat32_Sim\<close>.
\<close>

section \<open>Geometry\<close>

definition sectors_per_cluster :: "fat_fs \<Rightarrow> nat" where
  "sectors_per_cluster fs = unat (bytes_per_cluster fs) div 512"

definition geometry :: "fat_fs \<Rightarrow> nat \<Rightarrow> bool" where
  "geometry fs cap \<longleftrightarrow> 1 \<le> sectors_per_cluster fs \<and> unat (fat_start_sector fs) < unat (data_start_sector fs)
     \<and> unat (data_start_sector fs) + 126 * sectors_per_cluster fs \<le> cap \<and> cap \<le> 4294967296
     \<and> 2 \<le> unat (root_dir_cluster fs) \<and> unat (root_dir_cluster fs) < 128"

definition fat_sector :: "fat_fs \<Rightarrow> u64" where
  "fat_sector fs = ucast (fat_start_sector fs)"

definition sector_of :: "fat_fs \<Rightarrow> u32 \<Rightarrow> u64" where
  "sector_of fs c = ucast (cluster_to_sector fs c)"

definition data_cluster :: "u32 \<Rightarrow> bool" where
  "data_cluster c \<longleftrightarrow> 2 \<le> unat c \<and> unat c < 128"

lemma unat_cluster_to_sector:
  assumes "geometry fs cap" "data_cluster c"
  shows "unat (cluster_to_sector fs c) = unat (data_start_sector fs) + (unat c - 2) * sectors_per_cluster fs"
proof -
  let ?k = "(unat c - 2) * sectors_per_cluster fs"
  have "unat (c - 2) = unat c - 2"
    using assms(2) by (simp add: data_cluster_def unat_sub word_le_nat_alt)
  moreover have "unat (bytes_per_cluster fs div 512) = sectors_per_cluster fs"
    by (simp only: unat_div sectors_per_cluster_def) simp
  moreover have "?k \<le> 125 * sectors_per_cluster fs"
    using assms(2) by (intro mult_right_mono) (auto simp: data_cluster_def)
  then have "unat (data_start_sector fs) + ?k < 4294967296"
    using assms(1) unfolding geometry_def by linarith
  ultimately show ?thesis
    by (simp add: cluster_to_sector_def Let_def unat_word_ariths)
qed

lemma unat_sector_of:
  "geometry fs cap \<Longrightarrow> data_cluster c
    \<Longrightarrow> unat (sector_of fs c) = unat (data_start_sector fs) + (unat c - 2) * sectors_per_cluster fs"
  by (simp add: sector_of_def unat_cluster_to_sector)

lemma sector_of_less:
  assumes "geometry fs cap" "data_cluster c"
  shows "unat (sector_of fs c) < cap"
proof -
  have "(unat c - 2) * sectors_per_cluster fs \<le> 125 * sectors_per_cluster fs"
    using assms(2) by (intro mult_right_mono) (auto simp: data_cluster_def)
  then show ?thesis using assms unat_sector_of [OF assms] unfolding geometry_def by linarith
qed

lemma fat_sector_less: "geometry fs cap \<Longrightarrow> unat (fat_sector fs) < cap"
  by (simp add: geometry_def fat_sector_def)

lemma fat_sector_neq: "geometry fs cap \<Longrightarrow> data_cluster c \<Longrightarrow> sector_of fs c \<noteq> fat_sector fs"
  using unat_sector_of [of fs cap c] by (auto simp: geometry_def fat_sector_def dest: arg_cong [of _ _ unat])

lemma sector_of_inj:
  assumes "geometry fs cap" "data_cluster c" "data_cluster c'"
  shows "sector_of fs c = sector_of fs c' \<longleftrightarrow> c = c'"
proof
  assume "sector_of fs c = sector_of fs c'"
  then have "(unat c - 2) * sectors_per_cluster fs = (unat c' - 2) * sectors_per_cluster fs"
    using assms unat_sector_of by (metis add_left_cancel)
  then show "c = c'"
    using assms by (auto simp: geometry_def data_cluster_def word_unat_eq_iff)
qed simp

lemma root_sector_of: "root_sector fs = sector_of fs (root_dir_cluster fs)"
  by (simp add: root_sector_def sector_of_def)

lemma root_data_cluster: "geometry fs cap \<Longrightarrow> data_cluster (root_dir_cluster fs)"
  by (simp add: geometry_def data_cluster_def)

lemma data_cluster_of_nat: "2 \<le> c \<Longrightarrow> c < 128 \<Longrightarrow> data_cluster (of_nat c) \<and> unat (of_nat c :: u32) = c"
  by (simp add: data_cluster_def unat_of_nat take_bit_nat_eq_self)

lemmas geometry_simps = sector_of_less fat_sector_less fat_sector_neq fat_sector_neq [symmetric]
  sector_of_inj root_sector_of root_data_cluster

section \<open>Sane volumes\<close>

definition live :: "u8 list \<Rightarrow> nat \<Rightarrow> bool" where
  "live b i \<longleftrightarrow> dir_name0 b i \<noteq> 0 \<and> dir_name0 b i \<noteq> 0xE5"

text \<open>
  No entry follows the end mark, and every live entry with a cluster owns it: allocated in the FAT,
  not the root directory's, not another entry's.
\<close>

definition owns_cluster :: "fat_fs \<Rightarrow> u8 list \<Rightarrow> u8 list \<Rightarrow> nat \<Rightarrow> bool" where
  "owns_cluster fs fat b i \<longleftrightarrow> data_cluster (dir_cluster b i) \<and> dir_cluster b i \<noteq> root_dir_cluster fs
     \<and> fat_entry fat (unat (dir_cluster b i)) \<noteq> 0
     \<and> (\<forall>j<16. live b j \<and> j \<noteq> i \<longrightarrow> dir_cluster b j \<noteq> dir_cluster b i)"

definition directory_wf :: "fat_fs \<Rightarrow> u8 list \<Rightarrow> u8 list \<Rightarrow> bool" where
  "directory_wf fs fat b \<longleftrightarrow> fat_entry fat (unat (root_dir_cluster fs)) \<noteq> 0
     \<and> (\<forall>j<16. \<forall>i<j. dir_name0 b i = 0 \<longrightarrow> dir_name0 b j = 0)
     \<and> (\<forall>i<16. live b i \<and> dir_cluster b i \<noteq> 0 \<longrightarrow> owns_cluster fs fat b i)"

definition volume_wf :: "fat_fs \<Rightarrow> nat \<Rightarrow> store \<Rightarrow> bool" where
  "volume_wf fs cap S \<longleftrightarrow> geometry fs cap \<and> store_wf S
     \<and> directory_wf fs (S (fat_sector fs)) (S (root_sector fs))"

text \<open>A file as the kernel sees it: the size of its entry and the 512 bytes of its first sector.\<close>

definition file_of :: "fat_fs \<Rightarrow> store \<Rightarrow> u8 list \<Rightarrow> (u32 \<times> u8 list) option" where
  "file_of fs S name = (let b = S (root_sector fs) in case find_entry b name [0..<16] of
     None \<Rightarrow> None
   | Some i \<Rightarrow> if dir_cluster b i = 0 then None else Some (dir_file_size b i, S (sector_of fs (dir_cluster b i))))"

definition file_bytes :: "u32 \<times> u8 list \<Rightarrow> u8 list" where
  "file_bytes f = take (unat (fst f)) (snd f)"

text \<open>The name is taken: the directory search of the readers finds it.\<close>

definition name_taken :: "fat_fs \<Rightarrow> store \<Rightarrow> u8 list \<Rightarrow> bool" where
  "name_taken fs S name \<longleftrightarrow> find_entry (S (root_sector fs)) name [0..<16] \<noteq> None"

definition free_cluster_of :: "fat_fs \<Rightarrow> store \<Rightarrow> nat option" where
  "free_cluster_of fs S = find_free_cluster (S (fat_sector fs)) fat_indices"

definition free_slot_of :: "fat_fs \<Rightarrow> store \<Rightarrow> nat option" where
  "free_slot_of fs S = find_free_slot (S (root_sector fs)) [0..<16]"

section \<open>The writer over a map of sectors\<close>

definition claim_cluster :: "fat_fs \<Rightarrow> nat \<Rightarrow> u8 list \<Rightarrow> u32 \<Rightarrow> store \<Rightarrow> store" where
  "claim_cluster fs c data n S =
     S(fat_sector fs := put32 (S (fat_sector fs)) (4 * c) 0x0FFFFFFF,
       sector_of fs (of_nat c) := data_sector_bytes n data)"

definition add_entry :: "fat_fs \<Rightarrow> nat \<Rightarrow> nat \<Rightarrow> u8 list \<Rightarrow> u32 \<Rightarrow> store \<Rightarrow> store" where
  "add_entry fs i c name n S =
     S(root_sector fs := overwrite (S (root_sector fs)) (32 * i) (new_entry name (of_nat c) n))"

lemma free_cluster_data:
  assumes "volume_wf fs cap S" "free_cluster_of fs S = Some c"
  shows "data_cluster (of_nat c)" "unat (of_nat c :: u32) = c" "c < 128" "of_nat c \<noteq> root_dir_cluster fs"
    "fat_entry (S (fat_sector fs)) c = 0"
proof -
  have c: "2 \<le> c" "c < 128"
    using find_free_cluster_less assms(2) by (auto simp: free_cluster_of_def)
  then show "data_cluster (of_nat c)" "unat (of_nat c :: u32) = c" "c < 128"
    using data_cluster_of_nat by blast+
  show free: "fat_entry (S (fat_sector fs)) c = 0"
    using find_free_cluster_SomeD assms(2) by (auto simp: free_cluster_of_def)
  then show "of_nat c \<noteq> root_dir_cluster fs"
    using assms(1) \<open>unat (of_nat c :: u32) = c\<close> by (auto simp: volume_wf_def directory_wf_def)
qed

lemma volume_wfD:
  assumes "volume_wf fs cap S"
  shows "geometry fs cap" "store_wf S" "directory_wf fs (S (fat_sector fs)) (S (root_sector fs))"
    "length (S s) = 512"
  using assms by (simp_all add: volume_wf_def)

lemma write_ram:
  assumes "volume_wf fs cap S" "min (unat n) 512 \<le> length data"
  shows "fs_write_file_content (ram_io cap) fs name data n S = Inr (case free_cluster_of fs S of
      None \<Rightarrow> S
    | Some c \<Rightarrow> (case free_slot_of fs S of
        None \<Rightarrow> claim_cluster fs c data n S
      | Some i \<Rightarrow> add_entry fs i c (format_fat_name name) n (claim_cluster fs c data n S)))"
proof (cases "free_cluster_of fs S")
  case None
  then show ?thesis
    using fat_sector_less [OF volume_wfD(1) [OF assms(1)]]
    by (simp add: fs_write_file_content_def ram_io_simps free_cluster_of_def fat_sector_def)
next
  case (Some c)
  note c = free_cluster_data [OF assms(1) Some]
  have less: "\<not> length data < (if n < 512 then unat n else 512)"
    using assms(2) by (auto simp: word_less_nat_alt)
  have root: "sector_of fs (of_nat c) \<noteq> root_sector fs" "fat_sector fs \<noteq> root_sector fs"
    "unat (root_sector fs) < cap"
    using volume_wfD(1) [OF assms(1)] c by (simp_all add: geometry_simps)
  show ?thesis
    using less root Some volume_wfD(1) [OF assms(1)] c(1)
    by (simp add: fs_write_file_content_def Let_def ram_io_simps free_cluster_of_def free_slot_of_def
        sector_of_less fat_sector_less claim_cluster_def add_entry_def data_sector_bytes_def
        flip: fat_sector_def sector_of_def split: option.split)
qed

text \<open>The names the searches can find: neither the end mark nor the deletion mark in front.\<close>

definition usable_name :: "u8 list \<Rightarrow> bool" where
  "usable_name t \<longleftrightarrow> length t = 11 \<and> t ! 0 \<noteq> 0 \<and> t ! 0 \<noteq> 0xE5"

lemma find_entry_live:
  assumes "length b = 512" "usable_name t" "find_entry b t [0..<16] = Some i"
  shows "i < 16" "live b i" "dir_name b i = t"
  using assms dir_name0_name [of b i] by (auto simp: find_entry_Some_iff usable_name_def live_def)

lemma found_owns_cluster:
  assumes "volume_wf fs cap S" "usable_name t" "find_entry (S (root_sector fs)) t [0..<16] = Some i"
    "dir_cluster (S (root_sector fs)) i \<noteq> 0"
  shows "owns_cluster fs (S (fat_sector fs)) (S (root_sector fs)) i"
  using assms volume_wfD [OF assms(1)] find_entry_live [OF _ assms(2,3)]
  by (simp add: directory_wf_def)

lemma claimed_sectors:
  assumes "volume_wf fs cap S" "free_cluster_of fs S = Some c"
  shows "claim_cluster fs c data n S (root_sector fs) = S (root_sector fs)"
    "claim_cluster fs c data n S (fat_sector fs) = put32 (S (fat_sector fs)) (4 * c) 0x0FFFFFFF"
    "claim_cluster fs c data n S (sector_of fs (of_nat c)) = data_sector_bytes n data"
    "store_wf (claim_cluster fs c data n S)"
  using free_cluster_data [OF assms] volume_wfD [OF assms(1)]
  by (simp_all add: claim_cluster_def geometry_simps length_put_fat)

lemma claimed_fat_entry:
  assumes "volume_wf fs cap S" "free_cluster_of fs S = Some c" "k < 128"
  shows "fat_entry (claim_cluster fs c data n S (fat_sector fs)) k =
    (if k = c then 0x0FFFFFFF else fat_entry (S (fat_sector fs)) k)"
  using free_cluster_data [OF assms(1,2)] volume_wfD [OF assms(1)] assms(3)
  by (simp add: claimed_sectors [OF assms(1,2)] fat_entry_put)

lemma claim_keeps_owner:
  assumes "volume_wf fs cap S" "free_cluster_of fs S = Some c"
    "owns_cluster fs (S (fat_sector fs)) (S (root_sector fs)) i"
  shows "owns_cluster fs (claim_cluster fs c data n S (fat_sector fs)) (S (root_sector fs)) i"
    "dir_cluster (S (root_sector fs)) i \<noteq> of_nat c"
  using assms free_cluster_data [OF assms(1,2)] claimed_fat_entry [OF assms(1,2)]
  by (auto simp: owns_cluster_def data_cluster_def)

lemma claim_keeps_directory:
  assumes "volume_wf fs cap S" "free_cluster_of fs S = Some c"
  shows "directory_wf fs (claim_cluster fs c data n S (fat_sector fs)) (S (root_sector fs))"
  using volume_wfD(1,3) [OF assms(1)] claim_keeps_owner [OF assms] claimed_fat_entry [OF assms]
  by (simp add: directory_wf_def geometry_def)

lemma claim_keeps_volume:
  assumes "volume_wf fs cap S" "free_cluster_of fs S = Some c"
  shows "volume_wf fs cap (claim_cluster fs c data n S)"
  using assms claim_keeps_directory [OF assms] claimed_sectors [OF assms] by (simp add: volume_wf_def)

lemma claim_keeps_files:
  assumes "volume_wf fs cap S" "free_cluster_of fs S = Some c" "usable_name t"
  shows "file_of fs (claim_cluster fs c data n S) t = file_of fs S t"
proof (cases "find_entry (S (root_sector fs)) t [0..<16]")
  case None
  then show ?thesis by (simp add: file_of_def claimed_sectors [OF assms(1,2)])
next
  case (Some i)
  show ?thesis
  proof (cases "dir_cluster (S (root_sector fs)) i = 0")
    case False
    have own: "owns_cluster fs (S (fat_sector fs)) (S (root_sector fs)) i"
      using found_owns_cluster [OF assms(1,3) Some False] .
    then have "sector_of fs (dir_cluster (S (root_sector fs)) i) \<noteq> sector_of fs (of_nat c)"
      "sector_of fs (dir_cluster (S (root_sector fs)) i) \<noteq> fat_sector fs"
      using claim_keeps_owner(2) [OF assms(1,2) own] free_cluster_data [OF assms(1,2)] volume_wfD(1) [OF assms(1)]
      by (simp_all add: owns_cluster_def geometry_simps)
    then have "claim_cluster fs c data n S (sector_of fs (dir_cluster (S (root_sector fs)) i))
        = S (sector_of fs (dir_cluster (S (root_sector fs)) i))"
      by (simp add: claim_cluster_def)
    with Some show ?thesis by (simp add: file_of_def Let_def claimed_sectors [OF assms(1,2)])
  qed (simp add: file_of_def claimed_sectors [OF assms(1,2)] Some)
qed

lemma live_stored:
  assumes "length b = 512" "usable_name t" "i < 16" "j < 16"
  shows "live (overwrite b (32 * i) (new_entry t c n)) j \<longleftrightarrow> j = i \<or> live b j"
  using assms stored_names [of b t i j c n] by (simp add: live_def usable_name_def)

lemma stored_cluster:
  assumes "length b = 512" "length t = 11" "i < 16" "j < 16"
  shows "dir_cluster (overwrite b (32 * i) (new_entry t c n)) j = (if j = i then c else dir_cluster b j)"
    "dir_file_size (overwrite b (32 * i) (new_entry t c n)) j = (if j = i then n else dir_file_size b j)"
  using assms stored_entry_fields [of b i t c n] other_entry_fields [of b i j "new_entry t c n"]
  by simp_all

lemma free_slot_data:
  assumes "free_slot_of fs S = Some i"
  shows "i < 16" "\<not> live (S (root_sector fs)) i" "\<forall>k<i. live (S (root_sector fs)) k"
    "find_free_slot (S (root_sector fs)) [0..<16] = Some i"
  using assms find_free_slot_SomeD [of "S (root_sector fs)" 16 i] by (auto simp: free_slot_of_def live_def)

lemma claim_free_slot:
  assumes "volume_wf fs cap S" "free_cluster_of fs S = Some c"
  shows "free_slot_of fs (claim_cluster fs c data n S) = free_slot_of fs S"
  using assms by (simp add: free_slot_of_def claimed_sectors)

text \<open>A new entry that owns its cluster keeps the directory sane.\<close>

lemma stored_directory_wf:
  assumes wf: "directory_wf fs fat b" and len: "length b = 512" "usable_name t"
    and slot: "find_free_slot b [0..<16] = Some i"
    and c: "data_cluster c" "c \<noteq> root_dir_cluster fs" "fat_entry fat (unat c) \<noteq> 0"
    "\<forall>j<16. live b j \<longrightarrow> dir_cluster b j \<noteq> c"
  shows "directory_wf fs fat (overwrite b (32 * i) (new_entry t c n))"
proof -
  let ?b = "overwrite b (32 * i) (new_entry t c n)"
  note i = find_free_slot_SomeD [OF slot]
  have t: "length t = 11" "t ! 0 \<noteq> 0" using len(2) by (simp_all add: usable_name_def)
  note name0 = stored_names(2) [OF len(1) t(1) i(1)]
  have "dir_name0 ?b j = 0" if "j < 16" "k < j" "dir_name0 ?b k = 0" for j k
  proof -
    have "k \<noteq> i" "dir_name0 b k = 0" using that t(2) name0 [of k c n] by (auto split: if_splits)
    moreover from this have "i < k" using i(3) by (metis linorder_neqE_nat)
    ultimately show ?thesis using that wf name0 [of j c n] by (auto simp: directory_wf_def)
  qed
  moreover have "owns_cluster fs fat ?b j" if "j < 16" "live ?b j" "dir_cluster ?b j \<noteq> 0" for j
  proof (cases "j = i")
    case True
    then show ?thesis
      using c len t(1) i(1) by (auto simp: owns_cluster_def live_stored stored_cluster)
  next
    case False
    then have "owns_cluster fs fat b j" "dir_cluster b j \<noteq> c"
      using that wf c(4) len t(1) i(1) by (auto simp: directory_wf_def live_stored stored_cluster)
    with False that(1) show ?thesis
      using c len t(1) i(1) by (auto simp: owns_cluster_def live_stored stored_cluster)
  qed
  ultimately show ?thesis using wf by (auto simp: directory_wf_def)
qed

section \<open>What a write does to the files\<close>

definition shadowed :: "fat_fs \<Rightarrow> store \<Rightarrow> u8 list \<Rightarrow> bool" where
  "shadowed fs S t = (case (find_entry (S (root_sector fs)) t [0..<16], free_slot_of fs S) of
     (Some k, Some i) \<Rightarrow> k < i | _ \<Rightarrow> False)"

text \<open>
  The abstract write: the file is added under its name, unless there is no free cluster, no free
  directory slot, or an older entry of that name in front of the slot, which the readers keep finding.
\<close>

definition write_effect :: "fat_fs \<Rightarrow> store \<Rightarrow> u8 list \<Rightarrow> u32 \<times> u8 list \<Rightarrow> u8 list \<Rightarrow> (u32 \<times> u8 list) option" where
  "write_effect fs S t f =
     (if free_cluster_of fs S = None \<or> free_slot_of fs S = None \<or> shadowed fs S t
      then file_of fs S else (file_of fs S)(t \<mapsto> f))"

lemma usable_formatted: "usable_name (format_fat_name s) \<longleftrightarrow> format_fat_name s ! 0 \<noteq> 0xE5"
  using format_fat_name_nonzero [of s] by (auto simp: usable_name_def in_set_conv_nth)

lemma stored_sectors:
  fixes n :: u32 and data :: "u8 list"
  assumes "volume_wf fs cap S" "free_cluster_of fs S = Some c"
  defines "S1 \<equiv> claim_cluster fs c data n S"
  shows "add_entry fs i c t n S1 (root_sector fs) = overwrite (S (root_sector fs)) (32 * i) (new_entry t (of_nat c) n)"
    "s \<noteq> root_sector fs \<Longrightarrow> add_entry fs i c t n S1 s = S1 s"
    "add_entry fs i c t n S1 (fat_sector fs) = S1 (fat_sector fs)"
    "add_entry fs i c t n S1 (sector_of fs (of_nat c)) = data_sector_bytes n data"
  using claimed_sectors [OF assms(1,2)] volume_wfD(1) [OF assms(1)] free_cluster_data [OF assms(1,2)]
  by (simp_all add: add_entry_def S1_def geometry_simps)

lemma free_cluster_unowned:
  assumes "volume_wf fs cap S" "free_cluster_of fs S = Some c" "j < 16" "live (S (root_sector fs)) j"
  shows "dir_cluster (S (root_sector fs)) j \<noteq> of_nat c"
proof (cases "dir_cluster (S (root_sector fs)) j = 0")
  case True
  then show ?thesis using free_cluster_data(1) [OF assms(1,2)] by (auto simp: data_cluster_def)
next
  case False
  with assms(3,4) volume_wfD(3) [OF assms(1)] have "owns_cluster fs (S (fat_sector fs)) (S (root_sector fs)) j"
    by (simp add: directory_wf_def)
  then show ?thesis by (rule claim_keeps_owner(2) [OF assms(1,2)])
qed

lemma stored_volume_wf:
  assumes wf: "volume_wf fs cap S" and c: "free_cluster_of fs S = Some c" and i: "free_slot_of fs S = Some i"
    and t: "usable_name t"
  shows "volume_wf fs cap (add_entry fs i c t n (claim_cluster fs c data n S))"
proof -
  let ?S = "claim_cluster fs c data n S" and ?b = "S (root_sector fs)"
  have "directory_wf fs (?S (fat_sector fs)) (overwrite ?b (32 * i) (new_entry t (of_nat c) n))"
    using stored_directory_wf [OF claim_keeps_directory [OF wf c] _ t free_slot_data(4) [OF i]]
      volume_wfD(4) [OF wf] free_cluster_data [OF wf c] claimed_fat_entry [OF wf c] free_cluster_unowned [OF wf c]
    by simp
  moreover have "store_wf (add_entry fs i c t n ?S)"
    using t free_slot_data(1) [OF i] claimed_sectors [OF wf c] volume_wfD(4) [OF wf]
    by (simp add: add_entry_def usable_name_def)
  ultimately show ?thesis
    using volume_wfD(1) [OF wf] stored_sectors(1,3) [OF wf c] by (simp add: volume_wf_def)
qed

lemma stored_kept_file:
  fixes n :: u32 and data :: "u8 list"
  assumes wf: "volume_wf fs cap S" and c: "free_cluster_of fs S = Some c" and i: "free_slot_of fs S = Some i"
    and t: "usable_name t" and t': "usable_name t'"
  defines "S' \<equiv> add_entry fs i c t n (claim_cluster fs c data n S)"
  assumes found: "find_entry (S' (root_sector fs)) t' [0..<16] = find_entry (S (root_sector fs)) t' [0..<16]"
  shows "file_of fs S' t' = file_of fs S t'"
proof (cases "find_entry (S (root_sector fs)) t' [0..<16]")
  case None
  then show ?thesis using found by (simp add: file_of_def)
next
  case (Some k)
  let ?b = "S (root_sector fs)"
  have b: "length ?b = 512" by (rule volume_wfD(4) [OF wf])
  have "k < 16" "k \<noteq> i" using find_entry_live [OF b t' Some] free_slot_data(2) [OF i] by auto
  then have entry: "dir_cluster (S' (root_sector fs)) k = dir_cluster ?b k"
    "dir_file_size (S' (root_sector fs)) k = dir_file_size ?b k"
    using t free_slot_data(1) [OF i] b stored_cluster [of ?b t i k]
    by (simp_all add: S'_def stored_sectors [OF wf c] usable_name_def)
  show ?thesis
  proof (cases "dir_cluster ?b k = 0")
    case True
    then show ?thesis using found Some entry by (simp add: file_of_def)
  next
    case False
    have own: "owns_cluster fs (S (fat_sector fs)) ?b k" by (rule found_owns_cluster [OF wf t' Some False])
    then have "sector_of fs (dir_cluster ?b k) \<noteq> root_sector fs"
      using volume_wfD(1) [OF wf] by (simp add: owns_cluster_def geometry_simps)
    then have "S' (sector_of fs (dir_cluster ?b k)) = claim_cluster fs c data n S (sector_of fs (dir_cluster ?b k))"
      by (simp add: S'_def stored_sectors(2) [OF wf c])
    then have "file_of fs S' t' = file_of fs (claim_cluster fs c data n S) t'"
      using found Some entry by (simp add: file_of_def Let_def claimed_sectors [OF wf c])
    then show ?thesis using claim_keeps_files [OF wf c t'] by simp
  qed
qed

lemma stored_new_file:
  fixes n :: u32 and data :: "u8 list"
  assumes wf: "volume_wf fs cap S" and c: "free_cluster_of fs S = Some c" and i: "free_slot_of fs S = Some i"
    and t: "usable_name t"
  defines "S' \<equiv> add_entry fs i c t n (claim_cluster fs c data n S)"
  assumes found: "find_entry (S' (root_sector fs)) t [0..<16] = Some i"
  shows "file_of fs S' t = Some (n, data_sector_bytes n data)"
proof -
  have "dir_cluster (S' (root_sector fs)) i = of_nat c" "dir_file_size (S' (root_sector fs)) i = n"
    using t free_slot_data(1) [OF i] volume_wfD(4) [OF wf] stored_cluster [of "S (root_sector fs)" t i i]
    by (simp_all add: S'_def stored_sectors [OF wf c] usable_name_def)
  moreover have "(of_nat c :: u32) \<noteq> 0"
    using free_cluster_data(1) [OF wf c] by (auto simp: data_cluster_def)
  ultimately show ?thesis
    using found stored_sectors(4) [OF wf c] by (simp add: file_of_def Let_def S'_def)
qed

lemma write_ram_effect:
  assumes wf: "volume_wf fs cap S" and n: "min (unat n) 512 \<le> length data"
    and t: "usable_name (format_fat_name name)"
  shows "\<exists>S'. fs_write_file_content (ram_io cap) fs name data n S = Inr S' \<and> volume_wf fs cap S'
    \<and> (\<forall>t'. usable_name t' \<longrightarrow>
         file_of fs S' t' = write_effect fs S (format_fat_name name) (n, data_sector_bytes n data) t')"
proof (cases "free_cluster_of fs S")
  case None
  then show ?thesis using wf by (simp add: write_ram [OF wf n] write_effect_def)
next
  case c: (Some c)
  show ?thesis
  proof (cases "free_slot_of fs S")
    case None
    then show ?thesis
      using c claim_keeps_volume [OF wf c] claim_keeps_files [OF wf c]
      by (simp add: write_ram [OF wf n] write_effect_def)
  next
    case i: (Some i)
    let ?t = "format_fat_name name" and ?b = "S (root_sector fs)"
    let ?S' = "add_entry fs i c ?t n (claim_cluster fs c data n S)"
    note slot = free_slot_data [OF i]
    have t0: "length ?b = 512" "length ?t = 11" "?t ! 0 \<noteq> 0" "?t ! 0 \<noteq> 0xE5"
      using t volume_wfD(4) [OF wf] by (simp_all add: usable_name_def)
    note same = find_entry_stored_same [OF t0 slot(4)]
    have "file_of fs ?S' t' = write_effect fs S ?t (n, data_sector_bytes n data) t'" if t': "usable_name t'" for t'
    proof (cases "t' = ?t \<and> \<not> shadowed fs S ?t")
      case True
      then have "find_entry (?S' (root_sector fs)) ?t [0..<16] = Some i"
        using same i by (auto simp: stored_sectors [OF wf c] shadowed_def split: option.splits)
      then show ?thesis using True c i stored_new_file [OF wf c i t] by (simp add: write_effect_def)
    next
      case False
      then have "find_entry (?S' (root_sector fs)) t' [0..<16] = find_entry ?b t' [0..<16]"
        using same i find_entry_stored_other [OF t0(1-3) slot(4)] volume_wfD(3) [OF wf] t'
        by (cases "t' = ?t") (auto simp: stored_sectors [OF wf c] shadowed_def directory_wf_def usable_name_def
            split: option.splits)
      then show ?thesis using False stored_kept_file [OF wf c i t t'] by (auto simp: write_effect_def)
    qed
    then show ?thesis using c i stored_volume_wf [OF wf c i t] by (simp add: write_ram [OF wf n])
  qed
qed

end
