(* ===== verification/Fat32_Append.thy ===== *)
theory Fat32_Append
  imports Fat32_Files
begin

text \<open>
  Appending to a file of one cluster, and reading back, over a map of sectors: the bytes go to
  offset \<open>size mod 512\<close> of the cluster's first sector and the entry's size grows by what was stored.
\<close>

section \<open>The searches of readers and writers agree\<close>

lemma find_entry_all_NoneD: "find_entry_all b t is = None \<Longrightarrow> j \<in> set is \<Longrightarrow> dir_name b j \<noteq> t"
  by (induction "is") (auto split: if_splits)

lemma find_entry_all_Some_split:
  "find_entry_all b t is = Some i \<Longrightarrow> \<exists>xs ys. is = xs @ i # ys \<and> dir_name b i = t \<and> (\<forall>k \<in> set xs. dir_name b k \<noteq> t)"
proof (induction "is")
  case (Cons j js)
  show ?case
  proof (cases "dir_name b j = t")
    case True
    with Cons.prems show ?thesis by (intro exI [of _ "[]"] exI [of _ js]) auto
  next
    case False
    with Cons obtain xs ys where "js = xs @ i # ys" "dir_name b i = t" "\<forall>k \<in> set xs. dir_name b k \<noteq> t" by auto
    with False show ?thesis by (intro exI [of _ "j # xs"] exI [of _ ys]) auto
  qed
qed simp

lemma find_entry_all_eq:
  assumes len: "length b = 512" and t: "usable_name t"
    and tail: "\<forall>j<16. \<forall>i<j. dir_name0 b i = 0 \<longrightarrow> dir_name0 b j = 0"
  shows "find_entry_all b t [0..<16] = find_entry b t [0..<16]"
proof (cases "find_entry_all b t [0..<16]")
  case None
  then have "find_entry b t [0..<16] \<noteq> Some k" for k
    using find_entry_to_all [of b t "[0..<16]" k] by auto
  with None show ?thesis by (metis not_None_eq)
next
  case (Some i)
  obtain xs ys where split: "[0..<16] = xs @ i # ys" "dir_name b i = t" "\<forall>k \<in> set xs. dir_name b k \<noteq> t"
    using find_entry_all_Some_split [OF Some] by blast
  note i = upt_splitD [OF split(1)]
  have "dir_name0 b i \<noteq> 0" using split(2) t i len dir_name0_name [of b i] by (auto simp: usable_name_def)
  then have "dir_name0 b j \<noteq> 0" if "j \<le> i" for j
    using that tail i by (metis le_neq_implies_less)
  then have "find_entry b t [0..<16] = Some i"
    using i split(2,3) unfolding find_entry_Some_iff by auto
  with Some show ?thesis by simp
qed

section \<open>Changing the size of an entry\<close>

lemma put_size_nth:
  assumes "length b = 512" "i < 16" "k < 512" "k < 32 * i + 28 \<or> 32 * i + 32 \<le> k"
  shows "put32 b (32 * i + 28) v ! k = b ! k"
  using assms by (auto simp: put32_def nth_overwrite)

lemma put_size_fields:
  assumes "length b = 512" "i < 16" "j < 16"
  shows "dir_name (put32 b (32 * i + 28) v) j = dir_name b j"
    "dir_name0 (put32 b (32 * i + 28) v) j = dir_name0 b j"
    "dir_cluster (put32 b (32 * i + 28) v) j = dir_cluster b j"
    "dir_file_size (put32 b (32 * i + 28) v) j = (if j = i then v else dir_file_size b j)"
proof -
  have apart: "32 * j + k < 32 * i + 28 \<or> 32 * i + 32 \<le> 32 * j + k" if "k < 28" for k
    using that by (cases "j < i"; cases "j = i") auto
  have nth: "put32 b (32 * i + 28) v ! (32 * j + k) = b ! (32 * j + k)" if "k < 28" for k
    using apart [OF that] that assms by (intro put_size_nth) auto
  show "dir_name (put32 b (32 * i + 28) v) j = dir_name b j"
    unfolding dir_name_def using nth assms by (intro nth_equalityI) auto
  show "dir_name0 (put32 b (32 * i + 28) v) j = dir_name0 b j"
    using nth [of 0] by (simp add: dir_name0_def)
  show "dir_cluster (put32 b (32 * i + 28) v) j = dir_cluster b j"
    using nth [of 20] nth [of 21] nth [of 26] nth [of 27]
    by (simp add: dir_cluster_def get16_def add.commute)
  show "dir_file_size (put32 b (32 * i + 28) v) j = (if j = i then v else dir_file_size b j)"
  proof (cases "j = i")
    case True
    then show ?thesis using assms by (simp add: dir_file_size_def bytes_simps)
  next
    case False
    then have "32 * j + 28 + 4 \<le> 32 * i + 28 \<or> 32 * i + 28 + 4 \<le> 32 * j + 28" by (cases "j < i") auto
    with False show ?thesis using assms by (simp add: dir_file_size_def put32_def bytes_simps)
  qed
qed

lemma find_entry_put_size:
  assumes "length b = 512" "i < 16"
  shows "find_entry (put32 b (32 * i + 28) v) t [0..<16] = find_entry b t [0..<16]"
  using put_size_fields [OF assms] by (intro find_entry_cong) auto

lemma put_size_directory_wf:
  assumes "length b = 512" "i < 16" "directory_wf fs fat b"
  shows "directory_wf fs fat (put32 b (32 * i + 28) v)"
  using assms(3) put_size_fields [OF assms(1,2)]
  by (auto simp: directory_wf_def owns_cluster_def live_def)

section \<open>The append over a map of sectors\<close>

text \<open>
  The file of this name is one cluster: its FAT entry does not lead on. Every file the kernel
  writes is one.
\<close>

definition single_cluster :: "fat_fs \<Rightarrow> store \<Rightarrow> u8 list \<Rightarrow> bool" where
  "single_cluster fs S t = (case find_entry (S (root_sector fs)) t [0..<16] of
     None \<Rightarrow> False
   | Some i \<Rightarrow> let e = fat_entry (S (fat_sector fs)) (unat (dir_cluster (S (root_sector fs)) i))
      in dir_cluster (S (root_sector fs)) i \<noteq> 0 \<and> \<not> (2 \<le> e \<and> e < 0x0FFFFFF8))"

definition append_count :: "u32 \<Rightarrow> u32 \<Rightarrow> u32" where
  "append_count old_size n = (if n < 512 - old_size mod 512 then n else 512 - old_size mod 512)"

definition append_effect :: "u32 \<Rightarrow> u8 list \<Rightarrow> u32 \<times> u8 list \<Rightarrow> u32 \<times> u8 list" where
  "append_effect n data f = (let k = append_count (fst f) n
     in (fst f + k, overwrite (snd f) (unat (fst f mod 512)) (take (unat k) data)))"

lemma fat_walk_single:
  "unat c < 128 \<Longrightarrow> \<not> (2 \<le> fat_entry b (unat c) \<and> fat_entry b (unat c) < 0x0FFFFFF8)
    \<Longrightarrow> fat_walk b m c g = Inr (Some c)"
  by (subst fat_walk.simps) auto

lemma append_ram_new:
  assumes "volume_wf fs cap S" "usable_name (format_fat_name name)" "\<not> name_taken fs S (format_fat_name name)"
  shows "fs_append_file_content (ram_io cap) fs name data n S = fs_write_file_content (ram_io cap) fs name data n S"
proof -
  have "find_entry_all (S (root_sector fs)) (format_fat_name name) [0..<16] = None"
    using assms volume_wfD [OF assms(1)]
    by (subst find_entry_all_eq) (auto simp: directory_wf_def name_taken_def)
  moreover have "unat (root_sector fs) < cap" using volume_wfD(1) [OF assms(1)] by (simp add: geometry_simps)
  ultimately show ?thesis by (simp add: fs_append_file_content_def ram_io_simps)
qed

lemma append_ram:
  assumes wf: "volume_wf fs cap S" and t: "usable_name (format_fat_name name)"
    and one: "single_cluster fs S (format_fat_name name)"
    and f: "file_of fs S (format_fat_name name) = Some f" and n: "unat (append_count (fst f) n) \<le> length data"
  obtains i where "find_entry (S (root_sector fs)) (format_fat_name name) [0..<16] = Some i"
    "owns_cluster fs (S (fat_sector fs)) (S (root_sector fs)) i"
    "fs_append_file_content (ram_io cap) fs name data n S = Inr
      (S(sector_of fs (dir_cluster (S (root_sector fs)) i) := snd (append_effect n data f),
         root_sector fs := put32 (S (root_sector fs)) (32 * i + 28) (fst (append_effect n data f))))"
proof -
  let ?b = "S (root_sector fs)" and ?t = "format_fat_name name"
  obtain i where i: "find_entry ?b ?t [0..<16] = Some i" "dir_cluster ?b i \<noteq> 0"
    "f = (dir_file_size ?b i, S (sector_of fs (dir_cluster ?b i)))"
    using f by (auto simp: file_of_def Let_def split: option.splits if_splits)
  have own: "owns_cluster fs (S (fat_sector fs)) ?b i" by (rule found_owns_cluster [OF wf t i(1,2)])
  have all: "find_entry_all ?b ?t [0..<16] = Some i"
    using i(1) t volume_wfD [OF wf] by (subst find_entry_all_eq) (auto simp: directory_wf_def)
  have walk: "fat_walk (S (fat_sector fs)) m (dir_cluster ?b i) 0 = Inr (Some (dir_cluster ?b i))" for m
    using own one i(1) by (intro fat_walk_single) (auto simp: owns_cluster_def data_cluster_def single_cluster_def Let_def)
  have bounds: "unat (root_sector fs) < cap" "unat (fat_sector fs) < cap"
    "unat (sector_of fs (dir_cluster ?b i)) < cap" "sector_of fs (dir_cluster ?b i) \<noteq> root_sector fs"
    using volume_wfD(1) [OF wf] own by (simp_all add: owns_cluster_def geometry_simps)
  have "fs_append_file_content (ram_io cap) fs name data n S = Inr
      (S(sector_of fs (dir_cluster ?b i) := snd (append_effect n data f),
         root_sector fs := put32 ?b (32 * i + 28) (fst (append_effect n data f))))"
    using bounds all walk n i(3)
    by (simp add: fs_append_file_content_def Let_def ram_io_simps append_effect_def append_count_def
        flip: fat_sector_def sector_of_def)
  with that i(1) own show ?thesis by blast
qed

lemma length_append_effect: "length (snd f) = 512 \<Longrightarrow> length (snd (append_effect n data f)) = 512"
  by (simp add: append_effect_def append_count_def Let_def length_append_sector)

lemma append_ram_effect:
  assumes wf: "volume_wf fs cap S" and t: "usable_name (format_fat_name name)"
    and one: "single_cluster fs S (format_fat_name name)"
    and f: "file_of fs S (format_fat_name name) = Some f" and n: "unat (append_count (fst f) n) \<le> length data"
  shows "\<exists>S'. fs_append_file_content (ram_io cap) fs name data n S = Inr S' \<and> volume_wf fs cap S'
    \<and> single_cluster fs S' (format_fat_name name)
    \<and> (\<forall>t'. usable_name t' \<longrightarrow>
         file_of fs S' t' = ((file_of fs S)(format_fat_name name \<mapsto> append_effect n data f)) t')"
proof -
  let ?b = "S (root_sector fs)" and ?t = "format_fat_name name"
  obtain i where i: "find_entry ?b ?t [0..<16] = Some i" "owns_cluster fs (S (fat_sector fs)) ?b i"
    and run: "fs_append_file_content (ram_io cap) fs name data n S = Inr
      (S(sector_of fs (dir_cluster ?b i) := snd (append_effect n data f),
         root_sector fs := put32 ?b (32 * i + 28) (fst (append_effect n data f))))" (is "_ = Inr ?S'")
    using append_ram [OF wf t one f n] by blast
  let ?s = "sector_of fs (dir_cluster ?b i)" and ?b' = "put32 ?b (32 * i + 28) (fst (append_effect n data f))"
  have len: "length ?b = 512" "length (snd f) = 512" "i < 16"
    using volume_wfD(4) [OF wf] f find_entry_live [OF _ t i(1)]
    by (auto simp: file_of_def Let_def split: option.splits if_splits)
  have apart: "?s \<noteq> root_sector fs" "?s \<noteq> fat_sector fs" "fat_sector fs \<noteq> root_sector fs"
    using volume_wfD(1) [OF wf] i(2) by (simp_all add: owns_cluster_def geometry_simps)
  have S': "?S' (root_sector fs) = ?b'" "?S' (fat_sector fs) = S (fat_sector fs)"
    "\<And>s. s \<noteq> root_sector fs \<Longrightarrow> s \<noteq> ?s \<Longrightarrow> ?S' s = S s" "?S' ?s = snd (append_effect n data f)"
    using apart by simp_all
  note fields = put_size_fields [OF len(1,3)] and same = find_entry_put_size [OF len(1,3)]
  have wf': "volume_wf fs cap ?S'"
    using volume_wfD [OF wf] put_size_directory_wf [OF len(1,3)] S'(2) apart length_append_effect [OF len(2)] len
    by (simp add: volume_wf_def length_put_size)
  have files: "file_of fs ?S' t' = ((file_of fs S)(?t \<mapsto> append_effect n data f)) t'" if t': "usable_name t'" for t'
  proof (cases "find_entry ?b t' [0..<16]")
    case None
    then show ?thesis using i(1) by (auto simp: file_of_def Let_def same)
  next
    case (Some k)
    note k = find_entry_live [OF len(1) t' Some]
    show ?thesis
    proof (cases "k = i \<or> dir_cluster ?b k = 0")
      case True
      then show ?thesis
        using Some i k find_entry_live [OF len(1) t i(1)] apart(1) fields
        by (auto simp: file_of_def Let_def same owns_cluster_def data_cluster_def)
    next
      case False
      then have own: "owns_cluster fs (S (fat_sector fs)) ?b k" using found_owns_cluster [OF wf t' Some] by simp
      then have "sector_of fs (dir_cluster ?b k) \<noteq> root_sector fs" "sector_of fs (dir_cluster ?b k) \<noteq> ?s"
        using volume_wfD(1) [OF wf] i(2) False k find_entry_live [OF len(1) t i(1)]
        by (auto simp: owns_cluster_def geometry_simps)
      then show ?thesis
        using Some k False i(1) fields by (auto simp: file_of_def Let_def same)
    qed
  qed
  have "single_cluster fs ?S' ?t"
    using one i(1) fields len(3) S'(2) apart by (simp add: single_cluster_def Let_def same)
  with run wf' files show ?thesis by blast
qed

section \<open>Reading back\<close>

lemma read_ram:
  assumes wf: "volume_wf fs cap S" and t: "usable_name (format_fat_name name)"
  shows "fs_read_file_content (ram_io cap) fs name buffer m S = (case file_of fs S (format_fat_name name) of
      None \<Rightarrow> if length buffer \<le> 16 then Inl OutOfBounds
        else Inr (overwrite (overwrite buffer 0 (take (unat (m - 1)) (lit ''File not found.\<newline>''))) 16 [0], S)
    | Some f \<Rightarrow> let k = min (unat (fst f)) (unat (m - 1))
        in if 512 < k \<or> length buffer \<le> k then Inl OutOfBounds
           else Inr (overwrite buffer 0 (take k (snd f) @ [0]), S))"
proof -
  let ?b = "S (root_sector fs)" and ?t = "format_fat_name name"
  have root: "unat (root_sector fs) < cap" using volume_wfD(1) [OF wf] by (simp add: geometry_simps)
  have pick: "unat (if a < b then a else b) = min (unat a) (unat (b :: u32))" for a b
    by (auto simp: word_less_nat_alt)
  show ?thesis
  proof (cases "find_entry ?b ?t [0..<16]")
    case None
    then show ?thesis using root by (simp add: fs_read_file_content_def ram_io_simps file_of_def)
  next
    case (Some i)
    show ?thesis
    proof (cases "dir_cluster ?b i = 0")
      case True
      then show ?thesis using root Some by (simp add: fs_read_file_content_def ram_io_simps file_of_def)
    next
      case False
      then have "unat (sector_of fs (dir_cluster ?b i)) < cap"
        using found_owns_cluster [OF wf t Some] volume_wfD(1) [OF wf]
        by (simp add: owns_cluster_def geometry_simps)
      then show ?thesis
        using root Some False
        by (simp add: fs_read_file_content_def ram_io_simps file_of_def Let_def pick flip: sector_of_def)
    qed
  qed
qed

end
