(* ===== verification/Fat32_Properties.thy ===== *)
theory Fat32_Properties
  imports Fat32_Append
begin

text \<open>
  The file system's promises over any device with the block contract: writing, appending, reading
  back, the directory listing and the chain walk, and where the code breaks the promise its callers
  rely on.
\<close>

section \<open>An empty volume, for the concrete instances\<close>

definition tiny_fs :: fat_fs where
  "tiny_fs = \<lparr>bytes_per_cluster = 512, fat_start_sector = 1, data_start_sector = 2, root_dir_cluster = 2,
     max_valid_clusters = 126\<rparr>"

definition tiny_disk :: store where
  "tiny_disk = (\<lambda>_. replicate 512 0)(1 := put32 (replicate 512 0) 8 0x0FFFFFFF)"

interpretation ram: block_device "ram_io cap" store_wf "\<lambda>S. S" cap
  by unfold_locales (auto simp: ram_io_simps ram_io_def)

lemma ram_device: "block_device (ram_io 200) store_wf (\<lambda>S. S) 200"
  by (rule ram.block_device_axioms)

lemma tiny_ok: "store_wf tiny_disk"
  by (simp add: store_wf_def tiny_disk_def)

lemma tiny_sectors [simp]:
  "fat_sector tiny_fs = 1" "root_sector tiny_fs = 2"
  "tiny_disk 1 = put32 (replicate 512 0) 8 0x0FFFFFFF" "tiny_disk 2 = replicate 512 0"
  by (simp_all add: fat_sector_def root_sector_def cluster_to_sector_def tiny_fs_def tiny_disk_def)

lemma fat_entry_tiny: "k < 128 \<Longrightarrow> fat_entry (tiny_disk 1) k = (if k = 2 then 0x0FFFFFFF else 0)"
  using fat_entry_put [of "replicate 512 0" 2 k "0x0FFFFFFF"]
  by (auto simp: fat_entry_def get32_def)

lemma tiny_volume: "volume_wf tiny_fs 200 tiny_disk"
proof -
  have "geometry tiny_fs 200" by (simp add: geometry_def tiny_fs_def sectors_per_cluster_def)
  moreover have "store_wf tiny_disk" by (simp add: store_wf_def tiny_disk_def)
  moreover have "directory_wf tiny_fs (tiny_disk 1) (tiny_disk 2)"
    using fat_entry_tiny [of 2] by (simp add: directory_wf_def live_def dir_name0_def tiny_fs_def)
  ultimately show ?thesis by (simp add: volume_wf_def)
qed

lemma fat_indices_tiny: "find_free_cluster (tiny_disk 1) fat_indices = Some 3"
  by (simp add: fat_indices_def fat_entry_tiny del: tiny_sectors)

lemma tiny_free: "free_cluster_of tiny_fs tiny_disk = Some 3" "free_slot_of tiny_fs tiny_disk = Some 0"
  using fat_indices_tiny
  by (simp_all add: free_cluster_of_def free_slot_of_def upt_conv_Cons dir_name0_def)

lemma tiny_no_file: "file_of tiny_fs tiny_disk t = None" "\<not> name_taken tiny_fs tiny_disk t" "\<not> shadowed tiny_fs tiny_disk t"
  by (simp_all add: file_of_def name_taken_def shadowed_def upt_conv_Cons dir_name0_def)

lemma usable_lit: "usable_name (format_fat_name (lit ''A.TXT''))" "usable_name (format_fat_name (lit ''LEDGER.LOG''))"
  by (simp_all add: usable_name_def format_fat_name_def lit_def cstr_def overwrite_def to_upper_def)

text \<open>The same volume with one file \<^verbatim>\<open>A.TXT\<close>, as the kernel writes it.\<close>

definition tiny_with :: "u32 \<Rightarrow> u8 list \<Rightarrow> store" where
  "tiny_with n data = add_entry tiny_fs 0 3 (format_fat_name (lit ''A.TXT'')) n (claim_cluster tiny_fs 3 data n tiny_disk)"

lemma tiny_with_volume: "volume_wf tiny_fs 200 (tiny_with n data)" "store_wf (tiny_with n data)"
  using stored_volume_wf [OF tiny_volume tiny_free usable_lit(1), of n data]
  by (simp_all add: tiny_with_def volume_wfD)

lemma tiny_with_found: "find_entry (tiny_with n data 2) (format_fat_name (lit ''A.TXT'')) [0..<16] = Some 0"
proof -
  have "find_free_slot (tiny_disk 2) [0..<16] = Some 0" by (simp add: upt_conv_Cons dir_name0_def)
  moreover have "find_entry (tiny_disk 2) t [0..<16] = None" for t
    by (simp add: upt_conv_Cons dir_name0_def)
  moreover have "tiny_with n data 2 = overwrite (tiny_disk 2) (32 * 0) (new_entry (format_fat_name (lit ''A.TXT'')) 3 n)"
    using stored_sectors(1) [OF tiny_volume tiny_free(1), of 0 "format_fat_name (lit ''A.TXT'')" n data]
    by (simp add: tiny_with_def)
  ultimately show ?thesis
    using find_entry_stored_same [of "tiny_disk 2" "format_fat_name (lit ''A.TXT'')" 0 3 n] usable_lit(1)
    by (simp add: usable_name_def)
qed

lemma tiny_with_file: "file_of tiny_fs (tiny_with n data) (format_fat_name (lit ''A.TXT'')) = Some (n, data_sector_bytes n data)"
  using stored_new_file [OF tiny_volume tiny_free usable_lit(1)] tiny_with_found [of n data]
  by (simp add: tiny_with_def)

lemma tiny_with_single: "single_cluster tiny_fs (tiny_with n data) (format_fat_name (lit ''A.TXT''))"
proof -
  have "dir_cluster (tiny_with n data 2) 0 = 3"
    using stored_sectors(1) [OF tiny_volume tiny_free(1), of 0 "format_fat_name (lit ''A.TXT'')" n data]
      stored_cluster(1) [of "tiny_disk 2" "format_fat_name (lit ''A.TXT'')" 0 0 3 n]
    by (simp add: tiny_with_def)
  moreover have "fat_entry (tiny_with n data 1) 3 = 0x0FFFFFFF"
    using stored_sectors(3) [OF tiny_volume tiny_free(1)] claimed_fat_entry [OF tiny_volume tiny_free(1), of 3]
    by (simp add: tiny_with_def)
  ultimately show ?thesis by (simp add: single_cluster_def tiny_with_found)
qed

section \<open>Writing and appending\<close>

lemma file_bytes_sector: "unat n \<le> 512 \<Longrightarrow> unat n \<le> length data \<Longrightarrow> file_bytes (n, data_sector_bytes n data) = take (unat n) data"
  by (auto simp: file_bytes_def data_sector_bytes_def overwrite_zero word_less_nat_alt)

text \<open>What a call does over the map of sectors it does over the device.\<close>

lemma write_device:
  assumes "block_device io ok sec cap" "ok d" "fs_write_file_content (ram_io cap) fs name data n (sec d) = Inr S'"
  obtains d' where "fs_write_file_content io fs name data n d = Inr d'" "ok d'" "sec d' = S'"
  using block_device.simulates_InrD [OF assms(1)] block_device.fs_write_sim [OF assms(1,2)] assms(3) by metis

lemma append_device:
  assumes "block_device io ok sec cap" "ok d" "fs_append_file_content (ram_io cap) fs name data n (sec d) = Inr S'"
  obtains d' where "fs_append_file_content io fs name data n d = Inr d'" "ok d'" "sec d' = S'"
  using block_device.simulates_InrD [OF assms(1)] block_device.fs_append_sim [OF assms(1,2)] assms(3) by metis

lemma read_device:
  assumes "block_device io ok sec cap" "ok d" "fs_read_file_content (ram_io cap) fs name buffer m (sec d) = Inr (r, S')"
  obtains d' where "fs_read_file_content io fs name buffer m d = Inr (r, d')" "ok d'" "sec d' = S'"
  using block_device.simulates_val_InrD [OF assms(1)] block_device.fs_read_sim [OF assms(1,2)] assms(3) by metis

text \<open>Reading a file that fits the sector and the caller's buffer.\<close>

lemma read_file_device:
  assumes "block_device io ok sec cap" "ok d" "volume_wf fs cap (sec d)" "usable_name (format_fat_name name)"
    "file_of fs (sec d) (format_fat_name name) = Some f" "unat (fst f) \<le> 512" "unat (fst f) < unat m"
    "unat m \<le> length buffer"
  obtains d' where "fs_read_file_content io fs name buffer m d = Inr (overwrite buffer 0 (file_bytes f @ [0]), d')"
    "ok d'" "sec d' = sec d"
proof -
  have "unat (m - 1) = unat m - 1"
    using assms(7) by (simp add: unat_sub word_le_nat_alt)
  then have "min (unat (fst f)) (unat (m - 1)) = unat (fst f)" using assms(7) by simp
  then have "fs_read_file_content (ram_io cap) fs name buffer m (sec d) =
      Inr (overwrite buffer 0 (file_bytes f @ [0]), sec d)"
    using assms(5-8) by (simp add: read_ram [OF assms(3,4)] file_bytes_def Let_def)
  then show ?thesis using read_device [OF assms(1,2)] that by metis
qed

lemma write_device_effect:
  assumes "block_device io ok sec cap" "ok d" "volume_wf fs cap (sec d)"
    "usable_name (format_fat_name name)" "min (unat n) 512 \<le> length data"
  obtains d' where "fs_write_file_content io fs name data n d = Inr d'" "ok d'" "volume_wf fs cap (sec d')"
    "\<And>t. usable_name t \<Longrightarrow> file_of fs (sec d') t
       = write_effect fs (sec d) (format_fat_name name) (n, data_sector_bytes n data) t"
  using write_ram_effect [OF assms(3,5,4)] write_device [OF assms(1,2)] by metis

lemma append_device_effect:
  assumes "block_device io ok sec cap" "ok d" "volume_wf fs cap (sec d)"
    "usable_name (format_fat_name name)" "single_cluster fs (sec d) (format_fat_name name)"
    "file_of fs (sec d) (format_fat_name name) = Some f" "unat (append_count (fst f) n) \<le> length data"
  obtains d' where "fs_append_file_content io fs name data n d = Inr d'" "ok d'" "volume_wf fs cap (sec d')"
    "single_cluster fs (sec d') (format_fat_name name)"
    "\<And>t. usable_name t \<Longrightarrow> file_of fs (sec d') t
       = ((file_of fs (sec d))(format_fat_name name \<mapsto> append_effect n data f)) t"
  using append_ram_effect [OF assms(3-7)] append_device [OF assms(1,2)] by metis

text \<open>
  C3: over any block device, \<^verbatim>\<open>fs_write_file_content\<close> on a sane volume returns, keeps the volume
  sane, and changes the map of readable files by the abstract write: the file is added under its
  8.3 name, or nothing changes when no cluster or slot is free or an older entry has the name.
\<close>

theorem fs_write_refines_file_map:
  assumes "block_device io ok sec cap" "ok d" "volume_wf fs cap (sec d)"
    "usable_name (format_fat_name name)" "min (unat n) 512 \<le> length data"
  shows "\<exists>d'. fs_write_file_content io fs name data n d = Inr d' \<and> ok d' \<and> volume_wf fs cap (sec d')
    \<and> (\<forall>t. usable_name t \<longrightarrow> file_of fs (sec d') t
         = write_effect fs (sec d) (format_fat_name name) (n, data_sector_bytes n data) t)"
  using write_device_effect [OF assms] by metis

theorem fs_write_refines_file_map_witness:
  "\<exists>d'. fs_write_file_content (ram_io 200) tiny_fs (lit ''A.TXT'') (lit ''hi'') 2 tiny_disk = Inr d'
    \<and> file_of tiny_fs d' (format_fat_name (lit ''A.TXT'')) = Some (2, data_sector_bytes 2 (lit ''hi''))"
proof -
  note run = fs_write_refines_file_map [OF ram_device, OF tiny_ok tiny_volume usable_lit(1), of 2 "lit ''hi''"]
  show ?thesis
    using run usable_lit(1) by (auto simp: write_effect_def tiny_free tiny_no_file)
qed

text \<open>
  C11: \<^verbatim>\<open>fs_append_file_content\<close> on a file of one cluster stores the bytes that fit behind
  \<open>size mod 512\<close> in its first sector, grows its size by them, and leaves every other file and the
  sanity of the volume alone.
\<close>

theorem fs_append_extends_file:
  assumes "block_device io ok sec cap" "ok d" "volume_wf fs cap (sec d)"
    "usable_name (format_fat_name name)" "single_cluster fs (sec d) (format_fat_name name)"
    "file_of fs (sec d) (format_fat_name name) = Some f" "unat (append_count (fst f) n) \<le> length data"
  shows "\<exists>d'. fs_append_file_content io fs name data n d = Inr d' \<and> ok d' \<and> volume_wf fs cap (sec d')
    \<and> single_cluster fs (sec d') (format_fat_name name)
    \<and> (\<forall>t. usable_name t \<longrightarrow> file_of fs (sec d') t
         = ((file_of fs (sec d))(format_fat_name name \<mapsto> append_effect n data f)) t)"
  using append_device_effect [OF assms] by metis

theorem fs_append_extends_file_witness:
  "\<exists>d'. fs_append_file_content (ram_io 200) tiny_fs (lit ''A.TXT'') (lit ''ho'') 2 (tiny_with 2 (lit ''hi'')) = Inr d'
    \<and> file_of tiny_fs d' (format_fat_name (lit ''A.TXT'')) = Some (append_effect 2 (lit ''ho'') (2, data_sector_bytes 2 (lit ''hi'')))"
  using fs_append_extends_file [OF ram_device, OF tiny_with_volume(2,1) usable_lit(1) tiny_with_single
      tiny_with_file [of 2 "lit ''hi''"], where n = 2 and data = "lit ''ho''"] usable_lit(1)
  by (auto simp: append_count_def)

text \<open>A file written under a free name reads back whole into a buffer that has room for it.\<close>

theorem fs_write_then_read:
  assumes "block_device io ok sec cap" "ok d" "volume_wf fs cap (sec d)"
    "usable_name (format_fat_name name)" "\<not> name_taken fs (sec d) (format_fat_name name)"
    "free_cluster_of fs (sec d) \<noteq> None" "free_slot_of fs (sec d) \<noteq> None"
    "unat n \<le> 512" "unat n \<le> length data" "unat n < unat m" "unat m \<le> length buffer"
  shows "\<exists>d' d''. fs_write_file_content io fs name data n d = Inr d'
    \<and> fs_read_file_content io fs name buffer m d' = Inr (overwrite buffer 0 (take (unat n) data @ [0]), d'')"
proof -
  have "min (unat n) 512 \<le> length data" using assms(9) by simp
  from write_device_effect [OF assms(1-4) this]
  obtain d' where d': "fs_write_file_content io fs name data n d = Inr d'" "ok d'" "volume_wf fs cap (sec d')"
    and f: "\<And>t. usable_name t \<Longrightarrow> file_of fs (sec d') t
      = write_effect fs (sec d) (format_fat_name name) (n, data_sector_bytes n data) t" by blast
  have "file_of fs (sec d') (format_fat_name name) = Some (n, data_sector_bytes n data)"
    using f [OF assms(4)] assms(5-7) by (auto simp: write_effect_def name_taken_def shadowed_def)
  from read_file_device [OF assms(1) d'(2,3) assms(4) this, of m buffer] d'(1) show ?thesis
    using assms(8-11) by (auto simp: file_bytes_sector)
qed

theorem fs_write_then_read_witness:
  "\<exists>d' d''. fs_write_file_content (ram_io 200) tiny_fs (lit ''A.TXT'') (lit ''hi'') 2 tiny_disk = Inr d'
    \<and> fs_read_file_content (ram_io 200) tiny_fs (lit ''A.TXT'') (replicate 64 7) 64 d'
        = Inr (lit ''hi'' @ 0 # replicate 61 7, d'')"
  using fs_write_then_read [OF ram_device, OF tiny_ok tiny_volume usable_lit(1), of 2 "lit ''hi''" 64 "replicate 64 7"]
  by (simp add: tiny_free tiny_no_file overwrite_zero)

lemma append_effect_bytes:
  assumes "unat (fst f) + unat n \<le> 512" "unat (fst f) < 512" "unat n \<le> length data" "length (snd f) = 512"
  shows "append_count (fst f) n = n" "fst (append_effect n data f) = fst f + n"
    "file_bytes (append_effect n data f) = file_bytes f @ take (unat n) data"
proof -
  have m: "unat (fst f mod 512) = unat (fst f)" using assms(2) by (simp add: unat_mod)
  then have "fst f mod 512 = fst f" by (simp add: word_unat_eq_iff)
  then have s: "unat (512 - fst f mod 512) = 512 - unat (fst f)"
    using assms(2) by (simp add: unat_sub word_le_nat_alt)
  then show k: "append_count (fst f) n = n"
    using assms(1) by (auto simp: append_count_def word_less_nat_alt word_unat_eq_iff)
  show e: "fst (append_effect n data f) = fst f + n" by (simp add: append_effect_def k)
  have "unat (fst f + n) = unat (fst f) + unat n"
    using assms(1) by (intro unat_add_lem [THEN iffD1]) simp
  then show "file_bytes (append_effect n data f) = file_bytes f @ take (unat n) data"
    using assms m take_overwrite_all [of "unat (fst f)" "snd f" "take (unat n) data"]
    by (auto simp: file_bytes_def append_effect_def k Let_def min_def split: if_splits)
qed

text \<open>Appended bytes that fit the file's sector read back behind the old ones.\<close>

theorem fs_append_then_read:
  assumes "block_device io ok sec cap" "ok d" "volume_wf fs cap (sec d)"
    "usable_name (format_fat_name name)" "single_cluster fs (sec d) (format_fat_name name)"
    "file_of fs (sec d) (format_fat_name name) = Some f"
    "unat (fst f) < 512" "unat (fst f) + unat n \<le> 512" "unat n \<le> length data"
    "unat (fst f) + unat n < unat m" "unat m \<le> length buffer"
  shows "\<exists>d' d''. fs_append_file_content io fs name data n d = Inr d'
    \<and> fs_read_file_content io fs name buffer m d'
        = Inr (overwrite buffer 0 (file_bytes f @ take (unat n) data @ [0]), d'')"
proof -
  have len: "length (snd f) = 512"
    using assms(6) volume_wfD(4) [OF assms(3)] by (auto simp: file_of_def Let_def split: option.splits if_splits)
  note e = append_effect_bytes [OF assms(8,7,9) len]
  have "unat (fst f + n) = unat (fst f) + unat n" using assms(8) by (intro unat_add_lem [THEN iffD1]) simp
  then have size: "unat (fst (append_effect n data f)) = unat (fst f) + unat n" by (simp add: e(2))
  have "unat (append_count (fst f) n) \<le> length data" using assms(9) by (simp add: e(1))
  from append_device_effect [OF assms(1-6) this]
  obtain d' where d': "fs_append_file_content io fs name data n d = Inr d'" "ok d'" "volume_wf fs cap (sec d')"
    and f': "\<And>t. usable_name t \<Longrightarrow> file_of fs (sec d') t
      = ((file_of fs (sec d))(format_fat_name name \<mapsto> append_effect n data f)) t" by blast
  have "file_of fs (sec d') (format_fat_name name) = Some (append_effect n data f)"
    using f' [OF assms(4)] by simp
  from read_file_device [OF assms(1) d'(2,3) assms(4) this, of m buffer] d'(1) show ?thesis
    using assms(8,10,11) size by (auto simp: e(3))
qed

theorem fs_append_then_read_witness:
  "\<exists>d' d''. fs_append_file_content (ram_io 200) tiny_fs (lit ''A.TXT'') (lit ''ho'') 2 (tiny_with 2 (lit ''hi'')) = Inr d'
    \<and> fs_read_file_content (ram_io 200) tiny_fs (lit ''A.TXT'') (replicate 64 7) 64 d'
        = Inr (lit ''hiho'' @ 0 # replicate 59 7, d'')"
  using fs_append_then_read [OF ram_device, OF tiny_with_volume(2,1) usable_lit(1) tiny_with_single
      tiny_with_file [of 2 "lit ''hi''"], where n = 2 and data = "lit ''ho''" and m = 64 and buffer = "replicate 64 7"]
  by (simp add: file_bytes_sector overwrite_zero lit_def)

section \<open>Where the promise breaks\<close>

lemma shadowed_after_write:
  assumes wf: "volume_wf fs cap S" and t: "usable_name t" and f: "file_of fs S t \<noteq> None"
    and old: "\<forall>i<16. dir_name0 (S (root_sector fs)) i \<noteq> 0xE5"
  shows "free_slot_of fs S = None \<or> shadowed fs S t"
proof (cases "free_slot_of fs S")
  case (Some i)
  obtain k where k: "find_entry (S (root_sector fs)) t [0..<16] = Some k"
    using f by (auto simp: file_of_def Let_def split: option.splits)
  have "k < 16" "live (S (root_sector fs)) k" using find_entry_live [OF volume_wfD(4) [OF wf] t k] by auto
  moreover have "dir_name0 (S (root_sector fs)) i = 0"
    using free_slot_data [OF Some] old by (auto simp: live_def)
  ultimately have "k < i"
    using volume_wfD(3) [OF wf] by (metis directory_wf_def linorder_neqE_nat live_def)
  then show ?thesis using k Some by (simp add: shadowed_def)
qed simp



text \<open>
  C37: with a full root directory a write takes a cluster for good and stores nothing: the FAT
  marks the cluster as used, no directory entry owns it, no file appears, and the call returns the
  same way as a successful one.
\<close>

theorem fs_write_full_directory_leaks:
  assumes "block_device io ok sec cap" "ok d" "volume_wf fs cap (sec d)" "min (unat n) 512 \<le> length data"
    "free_slot_of fs (sec d) = None" "free_cluster_of fs (sec d) = Some c"
  shows "\<exists>d'. fs_write_file_content io fs name data n d = Inr d'
    \<and> fat_entry (sec d (fat_sector fs)) c = 0 \<and> fat_entry (sec d' (fat_sector fs)) c = 0x0FFFFFFF
    \<and> sec d' (root_sector fs) = sec d (root_sector fs)
    \<and> (\<forall>i<16. live (sec d' (root_sector fs)) i \<longrightarrow> dir_cluster (sec d' (root_sector fs)) i \<noteq> of_nat c)
    \<and> (\<forall>t. usable_name t \<longrightarrow> file_of fs (sec d') t = file_of fs (sec d) t)"
proof -
  have "fs_write_file_content (ram_io cap) fs name data n (sec d) = Inr (claim_cluster fs c data n (sec d))"
    using assms(5,6) by (simp add: write_ram [OF assms(3,4)])
  from write_device [OF assms(1,2) this]
  obtain d' where "fs_write_file_content io fs name data n d = Inr d'" "sec d' = claim_cluster fs c data n (sec d)" .
  then show ?thesis
    using claimed_sectors(1) [OF assms(3,6)] claimed_fat_entry [OF assms(3,6)] free_cluster_data [OF assms(3,6)]
      free_cluster_unowned [OF assms(3,6)] claim_keeps_files [OF assms(3,6)]
    by simp
qed

text \<open>A full root directory: sixteen empty files.\<close>

definition full_root :: "u8 list" where
  "full_root = concat (replicate 16 (new_entry (replicate 11 65) 0 0))"

lemma nth_concat_replicate:
  "i < n \<Longrightarrow> j < length e \<Longrightarrow> concat (replicate n e) ! (length e * i + j) = e ! j"
proof (induction n arbitrary: i)
  case (Suc n)
  then show ?case by (cases i) (auto simp: nth_append algebra_simps)
qed simp

lemma full_root_nth: "i < 16 \<Longrightarrow> k < 32 \<Longrightarrow> full_root ! (32 * i + k) = new_entry (replicate 11 65) 0 0 ! k"
  using nth_concat_replicate [of i 16 k "new_entry (replicate 11 65) 0 0"] by (simp add: full_root_def)

lemma full_root_fields:
  assumes "i < 16"
  shows "dir_name0 full_root i = 65" "dir_cluster full_root i = 0" "length full_root = 512"
proof -
  have e: "new_entry (replicate 11 65) 0 0 = replicate 11 65 @ 32 # replicate 20 0"
    by (simp add: new_entry_def bytes16_def bytes32_def numeral_eq_Suc)
  have nth: "full_root ! (32 * i + k) = (replicate 11 65 @ 32 # replicate 20 0) ! k" if "k < 32" for k
    using full_root_nth [OF assms that] by (simp add: e)
  show "dir_name0 full_root i = 65" using nth [of 0] by (simp add: dir_name0_def nth_append)
  show "dir_cluster full_root i = 0"
    using nth [of 20] nth [of 21] nth [of 26] nth [of 27]
    by (simp add: dir_cluster_def get16_def nth_append add.commute)
  show "length full_root = 512" by (simp add: full_root_def length_concat sum_list_replicate)
qed

lemma full_root_volume:
  "volume_wf tiny_fs 200 (tiny_disk(2 := full_root))" "free_slot_of tiny_fs (tiny_disk(2 := full_root)) = None"
  "free_cluster_of tiny_fs (tiny_disk(2 := full_root)) = Some 3" "store_wf (tiny_disk(2 := full_root))"
proof -
  show "store_wf (tiny_disk(2 := full_root))" using full_root_fields(3) [of 0] tiny_ok by simp
  moreover have "directory_wf tiny_fs (tiny_disk 1) full_root"
    using fat_entry_tiny [of 2] full_root_fields by (simp add: directory_wf_def tiny_fs_def)
  ultimately show "volume_wf tiny_fs 200 (tiny_disk(2 := full_root))"
    using volume_wfD(1) [OF tiny_volume] by (simp add: volume_wf_def)
  show "free_slot_of tiny_fs (tiny_disk(2 := full_root)) = None"
    using full_root_fields(1) by (simp add: free_slot_of_def find_free_slot_None_iff)
  show "free_cluster_of tiny_fs (tiny_disk(2 := full_root)) = Some 3"
    using tiny_free(1) by (simp add: free_cluster_of_def)
qed

theorem fs_write_full_directory_leaks_witness:
  "\<exists>d'. fs_write_file_content (ram_io 200) tiny_fs (lit ''A.TXT'') (lit ''hi'') 2 (tiny_disk(2 := full_root)) = Inr d'
    \<and> fat_entry (d' 1) 3 = 0x0FFFFFFF \<and> d' 2 = full_root"
  using fs_write_full_directory_leaks [OF ram_device, OF full_root_volume(4,1) _ full_root_volume(2,3),
      where n = 2 and data = "lit ''hi''" and name = "lit ''A.TXT''"]
  by auto



end
