(* ===== verification/Fat32_Listing.thy ===== *)
theory Fat32_Listing
  imports Fat32_Properties
begin

text \<open>
  The directory listing, the 8.3 names, the mount and the FAT chain walk: what
  \<^verbatim>\<open>fs_get_dir_list\<close> leaves in the caller's buffer, what \<^verbatim>\<open>fs_fat32_init\<close> takes from the boot
  sector, and which chains the cycle guard of \<^verbatim>\<open>fs_append_file_content\<close> aborts.
\<close>

section \<open>The listing\<close>

definition dir_line :: "u8 list \<Rightarrow> u8 list" where
  "dir_line name = filter (\<lambda>c. c \<noteq> 32) (take 8 name)
     @ (if name ! 8 \<noteq> 32 then lit ''.'' @ filter (\<lambda>c. c \<noteq> 32) (take 3 (drop 8 name)) else []) @ [10]"

definition listed :: "u8 list \<Rightarrow> nat list \<Rightarrow> nat list" where
  "listed b is = filter (\<lambda>i. \<not> dir_skipped b i) (takeWhile (\<lambda>i. dir_name0 b i \<noteq> 0) is)"

lemma put_char_take: "put_char cap (take cap out) c = take cap (out @ [c])"
  by (cases "length out < cap") (auto simp: put_char_def)

lemma put_name_take:
  "fold (put_name_char cap) cs (take cap out) = take cap (out @ filter (\<lambda>c. c \<noteq> 32) cs)"
proof (induction cs arbitrary: out)
  case (Cons c cs)
  then show ?case
    using Cons.IH [of "out @ [c]"] Cons.IH [of out] by (simp add: put_name_char_def put_char_take)
qed simp

lemma put_ext_take:
  "(if P \<and> length (take cap out) < cap then fold (put_name_char cap) cs (take cap out @ lit ''.'') else take cap out)
    = take cap (out @ (if P then lit ''.'' @ filter (\<lambda>c. c \<noteq> 32) cs else []))"
proof (cases "P \<and> length (take cap out) < cap")
  case True
  then have "take cap out @ lit ''.'' = take cap (out @ lit ''.'')" by (auto simp: lit_def)
  with True show ?thesis using put_name_take [of cap cs "out @ lit ''.''"] by simp
next
  case False
  then show ?thesis by auto
qed

lemma put_entry_take: "put_entry cap name (take cap out) = take cap (out @ dir_line name)"
  unfolding put_entry_def Let_def put_name_take put_ext_take put_char_take dir_line_def
  by (simp del: take_append)

lemma dir_list_loop_take:
  "dir_list_loop cap b is (take cap out) = take cap (out @ concat (map (\<lambda>i. dir_line (dir_name b i)) (listed b is)))"
  by (induction "is" arbitrary: out) (auto simp: listed_def put_entry_take simp del: take_append)

lemma fs_get_dir_list_device:
  assumes "block_device io ok sec cap" "ok d" "fs_get_dir_list (ram_io cap) fs m (sec d) = Inr (r, S')"
  obtains d' where "fs_get_dir_list io fs m d = Inr (r, d')" "ok d'" "sec d' = S'"
  using block_device.simulates_val_InrD [OF assms(1)] block_device.fs_get_dir_list_sim [OF assms(1,2)] assms(3) by metis

text \<open>
  C27: \<^verbatim>\<open>fs_get_dir_list\<close> fills the buffer with one line \<^verbatim>\<open>NAME.EXT\<close> for each entry that is neither
  deleted nor a long-name piece, up to the end mark, cut to \<^verbatim>\<open>max_len - 1\<close> bytes, and a final NUL.
\<close>

theorem fs_get_dir_list_lines:
  assumes "block_device io ok sec cap" "ok d" "unat (root_sector fs) < cap"
  shows "\<exists>d'. fs_get_dir_list io fs max_len d =
      Inr (take (unat (max_len - 1)) (concat (map (\<lambda>i. dir_line (dir_name (sec d (root_sector fs)) i))
             (listed (sec d (root_sector fs)) [0..<16]))) @ [0], d') \<and> ok d' \<and> sec d' = sec d"
proof -
  have "fs_get_dir_list (ram_io cap) fs max_len (sec d) =
      Inr (take (unat (max_len - 1)) (concat (map (\<lambda>i. dir_line (dir_name (sec d (root_sector fs)) i))
             (listed (sec d (root_sector fs)) [0..<16]))) @ [0], sec d)"
    using assms(3) dir_list_loop_take [of _ _ _ "[]"] by (simp add: fs_get_dir_list_def ram_io_simps)
  from fs_get_dir_list_device [OF assms(1,2) this] show ?thesis by metis
qed

text \<open>Name parts without blanks, dots and NULs.\<close>

definition plain :: "u8 list \<Rightarrow> bool" where
  "plain s \<longleftrightarrow> s \<noteq> [] \<and> 0 \<notin> set s \<and> 32 \<notin> set s \<and> of_char (CHR ''.'') \<notin> set s"

lemma to_upper_blankD: "to_upper c = 32 \<Longrightarrow> c = 32"
proof (rule ccontr)
  assume c: "to_upper c = 32" "c \<noteq> 32"
  then have "97 \<le> c" "c - 32 = 32" by (auto simp: to_upper_def split: if_splits)
  then have "c = 64" by (metis diff_add_cancel numeral_Bit0)
  then show False using \<open>97 \<le> c\<close> by simp
qed

text \<open>An 8.3 name is listed the way it was written, in upper case.\<close>

theorem dir_line_format_fat_name:
  assumes "plain base" "plain ext" "length base \<le> 8" "length ext \<le> 3"
  shows "dir_line (format_fat_name (base @ lit ''.'' @ ext)) = map to_upper base @ lit ''.'' @ map to_upper ext @ [10]"
proof -
  let ?dot = "of_char (CHR ''.'') :: u8"
  have id: "cstr (base @ ?dot # ext) = base @ ?dot # ext"
    using assms(1,2) by (intro cstr_id) (auto simp: plain_def)
  have split: "takeWhile (\<lambda>c. c \<noteq> ?dot) (base @ ?dot # ext) = base" "dropWhile (\<lambda>c. c \<noteq> ?dot) (base @ ?dot # ext) = ?dot # ext"
    using assms(1) by (auto simp: plain_def takeWhile_append dropWhile_append)
  let ?b = "map to_upper base" and ?e = "map to_upper ext"
  have "format_fat_name (base @ ?dot # ext) = overwrite (overwrite (replicate 11 32) 0 ?b) 8 ?e"
    using assms(3,4) by (simp only: format_fat_name_def Let_def id split list.case take_all)
  also have "\<dots> = ?b @ replicate (8 - length base) 32 @ ?e @ replicate (3 - length ext) 32"
    using assms(3,4) by (simp add: overwrite_def)
  finally have name: "format_fat_name (base @ lit ''.'' @ ext) = \<dots>" by (simp add: lit_def)
  have keep: "filter (\<lambda>c. c \<noteq> 32) (map to_upper s) = map to_upper s" if "plain s" for s
    using that by (auto simp: plain_def filter_id_conv dest: to_upper_blankD)
  have "?e \<noteq> []" "hd ?e \<noteq> 32" using assms(2) by (auto simp: plain_def hd_map dest!: to_upper_blankD) (metis hd_in_set)
  then have e0: "(?b @ replicate (8 - length base) 32 @ ?e @ replicate (3 - length ext) 32) ! 8 \<noteq> 32"
    using assms(3) by (simp add: nth_append hd_conv_nth)
  have cut: "take 8 (format_fat_name (base @ lit ''.'' @ ext)) = ?b @ replicate (8 - length base) 32"
    "take 3 (drop 8 (format_fat_name (base @ lit ''.'' @ ext))) = ?e @ replicate (3 - length ext) 32"
    using assms(3,4) by (simp_all add: name)
  show ?thesis
    unfolding dir_line_def cut using e0 by (simp add: keep [OF assms(1)] keep [OF assms(2)] name)
qed

theorem fs_get_dir_list_lines_witness:
  "\<exists>d'. fs_get_dir_list (ram_io 200) tiny_fs 1024 (tiny_with 2 (lit ''hi'')) =
     Inr (take 1023 (concat (map (\<lambda>i. dir_line (dir_name (tiny_with 2 (lit ''hi'') 2) i))
             (listed (tiny_with 2 (lit ''hi'') 2) [0..<16]))) @ [0], d')"
  using fs_get_dir_list_lines [OF ram_device, OF tiny_with_volume(2), of tiny_fs 1024 2 "lit ''hi''"] by auto

theorem dir_line_format_fat_name_witness:
  "dir_line (format_fat_name (lit ''ledger.log'')) = lit ''LEDGER.LOG\<newline>''"
  using dir_line_format_fat_name [of "lit ''ledger''" "lit ''log''"]
  by (simp add: plain_def lit_def to_upper_def)

section \<open>The chain walk\<close>

definition links_on :: "u8 list \<Rightarrow> u32 \<Rightarrow> bool" where
  "links_on b c \<longleftrightarrow> 2 \<le> fat_entry b (unat c) \<and> fat_entry b (unat c) < 0x0FFFFFF8"

primrec chain :: "u8 list \<Rightarrow> nat \<Rightarrow> u32 \<Rightarrow> u32" where
  "chain b 0 c = c"
| "chain b (Suc k) c = chain b k (fat_entry b (unat c))"

definition sector_chain :: "u8 list \<Rightarrow> bool" where
  "sector_chain b \<longleftrightarrow> (\<forall>c<128. links_on b (of_nat c) \<longrightarrow> unat (fat_entry b c) < 128)"

fun chain_end :: "u8 list \<Rightarrow> nat \<Rightarrow> u32 \<Rightarrow> u32 option" where
  "chain_end b 0 c = (if links_on b c then None else Some c)"
| "chain_end b (Suc n) c = (if links_on b c then chain_end b n (fat_entry b (unat c)) else Some c)"

lemma chain_add: "chain b (k + n) c = chain b n (chain b k c)"
  by (induction k arbitrary: c) auto

lemma chain_end_None_iff: "chain_end b n c = None \<longleftrightarrow> (\<forall>k \<le> n. links_on b (chain b k c))"
proof (induction n arbitrary: c)
  case (Suc n)
  have "(\<forall>k \<le> Suc n. links_on b (chain b k c)) \<longleftrightarrow>
      links_on b c \<and> (\<forall>k \<le> n. links_on b (chain b k (fat_entry b (unat c))))"
    using All_less_Suc2 [of "Suc n" "\<lambda>k. links_on b (chain b k c)"] by (simp add: less_Suc_eq_le)
  then show ?case by (simp add: Suc.IH)
qed simp

lemma chain_end_SomeD: "chain_end b n c = Some l \<Longrightarrow> \<exists>k \<le> n. l = chain b k c \<and> \<not> links_on b l"
proof (induction n arbitrary: c)
  case (Suc n)
  show ?case
  proof (cases "links_on b c")
    case True
    then obtain k where "k \<le> n" "l = chain b (Suc k) c" "\<not> links_on b l"
      using Suc by auto
    then show ?thesis by (intro exI [of _ "Suc k"]) simp
  next
    case False
    with Suc.prems show ?thesis by (intro exI [of _ 0]) simp
  qed
qed (auto split: if_splits)

lemma word_unat_succ:
  assumes "unat (g :: u32) < unat (m :: u32)"
  shows "unat (g + 1) = Suc (unat g)" "g \<noteq> 0xFFFFFFFF"
proof -
  have "unat m < 4294967296" using unsigned_less [of m] by simp
  then show "unat (g + 1) = Suc (unat g)" using assms by (simp add: unat_word_ariths)
  show "g \<noteq> 0xFFFFFFFF" using assms \<open>unat m < 4294967296\<close> by auto
qed

lemma fat_walk_chain_end:
  assumes "sector_chain b" "unat c < 128" "m \<noteq> 0xFFFFFFFF" "unat g \<le> unat m"
  shows "fat_walk b m c g = Inr (chain_end b (unat m - unat g) c)"
  using assms(2,4)
proof (induction "unat m - unat g" arbitrary: c g)
  case 0
  then have "g = m" by (simp add: word_unat_eq_iff)
  moreover have "m < m + 1" using guard_decreases [OF assms(3)] by (simp add: word_less_nat_alt)
  ultimately show ?case
    using 0 assms(3) by (subst fat_walk.simps) (auto simp: links_on_def Let_def)
next
  case (Suc n)
  then have g: "unat g < unat m" by simp
  then have "g < m" by (simp add: word_less_nat_alt)
  then have g1: "unat (g + 1) = Suc (unat g)" "g \<noteq> 0xFFFFFFFF"
    using word_unat_succ [OF g] by auto
  show ?case
  proof (cases "links_on b c")
    case True
    then have nx: "unat (fat_entry b (unat c)) < 128" using assms(1) Suc.prems(1) by (auto simp: sector_chain_def)
    have "g + 1 \<le> m" using g g1 by (simp add: word_le_nat_alt)
    then have "fat_walk b m c g = fat_walk b m (fat_entry b (unat c)) (g + 1)"
      using True Suc.prems(1) g1(2) by (subst fat_walk.simps) (auto simp: links_on_def Let_def)
    moreover have n: "unat m - Suc (unat g) = n" using Suc.hyps(2) by simp
    then have "fat_walk b m (fat_entry b (unat c)) (g + 1) = Inr (chain_end b n (fat_entry b (unat c)))"
      using Suc.hyps(1) [of "g + 1" "fat_entry b (unat c)"] n nx g g1(1) by simp
    ultimately show ?thesis using True by (simp flip: Suc.hyps(2))
  next
    case False
    then have "fat_walk b m c g = Inr (Some c)"
      using Suc.prems(1) by (intro fat_walk_single) (simp_all add: links_on_def)
    with False show ?thesis by (simp flip: Suc.hyps(2))
  qed
qed

lemma chain_in_sector:
  "sector_chain b \<Longrightarrow> unat c < 128 \<Longrightarrow> \<forall>k < n. links_on b (chain b k c) \<Longrightarrow> unat (chain b n c) < 128"
proof (induction n arbitrary: c)
  case (Suc n)
  have "links_on b c" using Suc.prems(3) by (metis chain.simps(1) zero_less_Suc)
  then have "unat (fat_entry b (unat c)) < 128" using Suc.prems(1,2) by (auto simp: sector_chain_def)
  moreover have "\<forall>k < n. links_on b (chain b k (fat_entry b (unat c)))"
    using Suc.prems(3) by (metis Suc_mono chain.simps(2))
  ultimately show ?case using Suc by simp
qed simp

lemma long_chain_repeats:
  assumes "sector_chain b" "unat c < 128" "\<forall>k \<le> 127. links_on b (chain b k c)"
  obtains i j where "i < j" "j \<le> 128" "chain b i c = chain b j c"
proof -
  let ?f = "\<lambda>k. unat (chain b k c)"
  have "?f k < 128" if "k \<le> 128" for k
    using chain_in_sector [OF assms(1,2), of k] assms(3) that by auto
  then have "?f ` {..128} \<subseteq> {..<128}" by auto
  then have "card (?f ` {..128}) \<le> card {..<(128 :: nat)}" by (intro card_mono) auto
  then have "\<not> inj_on ?f {..128}" by (auto dest: card_image)
  then obtain i j where "i \<le> 128" "j \<le> 128" "?f i = ?f j" "i \<noteq> j" by (auto simp: inj_on_def)
  then show ?thesis using that [of i j] that [of j i] by (auto simp: word_unat_eq_iff neq_iff)
qed

lemma repeating_chain_links_on:
  assumes "i < j" "chain b i c = chain b j c" "\<forall>k < j. links_on b (chain b k c)"
  shows "links_on b (chain b k c)"
proof (induction k rule: less_induct)
  case (less k)
  show ?case
  proof (cases "k < j")
    case False
    then have "chain b k c = chain b (k - j) (chain b i c)"
      using chain_add [of b j "k - j" c] assms(2) by simp
    also have "\<dots> = chain b (i + (k - j)) c" by (simp add: chain_add)
    finally show ?thesis using less.IH [of "i + (k - j)"] assms(1) False by simp
  qed (use assms(3) in simp)
qed



section \<open>The mount\<close>

definition boot_sector_fits :: "u8 list \<Rightarrow> nat \<Rightarrow> bool" where
  "boot_sector_fits b cap \<longleftrightarrow> bpb_bytes_per_sector b = 512 \<and> bpb_sectors_per_cluster b \<noteq> 0
     \<and> 0 < unat (bpb_fat_count b) * unat (bpb_sectors_per_fat_32 b)
     \<and> unat (bpb_reserved_sectors b) + unat (bpb_fat_count b) * unat (bpb_sectors_per_fat_32 b)
         + 126 * unat (bpb_sectors_per_cluster b) \<le> cap
     \<and> cap \<le> 4294967296 \<and> data_cluster (bpb_root_cluster b)"

lemma mount_fields:
  assumes "boot_sector_fits b cap"
  shows "unat (fat_start_sector (mount_bpb b)) = unat (bpb_reserved_sectors b)"
    "unat (data_start_sector (mount_bpb b)) =
       unat (bpb_reserved_sectors b) + unat (bpb_fat_count b) * unat (bpb_sectors_per_fat_32 b)"
    "sectors_per_cluster (mount_bpb b) = unat (bpb_sectors_per_cluster b)"
    "root_dir_cluster (mount_bpb b) = bpb_root_cluster b"
proof -
  have up: "unat (ucast (x :: u16) :: u32) = unat x" "unat (ucast (y :: u8) :: u32) = unat y" for x y
    by (transfer, simp)+
  have small: "unat (bpb_sectors_per_cluster b) < 256" using unsigned_less [of "bpb_sectors_per_cluster b"] by simp
  have spc: "0 < unat (bpb_sectors_per_cluster b)" using assms by (simp add: boot_sector_fits_def unat_gt_0)
  have sum: "unat (bpb_reserved_sectors b) + unat (bpb_fat_count b) * unat (bpb_sectors_per_fat_32 b) < 4294967296"
    using assms spc unfolding boot_sector_fits_def by linarith
  show "unat (fat_start_sector (mount_bpb b)) = unat (bpb_reserved_sectors b)"
    by (simp add: mount_bpb_def Let_def up)
  show "unat (data_start_sector (mount_bpb b)) =
      unat (bpb_reserved_sectors b) + unat (bpb_fat_count b) * unat (bpb_sectors_per_fat_32 b)"
    using sum by (simp add: mount_bpb_def Let_def unat_word_ariths up)
  show "sectors_per_cluster (mount_bpb b) = unat (bpb_sectors_per_cluster b)"
    using assms small by (simp add: sectors_per_cluster_def mount_bpb_def Let_def boot_sector_fits_def unat_word_ariths up)
  show "root_dir_cluster (mount_bpb b) = bpb_root_cluster b" by (simp add: mount_bpb_def Let_def)
qed

lemma mount_layout:
  assumes "boot_sector_fits b cap" "data_cluster c"
  shows "geometry (mount_bpb b) cap
    \<and> unat (sector_of (mount_bpb b) c) =
        unat (bpb_reserved_sectors b) + unat (bpb_fat_count b) * unat (bpb_sectors_per_fat_32 b)
        + (unat c - 2) * unat (bpb_sectors_per_cluster b)
    \<and> unat (sector_of (mount_bpb b) c) < cap"
proof -
  have geo: "geometry (mount_bpb b) cap"
    using assms(1) mount_fields [OF assms(1)]
    by (auto simp: geometry_def boot_sector_fits_def data_cluster_def unat_gt_0 Suc_le_eq)
  then show ?thesis
    using unat_sector_of [OF geo assms(2)] sector_of_less [OF geo assms(2)] mount_fields [OF assms(1)] by simp
qed

text \<open>
  C28: mounting a boot sector with 512-byte sectors whose areas fit the device gives the standard
  layout: FAT at the reserved sectors, cluster \<open>c\<close> at
  \<open>reserved + fats * fat_size + (c - 2) * sectors_per_cluster\<close>, inside the device; without the
  \<^verbatim>\<open>0x55 0xAA\<close> signature the mount changes nothing.
\<close>

theorem fs_fat32_init_mounts:
  assumes "block_device io ok sec cap" "ok d" "boot_sector_fits (sec d 0) cap" "data_cluster c"
  shows "\<exists>fs' d'. fs_fat32_init io fs d = Inr (fs', d')
    \<and> (if sec d 0 ! 510 = 0x55 \<and> sec d 0 ! 511 = 0xAA
       then geometry fs' cap \<and> unat (sector_of fs' c) < cap \<and> unat (sector_of fs' c) =
           unat (bpb_reserved_sectors (sec d 0)) + unat (bpb_fat_count (sec d 0)) * unat (bpb_sectors_per_fat_32 (sec d 0))
           + (unat c - 2) * unat (bpb_sectors_per_cluster (sec d 0))
       else fs' = fs)"
proof -
  define d1 where "d1 = io_print io (lit ''[FS] Initializing FAT32 File System (Direct Mode)...\<newline>'') d"
  have d1: "ok d1" "sec d1 = sec d" using block_device.print_law [OF assms(1,2)] by (simp_all add: d1_def)
  have "unat (sector_of (mount_bpb (sec d 0)) c) < cap" using mount_layout [OF assms(3,4)] by simp
  then have "0 < cap" by simp
  then obtain d' where read: "io_read io 0 d1 = Inr (Some (sec d 0), d')"
    using block_device.read_law [OF assms(1) d1(1), of 0] d1(2) by auto
  show ?thesis
    using mount_layout [OF assms(3,4)]
    by (auto simp: fs_fat32_init_def Let_def read simp flip: d1_def)
qed

text \<open>A boot sector with one reserved sector, one FAT of one sector and one sector per cluster.\<close>

definition tiny_boot :: "u8 list" where
  "tiny_boot = (replicate 512 0)[12 := 2, 13 := 1, 14 := 1, 16 := 1, 36 := 1, 44 := 2, 510 := 0x55, 511 := 0xAA]"

lemma tiny_boot_fields:
  "bpb_bytes_per_sector tiny_boot = 512" "bpb_sectors_per_cluster tiny_boot = 1"
  "bpb_reserved_sectors tiny_boot = 1" "bpb_fat_count tiny_boot = 1" "bpb_sectors_per_fat_32 tiny_boot = 1"
  "bpb_root_cluster tiny_boot = 2" "tiny_boot ! 510 = 0x55" "tiny_boot ! 511 = 0xAA" "length tiny_boot = 512"
  by (simp_all add: bpb_bytes_per_sector_def bpb_sectors_per_cluster_def bpb_reserved_sectors_def
      bpb_fat_count_def bpb_sectors_per_fat_32_def bpb_root_cluster_def tiny_boot_def get16_def get32_def)

theorem fs_fat32_init_mounts_witness:
  "\<exists>fs' d'. fs_fat32_init (ram_io 200) tiny_fs (tiny_disk(0 := tiny_boot)) = Inr (fs', d')
    \<and> geometry fs' 200 \<and> unat (sector_of fs' 5) = 5"
proof -
  have "store_wf (tiny_disk(0 := tiny_boot))" using tiny_ok tiny_boot_fields(9) by simp
  from fs_fat32_init_mounts [OF ram_device, OF this, of 5 tiny_fs] show ?thesis
    using tiny_boot_fields by (auto simp: boot_sector_fits_def data_cluster_def)
qed

end
