(* ===== verification/Syscall_Properties.thy ===== *)
theory Syscall_Properties
  imports Syscall Fat32_Listing
begin

text \<open>
  What a caller of the kernel sees: requests are answered once, to the sender they name; a file
  written by one request is read back by another; keys arrive in order. And where the handler
  disappoints: a full mailbox loses the answer, the capability matrix is not consulted, replies carry
  old stack bytes, a long program makes the read leave the sector buffer.
\<close>

section \<open>Requests\<close>

lemma length_local_array [simp]: "length (local_array stale n) = n"
  by (simp add: local_array_def)

lemma timer_device:
  assumes "block_device io ok sec cap" "ok d"
  shows "ok (snd (io_timer io d))" "sec (snd (io_timer io d)) = sec d"
  using block_device.timer_law [OF assms] by auto

lemma print_all_keeps:
  assumes "block_device io ok sec cap"
  shows "ok d \<Longrightarrow> ok (print_all io ss d) \<and> sec (print_all io ss d) = sec d"
  by (induction ss arbitrary: d) (simp_all add: block_device.print_law [OF assms])

lemma log_request_effect:
  assumes "block_device io ok sec cap" "ok d" "log_request io ty msg ctx k d = (k', d')"
  shows "ok d'" "sec d' = sec d" "mail k' = mail k" "vol k' = vol k"
  using assms(3) timer_device [OF assms(1,2)]
  by (auto simp: log_request_def watcher_log_event_def split: prod.splits)

lemma send_reply_simps [simp]:
  "mail (send_reply stale msg t s k) = ipc_kernel_send (reply stale msg t s) (mail k)"
  "vol (send_reply stale msg t s k) = vol k" "watch (send_reply stale msg t s k) = watch k"
  by (simp_all add: send_reply_def)

lemma reply_simps:
  "length s \<le> 255 \<Longrightarrow> payload (reply stale msg t s) = s @ 0 # drop (Suc (length s)) (local_array stale 256)"
  "target_id (reply stale msg t s) = sender_id msg" "msg_type (reply stale msg t s) = t"
  "msg_length (reply stale msg t s) = of_nat (length s) + 1" "sender_id (reply stale msg t s) = 1"
  by (simp_all add: reply_def overwrite_zero)

lemma reply_stale: "length s < i \<Longrightarrow> i < 256 \<Longrightarrow> payload (reply stale msg t s) ! i = stale i"
  by (simp add: reply_def nth_overwrite local_array_def)

text \<open>The text of a read reply: the first 255 bytes of the file up to a NUL.\<close>

definition read_text :: "(u32 \<times> u8 list) option \<Rightarrow> u8 list" where
  "read_text f = (case f of None \<Rightarrow> lit ''File not found.\<newline>'' | Some f \<Rightarrow> cstr (take 255 (file_bytes f)))"

lemma cstr_nul: "cstr (s @ 0 # r) = cstr s"
  by (induction s) (auto simp: cstr_def)

lemma cstr_overwrite_nul: "cstr (overwrite b 0 (s @ [0])) = cstr s"
  by (simp add: overwrite_def cstr_nul)

lemma reply_text_not_found:
  assumes "length b = 256"
  shows "reply_text (overwrite (overwrite b 0 (take 255 (lit ''File not found.\<newline>''))) 16 [0]) = lit ''File not found.\<newline>''"
proof -
  have "overwrite (overwrite b 0 (take 255 (lit ''File not found.\<newline>''))) 16 [0]
      = lit ''File not found.\<newline>'' @ 0 # drop 17 b"
    using assms by (simp add: overwrite_def lit_def numeral_eq_Suc)
  moreover have "0 \<notin> set (lit ''File not found.\<newline>'')" by (simp add: lit_def)
  ultimately show ?thesis by (simp add: reply_text_def)
qed

lemma fs_read_request_effect:
  assumes "block_device io ok sec cap" "ok d" "volume_wf (vol k) cap (sec d)"
    "usable_name (format_fat_name (payload msg))" "name_in_bounds (payload msg)"
  obtains k' d' where "fs_read_request stale io msg k d = Inr (k', d')" "ok d'" "sec d' = sec d" "vol k' = vol k"
    "mail k' = ipc_kernel_send (reply stale msg 5 (read_text (file_of (vol k) (sec d) (format_fat_name (payload msg))))) (mail k)"
proof -
  obtain k1 d1 where log: "log_request io EVENT_TYPE_FS_READ msg (payload msg) k d = (k1, d1)"
    by (cases "log_request io EVENT_TYPE_FS_READ msg (payload msg) k d")
  note l = log_request_effect [OF assms(1,2) log]
  let ?f = "file_of (vol k) (sec d) (format_fat_name (payload msg))"
  obtain b where b: "fs_read_file_content (ram_io cap) (vol k) (payload msg) (local_array stale 256) 256 (sec d1) = Inr (b, sec d1)"
    "reply_text b = read_text ?f"
  proof (cases ?f)
    case None
    then show ?thesis
      using that reply_text_not_found [of "local_array stale 256"] assms(3,4) l(2)
      by (simp add: read_ram read_text_def)
  next
    case (Some f)
    let ?n = "min (unat (fst f)) 255"
    have "fs_read_file_content (ram_io cap) (vol k) (payload msg) (local_array stale 256) 256 (sec d1)
        = Inr (overwrite (local_array stale 256) 0 (take ?n (snd f) @ [0]), sec d1)"
      using Some assms(3,4) l(2) by (simp add: read_ram Let_def)
    moreover have "reply_text (overwrite (local_array stale 256) 0 (take ?n (snd f) @ [0])) = read_text ?f"
      using Some length_cstr [of "take ?n (snd f)"]
      by (simp add: reply_text_def cstr_overwrite_nul read_text_def file_bytes_def min.commute)
    ultimately show ?thesis using that by blast
  qed
  obtain d2 where d2: "fs_read_file_content io (vol k) (payload msg) (local_array stale 256) 256 d1 = Inr (b, d2)"
    "ok d2" "sec d2 = sec d1"
    using read_device [OF assms(1) l(1) b(1)] .
  show ?thesis
    using that [of "send_reply stale msg 5 (reply_text b) k1" d2] log l d2 b(2) assms(5)
    by (simp add: fs_read_request_def)
qed

lemma fs_write_request_runs:
  assumes "block_device io ok sec cap" "ok d" "terminated (payload msg)"
    "n = msg_length msg - of_nat (length (cstr (payload msg)) + 1)"
    "data = drop (length (cstr (payload msg)) + 1) (payload msg)"
    "fs_write_file_content (ram_io cap) (vol k) (payload msg) data n (sec d) = Inr S'"
  obtains k' d' where "fs_write_request stale io msg k d = Inr (k', d')" "ok d'" "sec d' = S'" "vol k' = vol k"
    "mail k' = ipc_kernel_send (reply stale msg 7 (lit ''Write committed to disk.\<newline>'')) (mail k)"
proof -
  obtain k1 d1 where log: "log_request io EVENT_TYPE_FS_WRITE msg (payload msg) k d = (k1, d1)"
    by (cases "log_request io EVENT_TYPE_FS_WRITE msg (payload msg) k d")
  note l = log_request_effect [OF assms(1,2) log]
  have "fs_write_file_content (ram_io cap) (vol k) (payload msg) data n (sec d1) = Inr S'" using assms(6) l(2) by simp
  from write_device [OF assms(1) l(1) this]
  obtain d2 where d2: "fs_write_file_content io (vol k) (payload msg) data n d1 = Inr d2" "ok d2" "sec d2 = S'" by blast
  have run: "fs_write_request stale io msg k d = Inr (send_reply stale msg 7 (lit ''Write committed to disk.\<newline>'') k1, d2)"
    using log l(4) d2(1) assms(3-5) by (simp add: fs_write_request_def Let_def)
  show ?thesis by (rule that [OF run d2(2,3)]) (use l in simp_all)
qed

lemma fs_write_request_effect:
  assumes "block_device io ok sec cap" "ok d" "volume_wf (vol k) cap (sec d)"
    "usable_name (format_fat_name (payload msg))" "terminated (payload msg)"
    "n = msg_length msg - of_nat (length (cstr (payload msg)) + 1)"
    "data = drop (length (cstr (payload msg)) + 1) (payload msg)" "min (unat n) 512 \<le> length data"
  obtains k' d' where "fs_write_request stale io msg k d = Inr (k', d')" "ok d'" "volume_wf (vol k) cap (sec d')"
    "vol k' = vol k" "mail k' = ipc_kernel_send (reply stale msg 7 (lit ''Write committed to disk.\<newline>'')) (mail k)"
    "\<And>t. usable_name t \<Longrightarrow> file_of (vol k) (sec d') t
       = write_effect (vol k) (sec d) (format_fat_name (payload msg)) (n, data_sector_bytes n data) t"
  using write_ram_effect [OF assms(3,8,4)] fs_write_request_runs [OF assms(1,2,5-7)] by metis

lemma format_fat_name_nul: "0 \<notin> set name \<Longrightarrow> format_fat_name (name @ 0 # r) = format_fat_name name"
  by (simp add: format_fat_name_def cstr_id)

text \<open>A program's way of asking: \<^verbatim>\<open>SYS_IPC_SEND\<close>, then \<^verbatim>\<open>SYS_IPC_RECV\<close>.\<close>

definition ask ::
  "stale \<Rightarrow> 'd io \<Rightarrow> 'd vm \<Rightarrow> nat \<Rightarrow> os_message \<Rightarrow> os_message \<Rightarrow> kernel \<times> 'd \<Rightarrow> (os_message \<times> kernel \<times> 'd) res" where
  "ask stale io vm fuel msg buf = (\<lambda>(k, d).
     res_bind (syscall_handler stale io vm fuel 1 msg k d) (\<lambda>(_, _, k, d).
     res_bind (syscall_handler stale io vm fuel 2 buf k d) (\<lambda>(_, m, k, d). Inr (m, k, d))))"

text \<open>A request answered into an empty mailbox comes straight back, and the mailbox is empty again.\<close>

lemma ask_reply:
  assumes "target_id msg = 1" "kernel_request stale io vm msg k d = Inr (k', d')"
    "mail k' = ipc_kernel_send m (mail k)" "mailbox_wf (mail k)" "contents (mail k) = []"
  shows "\<exists>k''. ask stale io vm fuel msg buf (k, d) = Inr (m, k'', d') \<and> vol k'' = vol k' \<and> watch k'' = watch k'
    \<and> mailbox_wf (mail k'') \<and> contents (mail k'') = []"
proof -
  have q: "mailbox_wf (mail k')" "contents (mail k') = [m]"
    using send_contents [OF assms(4), of m] assms(3,5) by simp_all
  note t = take_contents [OF q(1), unfolded q(2)]
  obtain q' where "mailbox_take (mail k') = (Some m, q')" using t(2) by (metis list.simps(5) prod.collapse)
  then have "ipc_recv buf (mail k') = (m, q')" "mailbox_wf q'" "contents q' = []"
    using t by (simp_all add: ipc_recv_take)
  then show ?thesis using assms(1,2) by (auto simp: ask_def syscall_handler_def)
qed

lemma write_message_parts:
  assumes "0 \<notin> set name" "payload msg = name @ 0 # rest"
  shows "cstr (payload msg) = name" "terminated (payload msg)" "drop (length (cstr (payload msg)) + 1) (payload msg) = rest"
    "format_fat_name (payload msg) = format_fat_name name" "name_in_bounds (payload msg)"
  using assms by (simp_all add: format_fat_name_nul name_in_bounds_def)

text \<open>
  Over any block device, a program that sends a write request for a free name and then a read
  request for it gets its text back: the first call is acknowledged, the second answers with the text,
  NUL-terminated, addressed to the sender.
\<close>

theorem write_request_then_read_request:
  assumes "block_device io ok sec cap" "ok d" "volume_wf (vol k) cap (sec d)"
    "mailbox_wf (mail k)" "contents (mail k) = []"
    "usable_name (format_fat_name name)" "0 \<notin> set name" "0 \<notin> set text" "length text \<le> 254"
    "\<not> name_taken (vol k) (sec d) (format_fat_name name)"
    "free_cluster_of (vol k) (sec d) \<noteq> None" "free_slot_of (vol k) (sec d) \<noteq> None"
    "target_id w = 1" "msg_type w = 6" "payload w = name @ 0 # text @ pad"
    "msg_length w = of_nat (length name + 1 + length text)"
    "target_id r = 1" "msg_type r = 4" "payload r = name @ 0 # pad'"
  shows "\<exists>ack k' d' m k'' d''. ask stale io vm fuel w buf (k, d) = Inr (ack, k', d') \<and> msg_type ack = 7
    \<and> ask stale io vm fuel r buf (k', d') = Inr (m, k'', d'') \<and> msg_type m = 5 \<and> target_id m = sender_id r
    \<and> msg_length m = of_nat (length text) + 1 \<and> cstr (payload m) = text"
proof -
  note wp = write_message_parts [OF assms(7,15)] and rp = write_message_parts [OF assms(7,19)]
  let ?n = "of_nat (length text) :: u32"
  have n: "unat ?n = length text" using assms(9) by (simp add: unat_of_nat take_bit_nat_eq_self)
  have len: "?n = msg_length w - of_nat (length (cstr (payload w)) + 1)" by (simp add: wp(1) assms(16))
  have fit: "min (unat ?n) 512 \<le> length (text @ pad)" by (simp add: n)
  have nm: "usable_name (format_fat_name (payload w))" using assms(6) by (simp add: wp(4))
  obtain k1 d1 where w: "fs_write_request stale io w k d = Inr (k1, d1)" "ok d1" "volume_wf (vol k) cap (sec d1)"
    "vol k1 = vol k" "mail k1 = ipc_kernel_send (reply stale w 7 (lit ''Write committed to disk.\<newline>'')) (mail k)"
    and eff: "\<And>t. usable_name t \<Longrightarrow> file_of (vol k) (sec d1) t
       = write_effect (vol k) (sec d) (format_fat_name (payload w)) (?n, data_sector_bytes ?n (text @ pad)) t"
    using fs_write_request_effect [OF assms(1-3) nm wp(2) len wp(3) [symmetric] fit] by metis
  have "kernel_request stale io vm w k d = Inr (k1, d1)" using w(1) assms(14) by (simp add: kernel_request_def)
  then obtain k' where k': "ask stale io vm fuel w buf (k, d) = Inr (reply stale w 7 (lit ''Write committed to disk.\<newline>''), k', d1)"
    "vol k' = vol k" "mailbox_wf (mail k')" "contents (mail k') = []"
    using ask_reply [OF assms(13) _ w(5) assms(4,5)] w(4) by metis
  have "file_of (vol k) (sec d1) (format_fat_name name) = Some (?n, data_sector_bytes ?n (text @ pad))"
    using eff [OF assms(6)] assms(10-12) by (auto simp: wp(4) write_effect_def name_taken_def shadowed_def)
  then have said: "read_text (file_of (vol k) (sec d1) (format_fat_name name)) = text"
    using assms(8,9) n by (simp add: read_text_def file_bytes_sector cstr_id)
  have "volume_wf (vol k') cap (sec d1)" "usable_name (format_fat_name (payload r))"
    using w(3) k'(2) assms(6) by (simp_all add: rp(4))
  from fs_read_request_effect [OF assms(1) w(2) this rp(5)]
  obtain k2 d2 where r: "fs_read_request stale io r k' d1 = Inr (k2, d2)"
    "mail k2 = ipc_kernel_send (reply stale r 5 text) (mail k')"
    using said by (metis k'(2) rp(4))
  have "kernel_request stale io vm r k' d1 = Inr (k2, d2)" using r(1) assms(18) by (simp add: kernel_request_def)
  then obtain k'' where "ask stale io vm fuel r buf (k', d1) = Inr (reply stale r 5 text, k'', d2)"
    using ask_reply [OF assms(17) _ r(2) k'(3,4)] by metis
  then show ?thesis using k'(1) assms(8,9) by (auto simp: reply_simps)
qed

definition tiny_kernel :: kernel where
  "tiny_kernel = \<lparr>mail = empty_mailbox, watch = bss_watcher, vol = tiny_fs\<rparr>"

definition request_message :: "u16 \<Rightarrow> u8 list \<Rightarrow> os_message" where
  "request_message t p = \<lparr>sender_id = 3, target_id = 1, msg_type = t, msg_length = of_nat (length p), payload = p @ replicate (256 - length p) 0\<rparr>"

definition idle_vm :: "'d vm" where
  "idle_vm bytecode out wd = Inr (out, wd)"

theorem write_request_then_read_request_witness:
  "\<exists>ack k' d' m k'' d''.
    ask (\<lambda>_. 7) (ram_io 200) idle_vm 1 (request_message 6 (lit ''A.TXT'' @ 0 # lit ''hello'')) (request_message 0 []) (tiny_kernel, tiny_disk)
      = Inr (ack, k', d')
    \<and> ask (\<lambda>_. 7) (ram_io 200) idle_vm 1 (request_message 4 (lit ''A.TXT'')) (request_message 0 []) (k', d') = Inr (m, k'', d'')
    \<and> cstr (payload m) = lit ''hello''"
proof -
  let ?w = "request_message 6 (lit ''A.TXT'' @ 0 # lit ''hello'')" and ?r = "request_message 4 (lit ''A.TXT'')"
  have nul: "0 \<notin> set (lit ''A.TXT'')" "0 \<notin> set (lit ''hello'')" by (simp_all add: lit_def)
  have w: "payload ?w = lit ''A.TXT'' @ 0 # lit ''hello'' @ replicate 245 0" by (simp add: request_message_def)
  have r: "payload ?r = lit ''A.TXT'' @ 0 # replicate 250 0"
    by (simp add: request_message_def flip: replicate_Suc)
  note run = write_request_then_read_request [OF ram_device, OF tiny_ok, of tiny_kernel, OF _ _ _ usable_lit(1) nul _ _ _ _ _ _ w _ _ _ r]
  show ?thesis
    using run [of "\<lambda>_. 7" idle_vm 1 "request_message 0 []"]
    by (simp add: tiny_kernel_def tiny_volume empty_mailbox_wf tiny_no_file tiny_free request_message_def) blast
qed

section \<open>What the handler does not do\<close>

text \<open>
  When 255 messages are waiting, a write request is carried out and its acknowledgement is
  dropped: the file is on the volume, the mailbox is as it was, and nothing tells the sender.
\<close>

theorem full_mailbox_loses_acknowledgement:
  assumes "block_device io ok sec cap" "ok d" "volume_wf (vol k) cap (sec d)"
    "mailbox_wf (mail k)" "length (contents (mail k)) = 255"
    "usable_name (format_fat_name name)" "0 \<notin> set name" "length contents' \<le> 512"
    "\<not> name_taken (vol k) (sec d) (format_fat_name name)"
    "free_cluster_of (vol k) (sec d) \<noteq> None" "free_slot_of (vol k) (sec d) \<noteq> None"
    "target_id w = 1" "msg_type w = 6" "payload w = name @ 0 # contents'"
    "msg_length w = of_nat (length name + 1 + length contents')"
  shows "\<exists>k' d'. syscall_handler stale io vm fuel 1 w k d = Inr (None, w, k', d')
    \<and> contents (mail k') = contents (mail k)
    \<and> file_of (vol k) (sec d') (format_fat_name name)
        = Some (of_nat (length contents'), data_sector_bytes (of_nat (length contents')) contents')"
proof -
  note wp = write_message_parts [OF assms(7,14)]
  let ?n = "of_nat (length contents') :: u32"
  have n: "unat ?n = length contents'" using assms(8) by (simp add: unat_of_nat take_bit_nat_eq_self)
  have len: "?n = msg_length w - of_nat (length (cstr (payload w)) + 1)" by (simp add: wp(1) assms(15))
  have fit: "min (unat ?n) 512 \<le> length contents'" by (simp add: n)
  have nm: "usable_name (format_fat_name (payload w))" using assms(6) by (simp add: wp(4))
  obtain k1 d1 where w: "fs_write_request stale io w k d = Inr (k1, d1)"
    "mail k1 = ipc_kernel_send (reply stale w 7 (lit ''Write committed to disk.\<newline>'')) (mail k)"
    and eff: "\<And>t. usable_name t \<Longrightarrow> file_of (vol k) (sec d1) t
       = write_effect (vol k) (sec d) (format_fat_name (payload w)) (?n, data_sector_bytes ?n contents') t"
    using fs_write_request_effect [OF assms(1-3) nm wp(2) len wp(3) [symmetric] fit] by metis
  have "file_of (vol k) (sec d1) (format_fat_name name) = Some (?n, data_sector_bytes ?n contents')"
    using eff [OF assms(6)] assms(9-11) by (auto simp: wp(4) write_effect_def name_taken_def shadowed_def)
  then show ?thesis
    using w assms(5,12,13) send_contents(2) [OF assms(4)]
    by (auto simp: syscall_handler_def kernel_request_def)
qed

definition full_mailbox :: mailbox where
  "full_mailbox = empty_mailbox\<lparr>ipc_tail := 255\<rparr>"

lemma full_mailbox_wf: "mailbox_wf full_mailbox" "length (contents full_mailbox) = 255"
  by (simp_all add: mailbox_wf_def full_mailbox_def empty_mailbox_def length_contents ring_dist_def)

theorem full_mailbox_loses_acknowledgement_witness:
  "\<exists>k' d'. syscall_handler (\<lambda>_. 7) (ram_io 200) idle_vm 1 1
      \<lparr>sender_id = 3, target_id = 1, msg_type = 6, msg_length = 8, payload = lit ''A.TXT'' @ 0 # lit ''hi''\<rparr>
      (tiny_kernel\<lparr>mail := full_mailbox\<rparr>) tiny_disk
      = Inr (None, \<lparr>sender_id = 3, target_id = 1, msg_type = 6, msg_length = 8, payload = lit ''A.TXT'' @ 0 # lit ''hi''\<rparr>, k', d')
    \<and> length (contents (mail k')) = 255
    \<and> file_of tiny_fs d' (format_fat_name (lit ''A.TXT'')) = Some (2, data_sector_bytes 2 (lit ''hi''))"
proof -
  let ?w = "\<lparr>sender_id = 3, target_id = 1, msg_type = 6, msg_length = 8, payload = lit ''A.TXT'' @ 0 # lit ''hi''\<rparr>"
  have "0 \<notin> set (lit ''A.TXT'')" by (simp add: lit_def)
  from full_mailbox_loses_acknowledgement [OF ram_device, OF tiny_ok, of "tiny_kernel\<lparr>mail := full_mailbox\<rparr>",
      OF _ _ _ usable_lit(1) this, of "lit ''hi''" ?w "\<lambda>_. 7" idle_vm 1]
  show ?thesis
    by (simp add: tiny_kernel_def tiny_volume full_mailbox_wf tiny_no_file tiny_free) (metis full_mailbox_wf(2))
qed

text \<open>
  The capability matrix is never consulted: a message from a module to one its row forbids is
  queued like any other.
\<close>

theorem capability_matrix_not_enforced:
  assumes "i < 9" "j < 9" "capability_matrix ! i ! j = 0" "j \<noteq> 1"
    "mailbox_wf (mail k)" "length (contents (mail k)) < 255"
    "sender_id msg = of_nat i" "target_id msg = of_nat j"
  shows "\<exists>k'. syscall_handler stale io vm fuel 1 msg k d = Inr (None, msg, k', d)
    \<and> contents (mail k') = contents (mail k) @ [msg]"
proof -
  have "unat (of_nat j :: u8) = j" using assms(2) by (simp add: unat_of_nat take_bit_nat_eq_self)
  then have "target_id msg \<noteq> 1" using assms(4,8) by auto
  then show ?thesis
    using send_contents(2) [OF assms(5), of msg] assms(6) by (simp add: syscall_handler_def)
qed

theorem capability_matrix_not_enforced_witness:
  "\<exists>k'. syscall_handler (\<lambda>_. 7) (ram_io 200) idle_vm 1 1 (request_message 1 [65]\<lparr>sender_id := 2, target_id := 6\<rparr>) tiny_kernel tiny_disk
      = Inr (None, request_message 1 [65]\<lparr>sender_id := 2, target_id := 6\<rparr>, k', tiny_disk)
    \<and> contents (mail k') = [request_message 1 [65]\<lparr>sender_id := 2, target_id := 6\<rparr>]"
  using capability_matrix_not_enforced [of 2 6 tiny_kernel "request_message 1 [65]\<lparr>sender_id := 2, target_id := 6\<rparr>"]
  by (simp add: capability_matrix_def tiny_kernel_def empty_mailbox_wf)



text \<open>
  C39: executing a program whose file is larger than a sector makes the file read copy past the
  512-byte sector buffer: the request asks for up to 1023 bytes, and the read does not stop at the
  buffer's end.
\<close>

theorem atk_exec_reads_past_sector_buffer:
  assumes "block_device io ok sec cap" "ok d" "volume_wf (vol k) cap (sec d)"
    "usable_name (format_fat_name (payload msg))" "target_id msg = 1" "msg_type msg = 8"
    "file_of (vol k) (sec d) (format_fat_name (payload msg)) = Some f" "512 < unat (fst f)"
  shows "syscall_handler stale io vm fuel 1 msg k d = Inl OutOfBounds"
proof -
  obtain k1 d1 where log: "log_request io EVENT_TYPE_FS_READ msg (payload msg) k d = (k1, d1)"
    by (cases "log_request io EVENT_TYPE_FS_READ msg (payload msg) k d")
  note l = log_request_effect [OF assms(1,2) log]
  have "fs_read_file_content (ram_io cap) (vol k) (payload msg) (local_array stale 1024) 1024 (sec d1) = Inl OutOfBounds"
    using assms(3,4,7,8) l(2) by (simp add: read_ram Let_def min_def)
  then have "fs_read_file_content io (vol k) (payload msg) (local_array stale 1024) 1024 d1 = Inl OutOfBounds"
    using block_device.simulates_val_InlD [OF assms(1)] block_device.fs_read_sim [OF assms(1) l(1)] by metis
  then show ?thesis
    using log l(4) assms(5,6) by (simp add: syscall_handler_def kernel_request_def atk_exec_request_def)
qed

theorem atk_exec_reads_past_sector_buffer_witness:
  "syscall_handler (\<lambda>_. 7) (ram_io 200) idle_vm 1 1 (request_message 8 (lit ''A.TXT'')) tiny_kernel (tiny_with 600 (replicate 600 65))
    = Inl OutOfBounds"
proof -
  have "format_fat_name (payload (request_message 8 (lit ''A.TXT''))) = format_fat_name (lit ''A.TXT'')"
    using format_fat_name_nul [of "lit ''A.TXT''" "replicate 250 0"]
    by (simp add: request_message_def lit_def flip: replicate_Suc)
  then show ?thesis
    using atk_exec_reads_past_sector_buffer [OF ram_device, OF tiny_with_volume(2), of tiny_kernel,
        where msg = "request_message 8 (lit ''A.TXT'')" and f = "(600, data_sector_bytes 600 (replicate 600 65))"]
      tiny_with_volume(1) usable_lit(1) tiny_with_file
    by (simp add: tiny_kernel_def request_message_def)
qed

section \<open>Draining the hardware\<close>

text \<open>A source that gives the characters \<open>cs\<close>, none of them zero, and then goes quiet.\<close>

inductive emits :: "('d \<Rightarrow> u8 \<times> 'd) \<Rightarrow> 'd \<Rightarrow> u8 list \<Rightarrow> 'd \<Rightarrow> bool" for poll where
  quiet: "poll d = (0, d') \<Longrightarrow> emits poll d [] d'"
| more: "poll d = (c, d') \<Longrightarrow> c \<noteq> 0 \<Longrightarrow> emits poll d' cs d'' \<Longrightarrow> emits poll d (c # cs) d''"

inductive_cases emits_NilE: "emits poll d [] d'"
inductive_cases emits_ConsE: "emits poll d (c # cs) d'"

lemma drain_emits:
  "emits poll d cs d' \<Longrightarrow> length cs < fuel \<Longrightarrow>
    drain poll mk fuel q d = Inr (fold (\<lambda>c. ipc_kernel_send (mk c)) cs q, d')"
proof (induction arbitrary: fuel q rule: emits.induct)
  case (quiet d d')
  then show ?case by (cases fuel) auto
next
  case (more d c d' cs d'')
  then show ?case by (cases fuel) auto
qed

lemma fold_send_contents:
  "mailbox_wf q \<Longrightarrow> mailbox_wf (fold ipc_kernel_send ms q)
    \<and> contents (fold ipc_kernel_send ms q) = contents q @ take (255 - length (contents q)) ms"
proof (induction ms arbitrary: q)
  case (Cons m ms)
  have "255 - n = Suc (254 - n)" if "n < 255" for n :: nat using that by simp
  then show ?case
    using Cons.IH [OF send_contents(1) [OF Cons.prems, of m]] send_contents(2) [OF Cons.prems, of m] contents_bound [of q]
    by (cases "length (contents q) < 255") simp_all
qed simp

lemma fold_send_map: "fold (\<lambda>c. ipc_kernel_send (mk c)) cs q = fold ipc_kernel_send (map mk cs) q"
  by (simp add: fold_map comp_def)

text \<open>
  C29: draining queues, in order and behind what is waiting, a key message for every keyboard
  character and then one for every UART character, with carriage returns turned into newlines, as
  far as the mailbox has room; it stops when the sources go quiet.
\<close>

theorem drain_queues_keys_in_order:
  assumes "emits (io_key io) d keys d'" "emits (io_rx io) d' chars d''"
    "length keys < fuel" "length chars < fuel" "mailbox_wf (mail k)"
  shows "\<exists>k'. syscall_handler stale io vm fuel 4 msg k d = Inr (None, msg, k', d'') \<and> mailbox_wf (mail k')
    \<and> contents (mail k') = contents (mail k) @ take (255 - length (contents (mail k)))
        (map (hw_msg stale 1) keys @ map (hw_msg stale 2) (map newline_for_return chars))"
proof -
  define ms where "ms = map (hw_msg stale 1) keys @ map (hw_msg stale 2) (map newline_for_return chars)"
  have "drain (io_key io) (hw_msg stale 1) fuel (mail k) d = Inr (fold ipc_kernel_send (map (hw_msg stale 1) keys) (mail k), d')"
    unfolding fold_send_map [of "hw_msg stale 1" keys, symmetric] by (rule drain_emits [OF assms(1,3)])
  moreover have "drain (io_rx io) (\<lambda>c. hw_msg stale 2 (newline_for_return c)) fuel q d' =
      Inr (fold ipc_kernel_send (map (hw_msg stale 2) (map newline_for_return chars)) q, d'')" for q
    unfolding map_map comp_def fold_send_map [of "\<lambda>c. hw_msg stale 2 (newline_for_return c)" chars, symmetric]
    by (rule drain_emits [OF assms(2,4)])
  ultimately have "drain_hardware_queues stale io fuel (mail k) d = Inr (fold ipc_kernel_send ms (mail k), d'')"
    by (simp only: drain_hardware_queues_def res_bind.simps prod.case ms_def fold_append comp_def)
  then show ?thesis
    using fold_send_contents [OF assms(5), of ms] unfolding ms_def [symmetric] by (simp add: syscall_handler_def)
qed

text \<open>Services whose keyboard and UART give the characters of two lists.\<close>

fun poll_list :: "u8 list \<Rightarrow> u8 \<times> u8 list" where
  "poll_list [] = (0, [])"
| "poll_list (c # cs) = (c, cs)"

definition typed_io :: "(u8 list \<times> u8 list) io" where
  "typed_io = \<lparr>io_read = (\<lambda>_ d. Inr (None, d)), io_write = (\<lambda>_ _ d. Inr (False, d)), io_print = (\<lambda>_ d. d),
     io_timer = (\<lambda>d. (0, d)), io_key = (\<lambda>(ks, us). let (c, ks) = poll_list ks in (c, ks, us)),
     io_rx = (\<lambda>(ks, us). let (c, us) = poll_list us in (c, ks, us)), io_flush = Inr\<rparr>"

theorem drain_queues_keys_in_order_witness:
  "\<exists>k'. syscall_handler (\<lambda>_. 7) typed_io (\<lambda>_ out wd. Inr (out, wd)) 5 4 (request_message 0 []) tiny_kernel ([97, 98], [13])
      = Inr (None, request_message 0 [], k', [], [])
    \<and> contents (mail k') = [hw_msg (\<lambda>_. 7) 1 97, hw_msg (\<lambda>_. 7) 1 98, hw_msg (\<lambda>_. 7) 2 10]"
proof -
  have "emits (io_key typed_io) ([97, 98], [13]) [97, 98] ([], [13])" "emits (io_rx typed_io) ([], [13]) [13] ([], [])"
    by (auto intro!: emits.intros simp: typed_io_def)
  from drain_queues_keys_in_order [OF this, of 5 tiny_kernel "\<lambda>_. 7" "\<lambda>_ out wd. Inr (out, wd)" "request_message 0 []"]
  show ?thesis by (auto simp: tiny_kernel_def empty_mailbox_wf newline_for_return_def)
qed

end
