(* ===== verification/Shell_Kernel.thy ===== *)
theory Shell_Kernel
  imports Shell Syscall_Properties
begin

text \<open>
  The shell on the kernel: the wait for a reply over any queue of messages, what comes back from a
  request, and what the trade mode leaves on the disk.
\<close>

section \<open>Waiting on a queue\<close>

text \<open>
  The contract the wait relies on: a receive gives the oldest waiting message, or one of type 0, and
  leaves the rest of the machine as it is.
\<close>

locale inbox =
  fixes sys :: "'k sys" and ok :: "'k \<Rightarrow> bool" and waiting :: "'k \<Rightarrow> os_message list" and rest :: "'k \<Rightarrow> 'r"
  assumes receive_law: "ok k \<Longrightarrow> \<exists>m k'. ipc_receive sys buf k = Inr (m, k') \<and> ok k' \<and> waiting k' = tl (waiting k)
    \<and> rest k' = rest k \<and> (case waiting k of [] \<Rightarrow> msg_type m = 0 | r # rs \<Rightarrow> m = r)"
begin

lemma wait_finds:
  "ok k \<Longrightarrow> waiting k = xs @ r # ys \<Longrightarrow> \<forall>m\<in>set xs. msg_type m \<noteq> msg_type r \<Longrightarrow> length xs < fuel
    \<Longrightarrow> \<exists>k'. wait_reply sys buf (msg_type r) fuel k = Inr (r, k') \<and> ok k' \<and> waiting k' = ys \<and> rest k' = rest k"
proof (induction fuel arbitrary: k buf xs)
  case (Suc fuel)
  obtain m k' where m: "ipc_receive sys buf k = Inr (m, k')" "ok k'" "waiting k' = tl (waiting k)" "rest k' = rest k"
    "case waiting k of [] \<Rightarrow> msg_type m = 0 | r # rs \<Rightarrow> m = r"
    using receive_law [OF Suc.prems(1)] by blast
  show ?case
  proof (cases xs)
    case Nil
    then show ?thesis using m Suc.prems(2) by simp
  next
    case (Cons x xs')
    then show ?thesis using m Suc.prems Suc.IH [OF m(2), of xs' m] by auto
  qed
qed simp

lemma wait_hangs:
  "ok k \<Longrightarrow> \<forall>m\<in>set (waiting k). msg_type m \<noteq> t \<Longrightarrow> t \<noteq> 0 \<Longrightarrow> wait_reply sys buf t fuel k = Inl Spin"
proof (induction fuel arbitrary: k buf)
  case (Suc fuel)
  obtain m k' where m: "ipc_receive sys buf k = Inr (m, k')" "ok k'" "waiting k' = tl (waiting k)"
    "case waiting k of [] \<Rightarrow> msg_type m = 0 | r # rs \<Rightarrow> m = r"
    using receive_law [OF Suc.prems(1)] by blast
  have "\<forall>m\<in>set (waiting k'). msg_type m \<noteq> t" using m(3) Suc.prems(2) by (cases "waiting k") auto
  moreover have "msg_type m \<noteq> t" using m(4) Suc.prems(2,3) by (cases "waiting k") auto
  ultimately show ?case using m(1) Suc.IH [OF m(2), of m] Suc.prems(3) by simp
qed simp

end

interpretation kernel_inbox: inbox "kernel_sys stale io vm n" "\<lambda>(k, d). mailbox_wf (mail k)" "\<lambda>(k, d). contents (mail k)"
  "\<lambda>(k, d). (watch k, vol k, d)"
proof unfold_locales
  fix kd :: "kernel \<times> 'a" and buf
  assume "case kd of (k, d) \<Rightarrow> mailbox_wf (mail k)"
  then obtain k d where k: "kd = (k, d)" "mailbox_wf (mail k)" by (cases kd) auto
  note t = take_contents [OF k(2)]
  show "\<exists>m k'. ipc_receive (kernel_sys stale io vm n) buf kd = Inr (m, k') \<and> (case k' of (k, d) \<Rightarrow> mailbox_wf (mail k))
    \<and> (case k' of (k, d) \<Rightarrow> contents (mail k)) = tl (case kd of (k, d) \<Rightarrow> contents (mail k))
    \<and> (case k' of (k, d) \<Rightarrow> (watch k, vol k, d)) = (case kd of (k, d) \<Rightarrow> (watch k, vol k, d))
    \<and> (case (case kd of (k, d) \<Rightarrow> contents (mail k)) of [] \<Rightarrow> msg_type m = 0 | r # rs \<Rightarrow> m = r)"
    using t k(1)
    by (cases "contents (mail k)")
      (auto simp: kernel_sys_def syscall_handler_def ipc_recv_take split: prod.splits option.splits)
qed

section \<open>What the kernel answers\<close>

lemma contents_in: "mailbox_wf q \<Longrightarrow> set (contents q) \<subseteq> set (ipc_queue q)"
  by (auto simp: contents_def ring_read_def mailbox_wf_def intro!: nth_mem)


definition request_types :: "u16 list" where
  "request_types = [2, 4, 6, 8, 10, 12]"

lemma log_request_mail: "log_request io ty msg c k d = (k', d') \<Longrightarrow> mail k' = mail k \<and> vol k' = vol k"
  by (auto simp: log_request_def split: prod.splits)

lemma kernel_request_replies:
  assumes "kernel_request stale io vm msg k d = Inr (k', d')" "msg_type msg \<in> set request_types"
  shows "\<exists>s. mail k' = ipc_kernel_send (reply stale msg (msg_type msg + 1) s) (mail k) \<and> length s \<le> 255 \<and> vol k' = vol k"
proof -
  have short: "length (reply_text b) \<le> 255" for b by (simp add: reply_text_def)
  show ?thesis
    using assms short
    by (auto simp: request_types_def kernel_request_def fs_list_request_def fs_read_request_def fs_write_request_def
        atk_exec_request_def watcher_dump_request_def watcher_sync_request_def res_simps Let_def
        dest!: log_request_mail split: prod.splits if_splits)
qed

text \<open>A request whose reply is \<open>r\<close>: with room in the mailbox the wait ends at \<open>r\<close>, and everything queued before is gone.\<close>

lemma exchange_replied:
  assumes "mailbox_wf (mail k)" "length (contents (mail k)) < 255" "target_id req = 1"
    "kernel_request stale io vm req k d = Inr (k1, d1)" "mail k1 = ipc_kernel_send r (mail k)"
    "\<forall>m\<in>set (contents (mail k)). msg_type m \<noteq> msg_type r" "length (contents (mail k)) < fuel"
  shows "\<exists>k2. exchange (kernel_sys stale io vm n) stale fuel req (msg_type r) (k, d) = Inr (r, k2, d1)
    \<and> mailbox_wf (mail k2) \<and> contents (mail k2) = [] \<and> vol k2 = vol k1 \<and> watch k2 = watch k1"
proof -
  have q: "mailbox_wf (mail k1)" "contents (mail k1) = contents (mail k) @ [r]"
    using send_contents [OF assms(1), of r] assms(2,5) by simp_all
  have "sys_ipc_send (kernel_sys stale io vm n) req (k, d) = Inr (k1, d1)"
    using assms(3,4) by (simp add: kernel_sys_def syscall_handler_def)
  moreover obtain kd where "wait_reply (kernel_sys stale io vm n) (local_message stale) (msg_type r) fuel (k1, d1) = Inr (r, kd)"
    "case kd of (k, d) \<Rightarrow> mailbox_wf (mail k)" "(case kd of (k, d) \<Rightarrow> contents (mail k)) = []"
    "(case kd of (k, d) \<Rightarrow> (watch k, vol k, d)) = (watch k1, vol k1, d1)"
    using kernel_inbox.wait_finds [of "(k1, d1)" "contents (mail k)" r "[]" fuel stale io vm n "local_message stale"]
      q assms(6,7) by (auto split: prod.splits)
  ultimately show ?thesis by (cases kd) (auto simp: exchange_def)
qed

lemma exchange_dropped:
  assumes "mailbox_wf (mail k)" "length (contents (mail k)) = 255" "target_id req = 1"
    "kernel_request stale io vm req k d = Inr (k1, d1)" "mail k1 = ipc_kernel_send r (mail k)"
    "\<forall>m\<in>set (contents (mail k)). msg_type m \<noteq> t" "t \<noteq> 0"
  shows "exchange (kernel_sys stale io vm n) stale fuel req t (k, d) = Inl Spin"
proof -
  have "mailbox_wf (mail k1)" "contents (mail k1) = contents (mail k)"
    using send_contents [OF assms(1), of r] assms(2,5) by simp_all
  then have "wait_reply (kernel_sys stale io vm n) (local_message stale) t fuel (k1, d1) = Inl Spin"
    using kernel_inbox.wait_hangs [of "(k1, d1)"] assms(6,7) by auto
  then show ?thesis using assms(3,4) by (simp add: exchange_def kernel_sys_def syscall_handler_def)
qed

text \<open>
  C17: a program that sends the kernel a request and waits for the reply gets it, after as many
  receive calls as there were messages waiting and one more, when the mailbox has a slot free; with
  255 messages waiting the reply is dropped and the wait never ends. Either way whatever was waiting,
  keys typed ahead included, is thrown away.
\<close>

theorem shell_exchange_answers_iff_room:
  assumes "mailbox_wf (mail k)" "target_id req = 1" "msg_type req \<in> set request_types"
    "kernel_request stale io vm req k d = Inr (k1, d1)"
    "\<forall>m\<in>set (contents (mail k)). msg_type m \<noteq> msg_type req + 1"
  shows "if length (contents (mail k)) < 255
    then \<forall>fuel > length (contents (mail k)). \<exists>r k2.
      exchange (kernel_sys stale io vm n) stale fuel req (msg_type req + 1) (k, d) = Inr (r, k2, d1)
      \<and> msg_type r = msg_type req + 1 \<and> target_id r = sender_id req \<and> contents (mail k2) = [] \<and> vol k2 = vol k
    else \<forall>fuel. exchange (kernel_sys stale io vm n) stale fuel req (msg_type req + 1) (k, d) = Inl Spin"
proof -
  obtain s where r: "mail k1 = ipc_kernel_send (reply stale req (msg_type req + 1) s) (mail k)" "vol k1 = vol k"
    using kernel_request_replies [OF assms(4,3)] by blast
  let ?r = "reply stale req (msg_type req + 1) s"
  show ?thesis
  proof (cases "length (contents (mail k)) < 255")
    case True
    have "\<exists>r k2. exchange (kernel_sys stale io vm n) stale fuel req (msg_type req + 1) (k, d) = Inr (r, k2, d1)
      \<and> msg_type r = msg_type req + 1 \<and> target_id r = sender_id req \<and> contents (mail k2) = [] \<and> vol k2 = vol k"
      if "length (contents (mail k)) < fuel" for fuel
      using exchange_replied [OF assms(1) True assms(2,4) r(1) _ that, of n] assms(5) r(2) unfolding reply_simps by (metis reply_simps(2,3))
    with True show ?thesis by simp
  next
    case False
    then have "length (contents (mail k)) = 255" using contents_bound [of "mail k"] by simp
    moreover have "msg_type req + 1 \<noteq> 0" using assms(3) by (auto simp: request_types_def)
    ultimately show ?thesis using exchange_dropped [OF assms(1) _ assms(2,4) r(1) assms(5)] by simp
  qed
qed

theorem shell_exchange_answers_iff_room_witness:
  "(\<exists>r k2. exchange (kernel_sys (\<lambda>_. 7) (ram_io 200) idle_vm 1) (\<lambda>_. 7) 1 (plain_request (\<lambda>_. 7) 10) 11 (tiny_kernel, tiny_disk)
      = Inr (r, k2, tiny_disk) \<and> msg_type r = 11 \<and> contents (mail k2) = [])
    \<and> exchange (kernel_sys (\<lambda>_. 7) (ram_io 200) idle_vm 1) (\<lambda>_. 7) 1000 (plain_request (\<lambda>_. 7) 10) 11
        (tiny_kernel\<lparr>mail := full_mailbox\<rparr>, tiny_disk) = Inl Spin"
proof -
  let ?req = "plain_request (\<lambda>_. 7) 10"
  have dump: "kernel_request (\<lambda>_. 7) (ram_io 200) idle_vm ?req (tiny_kernel\<lparr>mail := q\<rparr>) tiny_disk
      = Inr (send_reply (\<lambda>_. 7) ?req 11 (lit ''Watcher memory dumped to host UART terminal.\<newline>'') (tiny_kernel\<lparr>mail := q\<rparr>), tiny_disk)" for q
    by (simp add: kernel_request_def watcher_dump_request_def plain_request_def watcher_dump_history_def tiny_kernel_def
        bss_watcher_def ram_io_def)
  note run = shell_exchange_answers_iff_room [OF _ _ _ dump, of _ 1 for q]
  have "\<forall>m\<in>set (contents full_mailbox). msg_type m \<noteq> 11"
    using contents_in [OF full_mailbox_wf(1)] by (auto simp: full_mailbox_def empty_mailbox_def)
  then have full: "exchange (kernel_sys (\<lambda>_. 7) (ram_io 200) idle_vm 1) (\<lambda>_. 7) 1000 ?req 11
      (tiny_kernel\<lparr>mail := full_mailbox\<rparr>, tiny_disk) = Inl Spin"
    using run [of full_mailbox] by (simp add: full_mailbox_wf plain_request_def request_types_def)
  have "\<exists>r k2. exchange (kernel_sys (\<lambda>_. 7) (ram_io 200) idle_vm 1) (\<lambda>_. 7) 1 ?req 11
      (tiny_kernel\<lparr>mail := empty_mailbox\<rparr>, tiny_disk) = Inr (r, k2, tiny_disk) \<and> msg_type r = 11 \<and> contents (mail k2) = []"
    using run [of empty_mailbox] by (simp add: empty_mailbox_wf plain_request_def request_types_def) blast
  with full show ?thesis by (simp add: tiny_kernel_def)
qed

section \<open>The trade log\<close>

text \<open>What a trade puts into the file: its first 242 bytes and a line break.\<close>

definition trade_line :: "u8 list \<Rightarrow> u8 list" where
  "trade_line t = take 242 t @ [10]"

lemma trade_request_parts:
  assumes "0 \<notin> set t"
  shows "payload (trade_request stale t) = lit ''TRADES.LOG'' @ 0 # trade_line t @ drop (11 + length (trade_line t)) (payload (trade_request stale t))"
    "msg_length (trade_request stale t) = of_nat (length (lit ''TRADES.LOG'') + 1 + length (trade_line t))"
    "target_id (trade_request stale t) = 1" "msg_type (trade_request stale t) = 6"
  by (simp_all add: trade_request_def trade_line_def file_trades_def Let_def overwrite_def min_def)

lemma length_trade_line:
  shows "length (trade_line t) \<le> 243" "unat (of_nat (length (trade_line t)) :: u32) = length (trade_line t)"
proof -
  show "length (trade_line t) \<le> 243" by (simp add: trade_line_def)
  then show "unat (of_nat (length (trade_line t)) :: u32) = length (trade_line t)"
    by (simp add: unat_of_nat take_bit_nat_eq_self)
qed

lemma data_sector_bytes_append: "unat n \<le> length data \<Longrightarrow> data_sector_bytes n (data @ r) = data_sector_bytes n data"
  by (auto simp: data_sector_bytes_def word_less_nat_alt)

lemma trades_usable: "usable_name (format_fat_name (lit ''TRADES.LOG''))"
  by (simp add: usable_name_def format_fat_name_def lit_def cstr_def overwrite_def to_upper_def)

text \<open>No entry of the root directory is marked as deleted; the kernel never marks one.\<close>

definition undeleted :: "fat_fs \<Rightarrow> store \<Rightarrow> bool" where
  "undeleted fs S \<longleftrightarrow> (\<forall>i<16. dir_name0 (S (root_sector fs)) i \<noteq> 0xE5)"

lemma write_ram_undeleted:
  assumes "volume_wf fs cap S" "min (unat n) 512 \<le> length data" "usable_name (format_fat_name name)" "undeleted fs S"
    "fs_write_file_content (ram_io cap) fs name data n S = Inr S'"
  shows "undeleted fs S'"
proof -
  have t: "length (format_fat_name name) = 11" "format_fat_name name ! 0 \<noteq> 0xE5" using assms(3) by (simp_all add: usable_name_def)
  show ?thesis
    using assms(4,5) volume_wfD(4) [OF assms(1)] t free_slot_data(1)
    by (auto simp: write_ram [OF assms(1,2)] undeleted_def claimed_sectors [OF assms(1)] stored_sectors [OF assms(1)]
        stored_names split: option.splits if_splits)
qed

text \<open>One trade of \<^verbatim>\<open>trade.listen\<close> on the way to the disk, and several in a row.\<close>

lemma trade_exchange:
  assumes "block_device io ok sec cap" "ok d" "volume_wf (vol k) cap (sec d)" "undeleted (vol k) (sec d)"
    "mailbox_wf (mail k)" "contents (mail k) = []" "0 \<notin> set t" "0 < fuel"
  obtains r k' d' where "exchange (kernel_sys stale io vm n) stale fuel (trade_request stale t) 7 (k, d) = Inr (r, k', d')"
    "ok d'" "volume_wf (vol k) cap (sec d')" "undeleted (vol k) (sec d')" "mailbox_wf (mail k')" "contents (mail k') = []"
    "vol k' = vol k" "\<forall>u. usable_name u \<longrightarrow> file_of (vol k) (sec d') u = write_effect (vol k) (sec d)
      (format_fat_name (lit ''TRADES.LOG'')) (of_nat (length (trade_line t)), data_sector_bytes (of_nat (length (trade_line t))) (trade_line t)) u"
proof -
  let ?m = "trade_request stale t" and ?rest = "trade_line t @ drop (11 + length (trade_line t)) (payload (trade_request stale t))"
  let ?n = "of_nat (length (trade_line t)) :: u32"
  note p = trade_request_parts [OF assms(7)]
  have nul: "0 \<notin> set (lit ''TRADES.LOG'')" by (simp add: lit_def)
  note wp = write_message_parts [OF nul p(1)]
  have n: "unat ?n = length (trade_line t)" by (rule length_trade_line(2))
  have len: "?n = msg_length ?m - of_nat (length (cstr (payload ?m)) + 1)" by (simp add: wp(1) p(2))
  have fit: "min (unat ?n) 512 \<le> length ?rest" by (simp add: n)
  have nm: "usable_name (format_fat_name (payload ?m))" using trades_usable by (simp only: wp(4))
  obtain S' where S': "fs_write_file_content (ram_io cap) (vol k) (payload ?m) ?rest ?n (sec d) = Inr S'" "volume_wf (vol k) cap S'"
    and eff: "\<And>u. usable_name u \<Longrightarrow> file_of (vol k) S' u
       = write_effect (vol k) (sec d) (format_fat_name (payload ?m)) (?n, data_sector_bytes ?n ?rest) u"
    using write_ram_effect [OF assms(3) fit nm] by blast
  obtain k1 d1 where w: "fs_write_request stale io ?m k d = Inr (k1, d1)" "ok d1" "sec d1 = S'" "vol k1 = vol k"
    "mail k1 = ipc_kernel_send (reply stale ?m 7 (lit ''Write committed to disk.\<newline>'')) (mail k)"
    by (rule fs_write_request_runs [OF assms(1,2) wp(2) len wp(3) [symmetric] S'(1), where stale = stale])
  have req: "kernel_request stale io vm ?m k d = Inr (k1, d1)" using w(1) p(4) by (simp add: kernel_request_def)
  obtain k2 where k2: "exchange (kernel_sys stale io vm n) stale fuel ?m 7 (k, d)
      = Inr (reply stale ?m 7 (lit ''Write committed to disk.\<newline>''), k2, d1)"
    "mailbox_wf (mail k2)" "contents (mail k2) = []" "vol k2 = vol k1"
    using exchange_replied [OF assms(5) _ p(3) req w(5), of fuel n] assms(6,8) by (auto simp: reply_simps)
  have "data_sector_bytes ?n ?rest = data_sector_bytes ?n (trade_line t)"
    by (rule data_sector_bytes_append) (simp add: n)
  with eff have "\<forall>u. usable_name u \<longrightarrow> file_of (vol k) (sec d1) u = write_effect (vol k) (sec d)
      (format_fat_name (lit ''TRADES.LOG'')) (?n, data_sector_bytes ?n (trade_line t)) u"
    by (simp add: w(3) wp(4))
  then show ?thesis
    using that [OF k2(1) w(2)] S'(2) write_ram_undeleted [OF assms(3) fit nm assms(4) S'(1)] k2(2-4) w(3,4) by simp
qed

fun commit_trades :: "'k sys \<Rightarrow> stale \<Rightarrow> nat \<Rightarrow> u8 list list \<Rightarrow> 'k \<Rightarrow> 'k res" where
  "commit_trades sys stale fuel [] k = Inr k"
| "commit_trades sys stale fuel (t # ts) k =
     res_bind (exchange sys stale fuel (trade_request stale t) 7 k) (\<lambda>(r, k). commit_trades sys stale fuel ts k)"

lemma later_trades_invisible:
  assumes "block_device io ok sec cap"
  shows "ok d \<Longrightarrow> volume_wf (vol k) cap (sec d) \<Longrightarrow> undeleted (vol k) (sec d) \<Longrightarrow> mailbox_wf (mail k)
    \<Longrightarrow> contents (mail k) = [] \<Longrightarrow> \<forall>t\<in>set ts. 0 \<notin> set t \<Longrightarrow> 0 < fuel
    \<Longrightarrow> file_of (vol k) (sec d) (format_fat_name (lit ''TRADES.LOG'')) = Some f
    \<Longrightarrow> \<exists>k' d'. commit_trades (kernel_sys stale io vm n) stale fuel ts (k, d) = Inr (k', d')
      \<and> file_of (vol k') (sec d') (format_fat_name (lit ''TRADES.LOG'')) = Some f"
proof (induction ts arbitrary: k d)
  case (Cons t ts)
  from Cons.prems(6) have nul: "0 \<notin> set t" by simp
  obtain r k1 d1 where x: "exchange (kernel_sys stale io vm n) stale fuel (trade_request stale t) 7 (k, d) = Inr (r, k1, d1)"
    "ok d1" "volume_wf (vol k) cap (sec d1)" "undeleted (vol k) (sec d1)" "mailbox_wf (mail k1)" "contents (mail k1) = []"
    "vol k1 = vol k"
    and eff: "\<forall>u. usable_name u \<longrightarrow> file_of (vol k) (sec d1) u = write_effect (vol k) (sec d)
      (format_fat_name (lit ''TRADES.LOG'')) (of_nat (length (trade_line t)), data_sector_bytes (of_nat (length (trade_line t))) (trade_line t)) u"
    by (rule trade_exchange [OF assms Cons.prems(1-5) nul Cons.prems(7), where stale = stale and vm = vm and n = n])
  have "free_slot_of (vol k) (sec d) = None \<or> shadowed (vol k) (sec d) (format_fat_name (lit ''TRADES.LOG''))"
    using shadowed_after_write [OF Cons.prems(2) trades_usable] Cons.prems(3,8) by (simp add: undeleted_def)
  then have "file_of (vol k) (sec d1) (format_fat_name (lit ''TRADES.LOG'')) = Some f"
    using eff trades_usable Cons.prems(8) by (auto simp: write_effect_def)
  then show ?case using Cons.IH [of d1 k1] Cons.prems(6,7) x by simp
qed simp



end
