(* ===== verification/Terminal_Lemmas.thy ===== *)
theory Terminal_Lemmas
  imports Terminal
begin

text \<open>
  The drawing loops of the terminal, pixel by pixel: every loop that stays inside the framebuffer
  returns, changes nothing else of the context and sets exactly the pixels it visits.
\<close>

lemma store_loop:
  assumes "\<And>i f. i \<in> set xs \<Longrightarrow> length f = length (framebuffer ctx) \<Longrightarrow>
      body i (ctx\<lparr>framebuffer := f\<rparr>) = Inr (ctx\<lparr>framebuffer := if P i then f[k i := v] else f\<rparr>)"
  shows "\<exists>f. res_fold body xs ctx = Inr (ctx\<lparr>framebuffer := f\<rparr>) \<and> length f = length (framebuffer ctx)
    \<and> (\<forall>j<length f. f ! j = (if \<exists>i\<in>set xs. P i \<and> k i = j then v else framebuffer ctx ! j))"
  using assms
proof (induction xs arbitrary: ctx)
  case Nil
  then show ?case by (intro exI [of _ "framebuffer ctx"]) simp
next
  case (Cons i xs)
  define g where "g = (if P i then (framebuffer ctx)[k i := v] else framebuffer ctx)"
  have len: "length g = length (framebuffer ctx)" by (simp add: g_def)
  have step: "body i ctx = Inr (ctx\<lparr>framebuffer := g\<rparr>)"
    using Cons.prems [of i "framebuffer ctx"] by (simp add: g_def)
  have "\<exists>f. res_fold body xs (ctx\<lparr>framebuffer := g\<rparr>) = Inr (ctx\<lparr>framebuffer := g\<rparr>\<lparr>framebuffer := f\<rparr>)
      \<and> length f = length g
      \<and> (\<forall>j<length f. f ! j = (if \<exists>i\<in>set xs. P i \<and> k i = j then v else g ! j))"
    using Cons.IH [of "ctx\<lparr>framebuffer := g\<rparr>"] Cons.prems len by (simp cong: if_cong)
  then obtain f where f: "res_fold body xs (ctx\<lparr>framebuffer := g\<rparr>) = Inr (ctx\<lparr>framebuffer := f\<rparr>)"
    "length f = length (framebuffer ctx)"
    "\<forall>j<length f. f ! j = (if \<exists>i\<in>set xs. P i \<and> k i = j then v else g ! j)"
    using len by auto
  show ?case
    using f step by (intro exI [of _ f]) (auto simp: g_def nth_list_update)
qed

lemma copy_loop:
  assumes "n + s \<le> length (framebuffer ctx)" "n < 2 ^ 32" "0 < s" "unat src = s"
  shows "\<exists>f. res_fold (copy_pixel src) [0..<n] ctx = Inr (ctx\<lparr>framebuffer := f\<rparr>) \<and> length f = length (framebuffer ctx)
    \<and> (\<forall>j<length f. f ! j = (if j < n then framebuffer ctx ! (j + s) else framebuffer ctx ! j))"
  using assms(1,2)
proof (induction n)
  case 0
  then show ?case by (intro exI [of _ "framebuffer ctx"]) simp
next
  case (Suc n)
  then obtain f where f: "res_fold (copy_pixel src) [0..<n] ctx = Inr (ctx\<lparr>framebuffer := f\<rparr>)"
    "length f = length (framebuffer ctx)"
    "\<forall>j<length f. f ! j = (if j < n then framebuffer ctx ! (j + s) else framebuffer ctx ! j)" by auto
  have "unat (of_nat n :: u32) = n" using Suc.prems by (simp add: unat_of_nat take_bit_nat_eq_self)
  then have "copy_pixel src n (ctx\<lparr>framebuffer := f\<rparr>) = Inr (ctx\<lparr>framebuffer := f[n := f ! (s + n)]\<rparr>)"
    using Suc.prems f(2) assms(3,4) by (simp add: copy_pixel_def set_pixel_def Let_def)
  with f Suc.prems assms(3) show ?case
    by (intro exI [of _ "f[n := f ! (s + n)]"]) (auto simp: res_fold_append nth_list_update less_Suc_eq add.commute)
qed

section \<open>Screens made of character cells\<close>

text \<open>
  A screen of \<open>C\<close> columns and \<open>R\<close> rows of 16 by 16 pixels, in a framebuffer with room for it; \<open>pixel\<close>
  is the color at a position.
\<close>

definition screen_fits :: "nat \<Rightarrow> nat \<Rightarrow> term_ctx \<Rightarrow> bool" where
  "screen_fits C R ctx \<longleftrightarrow> 0 < C \<and> 0 < R \<and> unat (screen_width ctx) = 16 * C \<and> unat (screen_height ctx) = 16 * R
     \<and> 16 * C * (16 * R) \<le> length (framebuffer ctx) \<and> 16 * C * (16 * R) < 2 ^ 31"

definition pixel :: "term_ctx \<Rightarrow> nat \<Rightarrow> nat \<Rightarrow> u32" where
  "pixel ctx x y = framebuffer ctx ! (y * unat (screen_width ctx) + x)"

lemma pixel_index:
  assumes "x < W" "y < (H :: nat)"
  shows "y * W + x < W * H"
proof -
  have "y * W + x < Suc y * W" using assms(1) by simp
  also have "\<dots> \<le> H * W" using assms(2) by (intro mult_le_mono1) simp
  finally show ?thesis by (simp add: mult.commute)
qed

lemma pixel_index_eq:
  assumes "x < W" "x' < (W :: nat)"
  shows "y * W + x = y' * W + x' \<longleftrightarrow> x = x' \<and> y = y'"
proof
  assume "y * W + x = y' * W + x'"
  then have "(x + y * W) mod W = (x' + y' * W) mod W" "(x + y * W) div W = (x' + y' * W) div W"
    by (simp_all add: add.commute)
  then show "x = x' \<and> y = y'" using assms by simp
qed simp

lemma unat_pixel:
  assumes "screen_fits C R ctx" "unat px < 16 * C" "unat py < 16 * R"
  shows "unat (py * screen_width ctx + px) = unat py * unat (screen_width ctx) + unat px"
    "unat py * unat (screen_width ctx) + unat px < length (framebuffer ctx)"
proof -
  have lt: "unat py * (16 * C) + unat px < 16 * C * (16 * R)" using pixel_index [OF assms(2,3)] .
  have w: "unat (screen_width ctx) = 16 * C" and fits: "16 * C * (16 * R) \<le> length (framebuffer ctx)"
    and small: "16 * C * (16 * R) < 2147483648" using assms(1) by (simp_all add: screen_fits_def)
  have b: "unat py * (16 * C) < 4294967296" "unat py * (16 * C) + unat px < 4294967296"
    using less_trans [OF lt small] by linarith+
  have "unat (py * screen_width ctx) = unat py * (16 * C)" using b(1) by (simp add: unat_word_ariths(2) w)
  then show "unat (py * screen_width ctx + px) = unat py * unat (screen_width ctx) + unat px"
    using b(2) by (simp add: unat_word_ariths(1) w)
  show "unat py * unat (screen_width ctx) + unat px < length (framebuffer ctx)" using lt fits w by simp
qed

lemma screen_fitsD:
  assumes "screen_fits C R ctx"
  shows "unat (screen_width ctx) = 16 * C" "unat (screen_height ctx) = 16 * R" "0 < C" "0 < R"
    "16 * C * (16 * R) \<le> length (framebuffer ctx)" "unat (screen_width ctx * screen_height ctx) = 16 * C * (16 * R)"
    "16 * C * (16 * R) < 4294967296" "16 * C < 2147483648" "16 * R < 2147483648"
proof -
  show s: "unat (screen_width ctx) = 16 * C" "unat (screen_height ctx) = 16 * R" "0 < C" "0 < R"
    "16 * C * (16 * R) \<le> length (framebuffer ctx)" "16 * C * (16 * R) < 4294967296"
    using assms by (simp_all add: screen_fits_def)
  have "16 * C * (16 * R) < 2147483648" using assms by (simp add: screen_fits_def)
  moreover have "16 * C * 1 \<le> 16 * C * (16 * R)" "1 * (16 * R) \<le> 16 * C * (16 * R)"
    using s(3,4) by (intro mult_le_mono; simp)+
  ultimately show "16 * C < 2147483648" "16 * R < 2147483648" by linarith+
  show "unat (screen_width ctx * screen_height ctx) = 16 * C * (16 * R)"
    unfolding unat_word_ariths(2) s(1,2) using s(6) by simp
qed

lemma screen_fits_framebuffer:
  "screen_fits C R ctx \<Longrightarrow> length f = length (framebuffer ctx) \<Longrightarrow> screen_fits C R (ctx\<lparr>framebuffer := f\<rparr>)"
  by (simp add: screen_fits_def)

lemma set_pixel_nat:
  assumes "i < length (framebuffer ctx)" "i < 4294967296"
  shows "set_pixel (of_nat i) v ctx = Inr (ctx\<lparr>framebuffer := (framebuffer ctx)[i := v]\<rparr>)"
  using assms by (simp add: set_pixel_def unat_of_nat take_bit_nat_eq_self)

text \<open>Filling a range of the screen.\<close>

lemma fill_loop:
  assumes "b \<le> length (framebuffer ctx)" "b < 4294967296"
  shows "\<exists>f. res_fold (\<lambda>i. set_pixel (of_nat i) v) [a..<b] ctx = Inr (ctx\<lparr>framebuffer := f\<rparr>)
    \<and> length f = length (framebuffer ctx)
    \<and> (\<forall>j<length f. f ! j = (if a \<le> j \<and> j < b then v else framebuffer ctx ! j))"
proof -
  have "set_pixel (of_nat i) v (ctx\<lparr>framebuffer := f\<rparr>) = Inr (ctx\<lparr>framebuffer := if True then f[i := v] else f\<rparr>)"
    if "i \<in> set [a..<b]" "length f = length (framebuffer ctx)" for i f
    using that assms set_pixel_nat [of i "ctx\<lparr>framebuffer := f\<rparr>" v] by simp
  from store_loop [where P = "\<lambda>_. True" and k = "\<lambda>i. i" and xs = "[a..<b]", OF this] show ?thesis by simp
qed

lemma clear_pixels:
  assumes "screen_fits C R ctx"
  shows "\<exists>f. term_clear_screen ctx = Inr (ctx\<lparr>framebuffer := f, cursor_x := 0, cursor_y := 0\<rparr>)
    \<and> length f = length (framebuffer ctx) \<and> (\<forall>j < 16 * C * (16 * R). f ! j = COLOR_BG)"
proof -
  note s = screen_fitsD [OF assms]
  from fill_loop [OF s(5,7), of COLOR_BG 0]
  obtain f where "res_fold (\<lambda>i. set_pixel (of_nat i) COLOR_BG) [0..<16 * C * (16 * R)] ctx = Inr (ctx\<lparr>framebuffer := f\<rparr>)"
    "length f = length (framebuffer ctx)" "\<forall>j<length f. f ! j = (if j < 16 * C * (16 * R) then COLOR_BG else framebuffer ctx ! j)"
    by auto
  then show ?thesis
    using s(5) unfolding term_clear_screen_def s(6) by (intro exI [of _ f]) simp
qed

section \<open>A character in its cell\<close>

text \<open>The pixels of a cell that a character sets: each dot of the glyph is two pixels wide and high.\<close>

definition glyph_dot :: "u8 \<Rightarrow> nat \<Rightarrow> nat \<Rightarrow> bool" where
  "glyph_dot c gx gy \<longleftrightarrow> 32 \<le> c \<and> c \<le> 126 \<and> bit (font8x8 ! (unat c - 32) ! (gy div 2)) (7 - gx div 2)"

lemma cell_bounds: "row < R \<Longrightarrow> i < 16 \<Longrightarrow> 16 * row + i < 16 * (R :: nat)"
  by linarith

lemma cell_eq: "i < 16 \<Longrightarrow> 16 * a + i = X \<longleftrightarrow> X div 16 = a \<and> X mod 16 = (i :: nat)"
  by auto

lemma double_eq: "d < 2 \<Longrightarrow> 2 * a + d = g \<longleftrightarrow> g div 2 = a \<and> g mod 2 = (d :: nat)"
  by auto

lemma cell_split: "(n :: nat) = 16 * (n div 16) + (2 * (n mod 16 div 2) + n mod 2)"
proof -
  have "n mod 16 mod 2 = n mod 2" by (rule mod_mod_cancel) simp
  then show ?thesis using mult_div_mod_eq [of 2 "n mod 16"] mult_div_mod_eq [of 16 n] by linarith
qed

lemma draw_step:
  assumes "screen_fits C R ctx" "unat x = 16 * col0" "unat y = 16 * row0" "col0 < C" "row0 < R"
    "row < 8" "col < 8" "dy < 2" "dx < 2"
  shows "draw_pixel glyph x y (row, col, dy, dx) ctx = Inr (ctx\<lparr>framebuffer :=
    if bit (glyph ! row) (7 - col)
    then (framebuffer ctx)[(16 * row0 + (2 * row + dy)) * (16 * C) + (16 * col0 + (2 * col + dx)) := COLOR_FG] else framebuffer ctx\<rparr>)"
proof -
  note s = screen_fitsD [OF assms(1)]
  have b: "16 * col0 + (2 * col + dx) < 16 * C" "16 * row0 + (2 * row + dy) < 16 * R"
    using assms(4-9) by (intro cell_bounds; linarith)+
  have px: "unat (x + of_nat col * 2 + of_nat dx) = 16 * col0 + (2 * col + dx)"
    using b s(8) assms(2,7,9) by (simp add: unat_word_ariths unat_of_nat take_bit_nat_eq_self)
  have py: "unat (y + of_nat row * 2 + of_nat dy) = 16 * row0 + (2 * row + dy)"
    using b s(9) assms(3,6,8) by (simp add: unat_word_ariths unat_of_nat take_bit_nat_eq_self)
  have "unat (x + of_nat col * 2 + of_nat dx) < 16 * C" "unat (y + of_nat row * 2 + of_nat dy) < 16 * R"
    using px py b by simp_all
  note u = unat_pixel [OF assms(1) this]
  show ?thesis
    using b u unfolding px py s(1)
    by (simp add: draw_pixel_def Let_def set_pixel_def word_less_nat_alt px py s(1,2) bit_iff_and_push_bit_not_eq_0)
qed

lemma draw_pixels:
  assumes fits: "screen_fits C R ctx" and x: "unat x = 16 * col0" and y: "unat y = 16 * row0" and cell: "col0 < C" "row0 < R"
  shows "\<exists>f. term_draw_char c x y ctx = Inr (ctx\<lparr>framebuffer := f\<rparr>) \<and> length f = length (framebuffer ctx)
    \<and> (\<forall>X < 16 * C. \<forall>Y < 16 * R. f ! (Y * (16 * C) + X) =
        (if X div 16 = col0 \<and> Y div 16 = row0 \<and> glyph_dot c (X mod 16) (Y mod 16) then COLOR_FG else framebuffer ctx ! (Y * (16 * C) + X)))"
proof (cases "c < 32 \<or> c > 126")
  case True
  then show ?thesis
    by (intro exI [of _ "framebuffer ctx"]) (auto simp: term_draw_char_def glyph_dot_def not_le)
next
  case False
  let ?g = "font8x8 ! (unat c - 32)"
  let ?is = "List.product [0..<8] (List.product [0..<8] (List.product [0..<2] [0..<2]))"
  let ?P = "\<lambda>(row, col, dy, dx). bit (?g ! row) (7 - col)"
  let ?k = "\<lambda>(row, col, dy, dx). (16 * row0 + (2 * row + dy)) * (16 * C) + (16 * col0 + (2 * col + dx))"
  have "draw_pixel ?g x y i (ctx\<lparr>framebuffer := f\<rparr>) = Inr (ctx\<lparr>framebuffer := if ?P i then f[?k i := COLOR_FG] else f\<rparr>)"
    if "i \<in> set ?is" "length f = length (framebuffer ctx)" for i f
    using that draw_step [OF screen_fits_framebuffer [OF fits that(2)] x y cell] by auto
  from store_loop [where P = ?P and k = ?k and xs = ?is, OF this]
  obtain f where f: "res_fold (draw_pixel ?g x y) ?is ctx = Inr (ctx\<lparr>framebuffer := f\<rparr>)" "length f = length (framebuffer ctx)"
    "\<forall>j<length f. f ! j = (if \<exists>i\<in>set ?is. ?P i \<and> ?k i = j then COLOR_FG else framebuffer ctx ! j)" by blast
  have "(\<exists>i\<in>set ?is. ?P i \<and> ?k i = Y * (16 * C) + X) \<longleftrightarrow> X div 16 = col0 \<and> Y div 16 = row0 \<and> glyph_dot c (X mod 16) (Y mod 16)"
    if XY: "X < 16 * C" "Y < 16 * R" for X Y
  proof
    assume "\<exists>i\<in>set ?is. ?P i \<and> ?k i = Y * (16 * C) + X"
    then obtain row col dy dx where i: "row < 8" "col < 8" "dy < 2" "dx < 2" "bit (?g ! row) (7 - col)"
      "(16 * row0 + (2 * row + dy)) * (16 * C) + (16 * col0 + (2 * col + dx)) = Y * (16 * C) + X" by auto
    have "16 * col0 + (2 * col + dx) < 16 * C" using cell(1) i by (intro cell_bounds; linarith)
    with i(6) XY(1) have "16 * col0 + (2 * col + dx) = X" "16 * row0 + (2 * row + dy) = Y"
      using pixel_index_eq [of "16 * col0 + (2 * col + dx)" "16 * C" X] by blast+
    with i show "X div 16 = col0 \<and> Y div 16 = row0 \<and> glyph_dot c (X mod 16) (Y mod 16)"
      using False by (auto simp: glyph_dot_def not_less)
  next
    assume a: "X div 16 = col0 \<and> Y div 16 = row0 \<and> glyph_dot c (X mod 16) (Y mod 16)"
    let ?i = "(Y mod 16 div 2, X mod 16 div 2, Y mod 2, X mod 2)"
    have "Y = 16 * row0 + (2 * (Y mod 16 div 2) + Y mod 2)" "X = 16 * col0 + (2 * (X mod 16 div 2) + X mod 2)"
      using a cell_split [of X] cell_split [of Y] by simp_all
    then have "?k ?i = Y * (16 * C) + X" by simp
    moreover have "?P ?i" using a by (simp add: glyph_dot_def)
    moreover have "?i \<in> set ?is" by (simp add: less_mult_imp_div_less)
    ultimately show "\<exists>i\<in>set ?is. ?P i \<and> ?k i = Y * (16 * C) + X" by blast
  qed
  moreover have "Y * (16 * C) + X < length f" if "X < 16 * C" "Y < 16 * R" for X Y
    using pixel_index [OF that] screen_fitsD(5) [OF fits] f(2) by simp
  ultimately show ?thesis
    using f False by (intro exI [of _ f]) (simp add: term_draw_char_def)
qed

section \<open>Erasing a cell\<close>

lemma erase_pixels:
  assumes fits: "screen_fits C R ctx" and x: "unat (cursor_x ctx) = 16 * col0" and y: "unat (cursor_y ctx) = 16 * row0"
    and cell: "col0 < C" "row0 < R"
  shows "\<exists>f. res_fold erase_pixel (List.product [0..<16] [0..<16]) ctx = Inr (ctx\<lparr>framebuffer := f\<rparr>) \<and> length f = length (framebuffer ctx)
    \<and> (\<forall>X < 16 * C. \<forall>Y < 16 * R. f ! (Y * (16 * C) + X) =
        (if X div 16 = col0 \<and> Y div 16 = row0 then COLOR_BG else framebuffer ctx ! (Y * (16 * C) + X)))"
proof -
  let ?is = "List.product [0..<16] [0..<16] :: (nat \<times> nat) list"
  let ?k = "\<lambda>(dy, dx). (16 * row0 + dy) * (16 * C) + (16 * col0 + dx)"
  note s = screen_fitsD [OF fits]
  have "erase_pixel i (ctx\<lparr>framebuffer := f\<rparr>) = Inr (ctx\<lparr>framebuffer := if True then f[?k i := COLOR_BG] else f\<rparr>)"
    if i: "i \<in> set ?is" and len: "length f = length (framebuffer ctx)" for i f
  proof -
    obtain dy dx where d: "i = (dy, dx)" "dy < 16" "dx < 16" using i by auto
    have b: "16 * col0 + dx < 16 * C" "16 * row0 + dy < 16 * R" using cell d by (intro cell_bounds; linarith)+
    have px: "unat (cursor_x ctx + of_nat dx) = 16 * col0 + dx"
      using b s(8) d x by (simp add: unat_word_ariths unat_of_nat take_bit_nat_eq_self)
    have py: "unat (cursor_y ctx + of_nat dy) = 16 * row0 + dy"
      using b s(9) d y by (simp add: unat_word_ariths unat_of_nat take_bit_nat_eq_self)
    have "unat (cursor_x ctx + of_nat dx) < 16 * C" "unat (cursor_y ctx + of_nat dy) < 16 * R"
      using px py b by simp_all
    note u = unat_pixel [OF screen_fits_framebuffer [OF fits len] this]
    show ?thesis using u unfolding d px py by (simp add: erase_pixel_def set_pixel_def px py s(1))
  qed
  from store_loop [where P = "\<lambda>_. True" and k = ?k and xs = ?is, OF this]
  obtain f where f: "res_fold erase_pixel ?is ctx = Inr (ctx\<lparr>framebuffer := f\<rparr>)" "length f = length (framebuffer ctx)"
    "\<forall>j<length f. f ! j = (if \<exists>i\<in>set ?is. True \<and> ?k i = j then COLOR_BG else framebuffer ctx ! j)" by blast
  have "(\<exists>i\<in>set ?is. True \<and> ?k i = Y * (16 * C) + X) \<longleftrightarrow> X div 16 = col0 \<and> Y div 16 = row0"
    if XY: "X < 16 * C" "Y < 16 * R" for X Y
  proof
    assume "\<exists>i\<in>set ?is. True \<and> ?k i = Y * (16 * C) + X"
    then obtain dy dx where i: "dy < 16" "dx < 16" "(16 * row0 + dy) * (16 * C) + (16 * col0 + dx) = Y * (16 * C) + X" by auto
    have "16 * col0 + dx < 16 * C" using cell(1) i by (intro cell_bounds; linarith)
    with i(3) XY(1) have "16 * col0 + dx = X" "16 * row0 + dy = Y"
      using pixel_index_eq [of "16 * col0 + dx" "16 * C" X] by blast+
    with i show "X div 16 = col0 \<and> Y div 16 = row0" by auto
  next
    assume "X div 16 = col0 \<and> Y div 16 = row0"
    then have "?k (Y mod 16, X mod 16) = Y * (16 * C) + X" by auto
    moreover have "(Y mod 16, X mod 16) \<in> set ?is" by simp
    ultimately show "\<exists>i\<in>set ?is. True \<and> ?k i = Y * (16 * C) + X" by blast
  qed
  moreover have "Y * (16 * C) + X < length f" if "X < 16 * C" "Y < 16 * R" for X Y
    using pixel_index [OF that] s(5) f(2) by simp
  ultimately show ?thesis using f by (intro exI [of _ f]) simp
qed

section \<open>Scrolling\<close>

lemma scroll_pixels:
  assumes fits: "screen_fits C R ctx"
  shows "\<exists>f. term_scroll ctx = Inr (ctx\<lparr>framebuffer := f, cursor_y := cursor_y ctx - 16\<rparr>) \<and> length f = length (framebuffer ctx)
    \<and> (\<forall>X < 16 * C. \<forall>Y < 16 * R. f ! (Y * (16 * C) + X) =
        (if Y + 16 < 16 * R then framebuffer ctx ! ((Y + 16) * (16 * C) + X) else COLOR_BG))"
proof -
  note s = screen_fitsD [OF fits]
  let ?W = "16 * C" and ?n = "16 * C * (16 * R - 16)"
  have "unat (screen_height ctx - 16) = 16 * R - 16"
    using s(2,4) by (simp add: unat_sub word_le_nat_alt)
  moreover have nle: "?n \<le> ?W * (16 * R)" by simp
  then have n32: "?n < 4294967296" using s(7) by linarith
  ultimately have n: "unat (screen_width ctx * (screen_height ctx - 16)) = ?n"
    unfolding unat_word_ariths(2) s(1) by simp
  have "?W * 16 \<le> ?W * (16 * R)" using s(4) by (intro mult_le_mono) simp_all
  then have "?W * 16 < 4294967296" using s(7) by linarith
  then have w: "unat (screen_width ctx * 16) = ?W * 16" unfolding unat_word_ariths(2) s(1) by simp
  have split: "?n + ?W * 16 = ?W * (16 * R)" using s(4) by (cases R) (simp_all add: algebra_simps)
  have "?n + ?W * 16 \<le> length (framebuffer ctx)" using s(5) split by simp
  moreover have "0 < ?W * 16" using s(3) by simp
  moreover have "?n < 2 ^ 32" using n32 by simp
  ultimately obtain f where f: "res_fold (copy_pixel (screen_width ctx * 16)) [0..<?n] ctx = Inr (ctx\<lparr>framebuffer := f\<rparr>)"
    "length f = length (framebuffer ctx)"
    "\<forall>j<length f. f ! j = (if j < ?n then framebuffer ctx ! (j + ?W * 16) else framebuffer ctx ! j)"
    using copy_loop [of ?n "?W * 16" ctx "screen_width ctx * 16"] w by auto
  obtain g where g: "res_fold (\<lambda>i. set_pixel (of_nat i) COLOR_BG) [?n..<?W * (16 * R)] (ctx\<lparr>framebuffer := f\<rparr>)
      = Inr (ctx\<lparr>framebuffer := g\<rparr>)" "length g = length f"
    "\<forall>j<length g. g ! j = (if ?n \<le> j \<and> j < ?W * (16 * R) then COLOR_BG else f ! j)"
    using fill_loop [of "?W * (16 * R)" "ctx\<lparr>framebuffer := f\<rparr>" COLOR_BG ?n] f(2) s(5,7) by auto
  have "term_scroll ctx = Inr (ctx\<lparr>framebuffer := g, cursor_y := cursor_y ctx - 16\<rparr>)"
    unfolding term_scroll_def Let_def n using f(1) g(1) s(6) by simp
  moreover have "g ! (Y * ?W + X) = (if Y + 16 < 16 * R then framebuffer ctx ! ((Y + 16) * ?W + X) else COLOR_BG)"
    if XY: "X < ?W" "Y < 16 * R" for X Y
  proof -
    have lt: "Y * ?W + X < ?W * (16 * R)" using pixel_index [OF XY] .
    have top: "Y * ?W + X < ?n \<longleftrightarrow> Y + 16 < 16 * R"
    proof
      assume a: "Y * ?W + X < ?n"
      show "Y + 16 < 16 * R"
      proof (rule ccontr)
        assume "\<not> Y + 16 < 16 * R"
        then have "16 * R - 16 \<le> Y" by linarith
        from mult_le_mono2 [OF this, of ?W] a show False unfolding mult.commute [of Y] by linarith
      qed
    next
      assume "Y + 16 < 16 * R"
      then have "Y < 16 * R - 16" by linarith
      then show "Y * ?W + X < ?n" using pixel_index [OF XY(1)] by blast
    qed
    have "Y * ?W + X < length g" "Y * ?W + X < length f" using lt s(5) f(2) g(2) by linarith+
    then have "g ! (Y * ?W + X) = (if Y * ?W + X < ?n then framebuffer ctx ! (Y * ?W + X + ?W * 16) else COLOR_BG)"
      using f(3) g(3) lt by (simp add: not_less)
    moreover have "(Y + 16) * ?W + X = Y * ?W + X + ?W * 16" by (simp add: add_mult_distrib)
    ultimately show ?thesis unfolding top by (simp only:)
  qed
  ultimately show ?thesis using f(2) g(2) by (intro exI [of _ g]) simp
qed

end
