(* ===== verification/Terminal_Grid.thy ===== *)
theory Terminal_Grid
  imports Terminal_Lemmas
begin

text \<open>
  The terminal as a user sees it: a grid of characters with a cursor. \<open>shows_grid\<close> relates a context to
  the grid its pixels draw; every terminal routine carries it over, so the framebuffer is always the
  picture of the grid and no store leaves it.
\<close>

section \<open>The grid\<close>

record text_screen =
  cells :: "u8 list list"
  crow :: nat
  ccol :: nat

definition blank_row :: "nat \<Rightarrow> u8 list" where
  "blank_row C = replicate C 32"

definition clear_grid :: "nat \<Rightarrow> nat \<Rightarrow> text_screen" where
  "clear_grid C R = \<lparr>cells = replicate R (blank_row C), crow = 0, ccol = 0\<rparr>"

definition set_cell :: "u8 \<Rightarrow> text_screen \<Rightarrow> text_screen" where
  "set_cell c g = g\<lparr>cells := (cells g)[crow g := (cells g ! crow g)[ccol g := c]]\<rparr>"

definition scroll_grid :: "nat \<Rightarrow> nat \<Rightarrow> text_screen \<Rightarrow> text_screen" where
  "scroll_grid C R g = (if crow g < R then g else g\<lparr>cells := tl (cells g) @ [blank_row C], crow := crow g - 1\<rparr>)"

definition put_grid :: "nat \<Rightarrow> nat \<Rightarrow> u8 \<Rightarrow> text_screen \<Rightarrow> text_screen" where
  "put_grid C R c g =
     (if c = 10 then scroll_grid C R (g\<lparr>crow := crow g + 1, ccol := 0\<rparr>)
      else if c = 8 then if ccol g = 0 then g else set_cell 32 (g\<lparr>ccol := ccol g - 1\<rparr>)
      else let g = set_cell c g
           in if ccol g + 1 = C then scroll_grid C R (g\<lparr>crow := crow g + 1, ccol := 0\<rparr>)
              else g\<lparr>ccol := ccol g + 1\<rparr>)"

text \<open>The picture of a grid.\<close>

definition grid_color :: "text_screen \<Rightarrow> nat \<Rightarrow> nat \<Rightarrow> u32" where
  "grid_color g X Y = (if glyph_dot (cells g ! (Y div 16) ! (X div 16)) (X mod 16) (Y mod 16) then COLOR_FG else COLOR_BG)"

definition grid_ok :: "nat \<Rightarrow> nat \<Rightarrow> text_screen \<Rightarrow> bool" where
  "grid_ok C R g \<longleftrightarrow> length (cells g) = R \<and> (\<forall>r < R. length (cells g ! r) = C) \<and> crow g \<le> R \<and> ccol g < C
     \<and> (\<forall>r < R. \<forall>c < C. crow g < r \<or> crow g = r \<and> ccol g \<le> c \<longrightarrow> cells g ! r ! c = 32)"

definition draws :: "nat \<Rightarrow> nat \<Rightarrow> term_ctx \<Rightarrow> text_screen \<Rightarrow> bool" where
  "draws C R ctx g \<longleftrightarrow> screen_fits C R ctx \<and> grid_ok C R g
     \<and> unat (cursor_x ctx) = 16 * ccol g \<and> unat (cursor_y ctx) = 16 * crow g
     \<and> (\<forall>X < 16 * C. \<forall>Y < 16 * R. framebuffer ctx ! (Y * (16 * C) + X) = grid_color g X Y)"

definition shows_grid :: "nat \<Rightarrow> nat \<Rightarrow> term_ctx \<Rightarrow> text_screen \<Rightarrow> bool" where
  "shows_grid C R ctx g \<longleftrightarrow> draws C R ctx g \<and> crow g < R"

section \<open>The cells\<close>

lemma blank_dot: "gx < 16 \<Longrightarrow> gy < 16 \<Longrightarrow> \<not> glyph_dot 32 gx gy"
proof -
  assume "gx < 16" "gy < 16"
  then have "gy div 2 < 8" by simp
  moreover have "font8x8 ! 0 = replicate 8 0" by (simp add: font8x8_def numeral_eq_Suc)
  ultimately show ?thesis by (simp add: glyph_dot_def)
qed

lemma set_cell_fields [simp]:
  "crow (set_cell c g) = crow g" "ccol (set_cell c g) = ccol g" "length (cells (set_cell c g)) = length (cells g)"
  by (simp_all add: set_cell_def)

lemma set_cell_nth:
  assumes "crow g < length (cells g)" "ccol g < length (cells g ! crow g)" "r < length (cells g)" "k < length (cells g ! r)"
  shows "cells (set_cell c g) ! r ! k = (if r = crow g \<and> k = ccol g then c else cells g ! r ! k)"
    "length (cells (set_cell c g) ! r) = length (cells g ! r)"
  using assms by (auto simp: set_cell_def nth_list_update)

lemma grid_okD:
  assumes "grid_ok C R g"
  shows "length (cells g) = R" "\<And>r. r < R \<Longrightarrow> length (cells g ! r) = C" "crow g \<le> R" "ccol g < C"
    "\<And>r c. r < R \<Longrightarrow> c < C \<Longrightarrow> crow g < r \<or> crow g = r \<and> ccol g \<le> c \<Longrightarrow> cells g ! r ! c = 32"
  using assms by (auto simp: grid_ok_def)

lemma drawsD:
  assumes "draws C R ctx g"
  shows "screen_fits C R ctx" "grid_ok C R g" "unat (cursor_x ctx) = 16 * ccol g" "unat (cursor_y ctx) = 16 * crow g"
    "\<And>X Y. X < 16 * C \<Longrightarrow> Y < 16 * R \<Longrightarrow> framebuffer ctx ! (Y * (16 * C) + X) = grid_color g X Y"
  using assms by (auto simp: draws_def)

lemma cell_div: "X < 16 * C \<Longrightarrow> X div 16 < (C :: nat)"
  by (simp add: less_mult_imp_div_less mult.commute)

lemma cursor_advance:
  assumes "unat x = 16 * k" "16 * k < 2147483648"
  shows "unat (x + 16 :: u32) = 16 * Suc k"
  using assms by (simp add: unat_word_ariths)

section \<open>Scrolling\<close>

lemma scroll_grid_ok:
  assumes "grid_ok C R g" "0 < R"
  shows "grid_ok C R (scroll_grid C R g)" "crow (scroll_grid C R g) < R"
proof -
  note g = grid_okD [OF assms(1)]
  show "crow (scroll_grid C R g) < R" using g(3) assms(2) by (auto simp: scroll_grid_def)
  show "grid_ok C R (scroll_grid C R g)"
  proof (cases "crow g < R")
    case False
    have "(tl (cells g) @ [blank_row C]) ! r = (if Suc r < R then cells g ! Suc r else blank_row C)" if "r < R" for r
      using that g(1) by (auto simp: nth_append nth_tl not_less_eq)
    then show ?thesis using False g assms(2) by (auto simp: scroll_grid_def grid_ok_def blank_row_def)
  qed (use assms in \<open>simp add: scroll_grid_def\<close>)
qed

lemma scroll_draws:
  assumes "draws C R ctx g"
  shows "\<exists>ctx'. (if screen_height ctx < cursor_y ctx + 16 then term_scroll ctx else Inr ctx) = Inr ctx'
    \<and> shows_grid C R ctx' (scroll_grid C R g)"
proof -
  note d = drawsD [OF assms] and g = grid_okD [OF drawsD(2) [OF assms]]
  note s = screen_fitsD [OF d(1)]
  have "16 * crow g < 2147483648" using g(3) s(9) by linarith
  from cursor_advance [OF d(4) this] have "screen_height ctx < cursor_y ctx + 16 \<longleftrightarrow> R \<le> crow g"
    by (simp add: word_less_nat_alt s(2)) linarith
  show ?thesis
  proof (cases "crow g < R")
    case True
    then show ?thesis
      using \<open>screen_height ctx < cursor_y ctx + 16 \<longleftrightarrow> R \<le> crow g\<close> assms
      by (simp add: shows_grid_def scroll_grid_def)
  next
    case False
    then have R: "crow g = R" using g(3) by simp
    obtain f where f: "term_scroll ctx = Inr (ctx\<lparr>framebuffer := f, cursor_y := cursor_y ctx - 16\<rparr>)"
      "length f = length (framebuffer ctx)"
      "\<And>X Y. X < 16 * C \<Longrightarrow> Y < 16 * R \<Longrightarrow> f ! (Y * (16 * C) + X) =
         (if Y + 16 < 16 * R then framebuffer ctx ! ((Y + 16) * (16 * C) + X) else COLOR_BG)"
      using scroll_pixels [OF d(1)] by blast
    have row: "(tl (cells g) @ [blank_row C]) ! r = (if Suc r < R then cells g ! Suc r else blank_row C)" if "r < R" for r
      using that g(1) by (auto simp: nth_append nth_tl not_less_eq)
    have "f ! (Y * (16 * C) + X) = grid_color (scroll_grid C R g) X Y" if XY: "X < 16 * C" "Y < 16 * R" for X Y
    proof -
      have "Y + 16 < 16 * R \<longleftrightarrow> Suc (Y div 16) < R" by linarith
      moreover have "(Y + 16) div 16 = Suc (Y div 16)" "(Y + 16) mod 16 = Y mod 16" by simp_all
      ultimately show ?thesis
        using f(3) [OF XY] d(5) [OF XY(1), of "Y + 16"] row [OF cell_div [OF XY(2)]] cell_div [OF XY(1)] False
        by (simp add: grid_color_def scroll_grid_def blank_row_def blank_dot)
    qed
    moreover have "unat (cursor_y ctx - 16) = 16 * (R - 1)"
      using d(4) R s(4) by (simp add: unat_sub word_le_nat_alt)
    ultimately have "shows_grid C R (ctx\<lparr>framebuffer := f, cursor_y := cursor_y ctx - 16\<rparr>) (scroll_grid C R g)"
      using scroll_grid_ok [OF d(2) s(4)] d(1,3) f(2) R
      by (auto simp: shows_grid_def draws_def screen_fits_def scroll_grid_def)
    then show ?thesis
      using \<open>screen_height ctx < cursor_y ctx + 16 \<longleftrightarrow> R \<le> crow g\<close> False f(1) by simp
  qed
qed

section \<open>Characters\<close>

lemma set_cell_color:
  assumes "grid_ok C R g" "crow g < R" "X < 16 * C" "Y < 16 * R"
  shows "grid_color (set_cell c g) X Y = (if X div 16 = ccol g \<and> Y div 16 = crow g
    then if glyph_dot c (X mod 16) (Y mod 16) then COLOR_FG else COLOR_BG else grid_color g X Y)"
proof -
  note g = grid_okD [OF assms(1)]
  have "cells (set_cell c g) ! (Y div 16) ! (X div 16) =
      (if Y div 16 = crow g \<and> X div 16 = ccol g then c else cells g ! (Y div 16) ! (X div 16))"
    using assms(2) cell_div [OF assms(3)] cell_div [OF assms(4)] g(1,2,4) by (intro set_cell_nth) simp_all
  then show ?thesis by (simp add: grid_color_def)
qed

lemma set_cell_ok:
  assumes "grid_ok C R g" "crow g < R" "crow g' = crow g \<and> ccol g < ccol g' \<or> crow g < crow g'"
    and "cells g' = cells (set_cell c g)" "crow g' \<le> R" "ccol g' < C"
  shows "grid_ok C R g'"
  using assms grid_okD [OF assms(1)] by (auto simp: grid_ok_def set_cell_nth)

lemma erase_cell_ok:
  assumes "grid_ok C R g" "crow g < R" "ccol g = Suc k"
  shows "grid_ok C R (set_cell 32 (g\<lparr>ccol := k\<rparr>))"
proof -
  note g = grid_okD [OF assms(1)]
  have n: "cells (set_cell 32 (g\<lparr>ccol := k\<rparr>)) ! r ! c = (if r = crow g \<and> c = k then 32 else cells g ! r ! c)"
      "length (cells (set_cell 32 (g\<lparr>ccol := k\<rparr>)) ! r) = length (cells g ! r)" if "r < R" "c < C" for r c
    using set_cell_nth [of "g\<lparr>ccol := k\<rparr>" r c 32] that g assms by simp_all
  moreover have "cells g ! crow g ! c = 32" if "k < c" "c < C" for c using g(5) [OF assms(2) that(2)] that assms(3) by simp
  ultimately show ?thesis using g assms by (auto simp: grid_ok_def le_less)
qed

lemma newline_draws:
  assumes "shows_grid C R ctx g"
  shows "draws C R (ctx\<lparr>cursor_x := 0, cursor_y := cursor_y ctx + 16\<rparr>) (g\<lparr>crow := crow g + 1, ccol := 0\<rparr>)"
proof -
  have a: "draws C R ctx g" "crow g < R" using assms by (simp_all add: shows_grid_def)
  note d = drawsD [OF a(1)] and s = screen_fitsD [OF drawsD(1) [OF a(1)]]
  have "16 * crow g < 2147483648" using a(2) s(9) by linarith
  from cursor_advance [OF d(4) this] show ?thesis
    using d grid_okD [OF d(2)] a(2) s(3)
    by (auto simp: draws_def grid_ok_def screen_fits_def grid_color_def)
qed

lemma char_draws:
  assumes "shows_grid C R ctx g"
  shows "\<exists>f. term_draw_char c (cursor_x ctx) (cursor_y ctx) ctx = Inr (ctx\<lparr>framebuffer := f\<rparr>) \<and> length f = length (framebuffer ctx)
    \<and> (\<forall>X < 16 * C. \<forall>Y < 16 * R. f ! (Y * (16 * C) + X) = grid_color (set_cell c g) X Y)"
proof -
  have a: "draws C R ctx g" "crow g < R" using assms by (simp_all add: shows_grid_def)
  note d = drawsD [OF a(1)] and g = grid_okD [OF drawsD(2) [OF a(1)]]
  obtain f where f: "term_draw_char c (cursor_x ctx) (cursor_y ctx) ctx = Inr (ctx\<lparr>framebuffer := f\<rparr>)" "length f = length (framebuffer ctx)"
    "\<forall>X < 16 * C. \<forall>Y < 16 * R. f ! (Y * (16 * C) + X) = (if X div 16 = ccol g \<and> Y div 16 = crow g \<and> glyph_dot c (X mod 16) (Y mod 16)
       then COLOR_FG else framebuffer ctx ! (Y * (16 * C) + X))"
    using draw_pixels [OF d(1,3,4) g(4) a(2)] by blast
  have "f ! (Y * (16 * C) + X) = grid_color (set_cell c g) X Y" if XY: "X < 16 * C" "Y < 16 * R" for X Y
    using f(3) XY d(5) [OF XY] set_cell_color [OF d(2) a(2) XY, of c] g(5) [OF a(2), of "ccol g"] g(4)
    by (auto simp: grid_color_def blank_dot)
  with f show ?thesis by blast
qed

lemma putc_shows:
  assumes "shows_grid C R ctx g"
  shows "\<exists>ctx'. term_putc c ctx = Inr ctx' \<and> shows_grid C R ctx' (put_grid C R c g)"
proof -
  have a: "draws C R ctx g" "crow g < R" using assms by (simp_all add: shows_grid_def)
  note d = drawsD [OF a(1)] and g = grid_okD [OF drawsD(2) [OF a(1)]] and s = screen_fitsD [OF drawsD(1) [OF a(1)]]
  have still: "scroll_grid C R h = h" if "crow h < R" for h using that by (simp add: scroll_grid_def)
  consider "c = 10" | "c = 8" "ccol g = 0" | k where "c = 8" "ccol g = Suc k" | "c \<noteq> 10" "c \<noteq> 8"
    by (cases "ccol g") auto
  then show ?thesis
  proof cases
    case 1
    with scroll_draws [OF newline_draws [OF assms]] show ?thesis by (simp add: term_putc_def put_grid_def)
  next
    case 2
    then have "cursor_x ctx = 0" using d(3) by (simp add: unat_eq_0)
    with 2 scroll_draws [OF a(1)] a(2) show ?thesis by (simp add: term_putc_def put_grid_def still)
  next
    case 3
    let ?ctx = "ctx\<lparr>cursor_x := cursor_x ctx - 16\<rparr>" and ?g = "g\<lparr>ccol := k\<rparr>"
    have x: "16 \<le> cursor_x ctx" "unat (cursor_x ?ctx) = 16 * k" using d(3) 3 by (simp_all add: word_le_nat_alt unat_sub)
    have fits: "screen_fits C R ?ctx" using d(1) by (simp add: screen_fits_def)
    have "k < C" using g(4) 3 by simp
    then obtain f where f: "res_fold erase_pixel (List.product [0..<16] [0..<16]) ?ctx = Inr (?ctx\<lparr>framebuffer := f\<rparr>)"
      "length f = length (framebuffer ctx)"
      "\<forall>X < 16 * C. \<forall>Y < 16 * R. f ! (Y * (16 * C) + X) = (if X div 16 = k \<and> Y div 16 = crow g then COLOR_BG else framebuffer ctx ! (Y * (16 * C) + X))"
      using erase_pixels [OF fits x(2) _ _ a(2)] d(4) by auto
    have "f ! (Y * (16 * C) + X) = grid_color (set_cell 32 ?g) X Y" if XY: "X < 16 * C" "Y < 16 * R" for X Y
    proof -
      have "cells (set_cell 32 ?g) ! (Y div 16) ! (X div 16) = (if Y div 16 = crow g \<and> X div 16 = k then 32 else cells g ! (Y div 16) ! (X div 16))"
        using set_cell_nth [of ?g "Y div 16" "X div 16" 32] a(2) g 3 cell_div [OF XY(1)] cell_div [OF XY(2)] by simp
      then show ?thesis using f(3) XY d(5) [OF XY] by (simp add: grid_color_def blank_dot)
    qed
    then have "draws C R (?ctx\<lparr>framebuffer := f\<rparr>) (set_cell 32 ?g)"
      using erase_cell_ok [OF d(2) a(2) 3(2)] screen_fits_framebuffer [OF fits, of f] f(2) x(2) d(4) by (simp add: draws_def)
    from scroll_draws [OF this] show ?thesis
      using 3 x(1) f(1) a(2) by (simp add: term_putc_def put_grid_def still)
  next
    case 4
    obtain f where f: "term_draw_char c (cursor_x ctx) (cursor_y ctx) ctx = Inr (ctx\<lparr>framebuffer := f\<rparr>)" "length f = length (framebuffer ctx)"
      "\<forall>X < 16 * C. \<forall>Y < 16 * R. f ! (Y * (16 * C) + X) = grid_color (set_cell c g) X Y"
      using char_draws [OF assms] by blast
    let ?ctx = "ctx\<lparr>framebuffer := f, cursor_x := cursor_x ctx + 16\<rparr>" and ?g = "set_cell c g"
    have fits: "screen_fits C R (ctx\<lparr>framebuffer := f\<rparr>)" by (rule screen_fits_framebuffer [OF d(1) f(2)])
    have "16 * Suc (ccol g) \<le> 16 * C" "16 * crow g < 16 * R" using g(4) a(2) by simp_all
    then have b: "16 * ccol g < 2147483648" "16 * Suc (ccol g) < 4294967280" "16 * crow g < 2147483648" using s(8,9) by simp_all
    note x = cursor_advance [OF d(3) b(1)] and y = cursor_advance [OF d(4) b(3)]
    have "unat (cursor_x ctx + 16 + 16) = 16 * Suc (Suc (ccol g))" using d(3) b(2) by (simp add: unat_word_ariths)
    then have wrap: "screen_width ctx < cursor_x ctx + 16 + 16 \<longleftrightarrow> ccol g + 1 = C"
      using g(4) by (simp add: word_less_nat_alt s(1)) linarith
    show ?thesis
    proof (cases "ccol g + 1 = C")
      case True
      let ?h = "?g\<lparr>crow := crow g + 1, ccol := 0\<rparr>"
      have "grid_ok C R ?h" using a(2) s(3) by (intro set_cell_ok [OF d(2) a(2), of _ c]) simp_all
      then have "draws C R (ctx\<lparr>framebuffer := f, cursor_x := 0, cursor_y := cursor_y ctx + 16\<rparr>) ?h"
        using fits f(3) y by (simp add: draws_def screen_fits_def grid_color_def)
      from scroll_draws [OF this] show ?thesis
        using 4 f(1) wrap True by (auto simp: term_putc_def put_grid_def Let_def split: if_split_asm)
    next
      case False
      let ?h = "?g\<lparr>ccol := ccol g + 1\<rparr>"
      have "grid_ok C R ?h" using a(2) g(4) False by (intro set_cell_ok [OF d(2) a(2), of _ c]) simp_all
      then have "draws C R ?ctx ?h"
        using fits f(3) x d(4) by (simp add: draws_def screen_fits_def grid_color_def)
      from scroll_draws [OF this] show ?thesis
        using 4 f(1) wrap False a(2) by (auto simp: term_putc_def put_grid_def Let_def still split: if_split_asm)
    qed
  qed
qed

section \<open>Properties\<close>

definition print_grid :: "nat \<Rightarrow> nat \<Rightarrow> u8 list \<Rightarrow> text_screen \<Rightarrow> text_screen" where
  "print_grid C R s g = fold (put_grid C R) s g"

lemma print_shows:
  assumes "shows_grid C R ctx g"
  shows "\<exists>ctx'. res_fold term_putc s ctx = Inr ctx' \<and> shows_grid C R ctx' (print_grid C R s g)"
  using assms
proof (induction s arbitrary: ctx g)
  case (Cons c s)
  obtain ctx' where "term_putc c ctx = Inr ctx'" "shows_grid C R ctx' (put_grid C R c g)"
    using putc_shows [OF Cons.prems] by blast
  with Cons.IH [of ctx' "put_grid C R c g"] show ?case by (simp add: print_grid_def)
qed (simp add: print_grid_def)

lemma clear_grid_ok: "0 < C \<Longrightarrow> 0 < R \<Longrightarrow> grid_ok C R (clear_grid C R)"
  by (simp add: grid_ok_def clear_grid_def blank_row_def)

lemma clear_shows:
  assumes "screen_fits C R ctx"
  shows "\<exists>ctx'. term_clear_screen ctx = Inr ctx' \<and> shows_grid C R ctx' (clear_grid C R)"
proof -
  note s = screen_fitsD [OF assms]
  obtain f where f: "term_clear_screen ctx = Inr (ctx\<lparr>framebuffer := f, cursor_x := 0, cursor_y := 0\<rparr>)"
    "length f = length (framebuffer ctx)" "\<forall>j < 16 * C * (16 * R). f ! j = COLOR_BG"
    using clear_pixels [OF assms] by blast
  have "f ! (Y * (16 * C) + X) = grid_color (clear_grid C R) X Y" if "X < 16 * C" "Y < 16 * R" for X Y
    using f(3) pixel_index [OF that] cell_div [OF that(1)] cell_div [OF that(2)]
    by (simp add: grid_color_def clear_grid_def blank_row_def blank_dot)
  then have "shows_grid C R (ctx\<lparr>framebuffer := f, cursor_x := 0, cursor_y := 0\<rparr>) (clear_grid C R)"
    using clear_grid_ok [OF s(3,4)] assms f(2) s(4)
    by (simp add: shows_grid_def draws_def screen_fits_def clear_grid_def)
  with f(1) show ?thesis by blast
qed

text \<open>
  C10: the terminal is a text screen: on a framebuffer that is the picture of a grid of characters,
  \<^verbatim>\<open>term_print\<close> of any string returns without a store outside the framebuffer and leaves the picture
  of the grid with the characters put one after the other, with line breaks, backspace, wrapping at
  the right edge and scrolling at the bottom.
\<close>

theorem term_print_refines_text_screen:
  assumes "shows_grid C R ctx g"
  shows "\<exists>ctx'. term_print s ctx = Inr ctx' \<and> shows_grid C R ctx' (print_grid C R (cstr s) g)"
  using print_shows [OF assms] by (simp add: term_print_def)

text \<open>
  Clearing any screen of whole character cells that fits the framebuffer gives the picture of
  the empty grid with the cursor at the top left, whatever the framebuffer held.
\<close>

theorem term_clear_screen_shows_empty_grid:
  assumes "screen_fits C R ctx"
  shows "\<exists>ctx'. term_clear_screen ctx = Inr ctx' \<and> shows_grid C R ctx' (clear_grid C R)"
  by (rule clear_shows [OF assms])

definition small_screen :: term_ctx where
  "small_screen = \<lparr>framebuffer = replicate 1024 7, screen_width = 32, screen_height = 32, cursor_x = 5, cursor_y = 9\<rparr>"

lemma small_screen_fits: "screen_fits 2 2 small_screen"
  by (simp add: screen_fits_def small_screen_def)

theorem term_clear_screen_shows_empty_grid_witness:
  "\<exists>ctx'. term_clear_screen small_screen = Inr ctx' \<and> shows_grid 2 2 ctx' (clear_grid 2 2)"
  by (rule term_clear_screen_shows_empty_grid [OF small_screen_fits])

theorem term_print_refines_text_screen_witness:
  "\<exists>ctx ctx'. term_clear_screen small_screen = Inr ctx \<and> term_print (lit ''abcde'') ctx = Inr ctx'
    \<and> shows_grid 2 2 ctx' \<lparr>cells = [lit ''cd'', lit ''e '' ], crow = 1, ccol = 1\<rparr>"
proof -
  obtain ctx where ctx: "term_clear_screen small_screen = Inr ctx" "shows_grid 2 2 ctx (clear_grid 2 2)"
    using clear_shows [OF small_screen_fits] by blast
  have "print_grid 2 2 (cstr (lit ''abcde'')) (clear_grid 2 2) = \<lparr>cells = [lit ''cd'', lit ''e '' ], crow = 1, ccol = 1\<rparr>"
    by code_simp
  with term_print_refines_text_screen [OF ctx(2), of "lit ''abcde''"] ctx(1) show ?thesis by auto
qed

end
