(* ===== verification/Shell_Safety.thy ===== *)
theory Shell_Safety
  imports Shell_Kernel Terminal_Grid
begin

text \<open>
  The shell keeps its own state: whatever is typed and whatever the kernel answers, it never leaves
  an array of its own, its command line stays terminated in the buffer and the framebuffer stays the
  picture of a text screen.
\<close>

section \<open>The screen\<close>

definition screen_ok :: "nat \<Rightarrow> nat \<Rightarrow> term_ctx \<Rightarrow> bool" where
  "screen_ok C R c \<longleftrightarrow> (\<exists>g. shows_grid C R c g)"

lemma fold_putc_ok [res_ok_intros]: "screen_ok C R c \<Longrightarrow> res_ok (screen_ok C R) (res_fold term_putc s c)"
  unfolding screen_ok_def by (elim exE, drule print_shows [of _ _ _ _ s]) (elim exE, simp, blast)

lemma putc_ok [res_ok_intros]: "screen_ok C R c \<Longrightarrow> res_ok (screen_ok C R) (term_putc ch c)"
  unfolding screen_ok_def by (elim exE, drule putc_shows [of _ _ _ _ ch]) (elim exE, simp, blast)

lemma print_ok [res_ok_intros]: "screen_ok C R c \<Longrightarrow> res_ok (screen_ok C R) (term_print s c)"
  by (simp add: term_print_def fold_putc_ok)

lemma clear_fits_ok: "screen_fits C R c \<Longrightarrow> res_ok (screen_ok C R) (term_clear_screen c)"
  unfolding screen_ok_def by (drule clear_shows) (elim exE, simp, blast)

lemma clear_ok [res_ok_intros]: "screen_ok C R c \<Longrightarrow> res_ok (screen_ok C R) (term_clear_screen c)"
  by (rule clear_fits_ok) (auto simp: screen_ok_def shows_grid_def draws_def)

lemma say_ok [res_ok_intros]: "screen_ok C R c \<Longrightarrow> P k \<Longrightarrow> res_ok (\<lambda>(c, k). screen_ok C R c \<and> P k) (say s c k)"
  unfolding say_def by (rule res_ok_bind, erule print_ok) simp

section \<open>Over any system calls that deliver whole messages\<close>

definition good_message :: "os_message \<Rightarrow> bool" where
  "good_message m \<longleftrightarrow> length (payload m) = 256 \<and> (msg_type m \<noteq> 0 \<and> msg_type m \<noteq> 1 \<longrightarrow> terminated (payload m))"

definition shell_ok :: "nat \<Rightarrow> nat \<Rightarrow> shell \<Rightarrow> bool" where
  "shell_ok C R s \<longleftrightarrow> length (cmd_buffer s) = 256 \<and> unat (cmd_idx s) \<le> 255 \<and> screen_ok C R (ctx s)"

locale shell_host =
  fixes sys :: "'k sys" and ok :: "'k \<Rightarrow> bool"
  assumes receive_law: "ok k \<Longrightarrow> length (payload buf) = 256 \<Longrightarrow>
      res_ok (\<lambda>(m, k). good_message m \<and> ok k) (ipc_receive sys buf k)"
    and send_law: "ok k \<Longrightarrow> target_id msg = 1 \<Longrightarrow> msg_type msg \<in> set request_types \<Longrightarrow> res_ok ok (sys_ipc_send sys msg k)"
    and drain_law: "ok k \<Longrightarrow> res_ok ok (sys_hw_drain sys k)"
    and flush_law: "ok k \<Longrightarrow> res_ok ok (sys_gpu_flush sys k)"
    and uart_law: "ok k \<Longrightarrow> res_ok (\<lambda>(c, k). ok k) (sys_uart_recv sys k)"
begin

lemma wait_ok:
  "ok k \<Longrightarrow> length (payload buf) = 256 \<Longrightarrow> t \<noteq> 0 \<and> t \<noteq> 1 \<Longrightarrow>
    res_ok (\<lambda>(m, k). terminated (payload m) \<and> ok k) (wait_reply sys buf t fuel k)"
proof (induction fuel arbitrary: buf k)
  case (Suc fuel)
  show ?case
    unfolding wait_reply.simps
    by (rule res_ok_bind, rule receive_law [OF Suc.prems(1,2)])
      (use Suc.IH Suc.prems(3) in \<open>auto simp: good_message_def\<close>)
qed simp

lemma exchange_ok:
  assumes "ok k" "target_id req = 1" "msg_type req \<in> set request_types" "t \<noteq> 0 \<and> t \<noteq> 1"
  shows "res_ok (\<lambda>(m, k). terminated (payload m) \<and> ok k) (exchange sys stale fuel req t k)"
  unfolding exchange_def
  by (rule res_ok_bind, rule send_law [OF assms(1-3)], rule wait_ok [OF _ _ assms(4)]) (simp_all add: local_message_def)

lemma ask_ok:
  assumes "ok k" "target_id req = 1" "msg_type req \<in> set request_types" "t \<noteq> 0 \<and> t \<noteq> 1" "screen_ok C R c"
  shows "res_ok (\<lambda>(c, k). screen_ok C R c \<and> ok k) (ask_and_show sys stale fuel req t after c k)"
  unfolding ask_and_show_def
proof (rule res_ok_bind, rule exchange_ok [OF assms(1-4)], clarify)
  fix m :: os_message and k assume m: "terminated (payload m)" and k: "ok k"
  have "res_ok (screen_ok C R) (show_reply m c)" using m assms(5) by (simp add: show_reply_def print_ok)
  then show "res_ok (\<lambda>(c, k). screen_ok C R c \<and> ok k) (res_bind (show_reply m c) (\<lambda>c.
      res_bind (res_fold term_putc after c) (\<lambda>c. res_bind (sys_hw_drain sys k) (\<lambda>k. Inr (c, k)))))"
    by (rule res_ok_bind) (rule res_ok_bind, erule fold_putc_ok, rule res_ok_bind, rule drain_law [OF k], simp)
qed

section \<open>Trade mode\<close>

lemma read_trade_ok:
  "ok k \<Longrightarrow> res_ok (\<lambda>(line, k). ok k) (read_trade sys fuel line timeout k)"
proof (induction fuel arbitrary: line timeout k)
  case (Suc fuel)
  then show ?case
    by (auto intro!: res_ok_bind [OF uart_law [OF Suc.prems]] simp del: One_nat_def)
qed simp

lemma flush_every_100_ok: "ok k \<Longrightarrow> res_ok ok (flush_every_100 sys n k)"
  by (simp add: flush_every_100_def flush_law)

lemma trade_round_ok:
  assumes "screen_ok C R c" "ok k"
  shows "res_ok (\<lambda>(n, c, k). screen_ok C R c \<and> ok k) (trade_round sys stale fuel (n, c, k))"
proof -
  have req: "target_id (trade_request stale t) = 1" "msg_type (trade_request stale t) \<in> set request_types" for t
    by (simp_all add: trade_request_def Let_def request_types_def)
  show ?thesis
    unfolding trade_round_def prod.case Let_def
    by (rule res_ok_bind, rule read_trade_ok [OF assms(2)])
      (auto intro!: res_ok_bind [OF print_ok] res_ok_bind [OF exchange_ok] res_ok_bind [OF flush_every_100_ok] assms(1) req)
qed

lemma trade_listen_ok:
  assumes "screen_ok C R c" "ok k"
  shows "res_ok P (trade_listen sys stale fuel c k)"
proof -
  have "screen_ok C R (fst (snd x)) \<Longrightarrow> ok (snd (snd x)) \<Longrightarrow>
      res_ok (\<lambda>(n, c, k). screen_ok C R c \<and> ok k) (trade_rounds sys stale fuel m x)" for m x
  proof (induction m arbitrary: x)
    case (Suc m)
    then show ?case
      by (cases x) (auto intro!: res_ok_bind [OF trade_round_ok])
  qed auto
  then show ?thesis
    unfolding trade_listen_def
    by (fastforce intro!: res_ok_bind [OF print_ok] res_ok_bind [OF flush_law] intro: res_ok_bind assms)
qed

section \<open>Commands\<close>

lemma plain_ok:
  "ok k \<Longrightarrow> t \<in> set request_types \<Longrightarrow> r \<noteq> 0 \<and> r \<noteq> 1 \<Longrightarrow> screen_ok C R c \<Longrightarrow>
    res_ok (\<lambda>(c, k). screen_ok C R c \<and> ok k) (ask_and_show sys stale fuel (plain_request stale t) r after c k)"
  "ok k \<Longrightarrow> t \<in> set request_types \<Longrightarrow> r \<noteq> 0 \<and> r \<noteq> 1 \<Longrightarrow> screen_ok C R c \<Longrightarrow>
    res_ok (\<lambda>(c, k). screen_ok C R c \<and> ok k) (ask_and_show sys stale fuel (name_request stale t a) r after c k)"
  by (auto intro!: ask_ok simp: plain_request_def name_request_def Let_def)

lemma write_command_ok:
  assumes "ok k" "screen_ok C R c" "length name \<le> 254"
  shows "res_ok (\<lambda>(c, k). screen_ok C R c \<and> ok k)
    (res_bind (write_request stale name data) (\<lambda>req. ask_and_show sys stale fuel req 7 [] c k))"
proof -
  have "res_ok (\<lambda>req. target_id req = 1 \<and> msg_type req = 6) (write_request stale name data)"
    using assms(3) by (auto simp: write_request_def Let_def min_def)
  then show ?thesis
    by (rule res_ok_bind) (auto intro!: ask_ok assms(1,2) simp: request_types_def)
qed

lemma shell_strchr_length: "shell_strchr s c = Some t \<Longrightarrow> 0 < length t \<and> length t \<le> length s"
  by (induction s) (auto split: if_splits)

lemma storage_ok:
  assumes "ok k" "screen_ok C R c" "\<And>a. args = Some a \<Longrightarrow> length a \<le> 254"
  shows "res_ok (\<lambda>(c, k). screen_ok C R c \<and> ok k) (storage_command sys stale fuel verb args c k)"
proof -
  have "res_ok (\<lambda>(c, k). screen_ok C R c \<and> ok k)
      (res_bind (write_request stale (takeWhile (\<lambda>c. c \<noteq> 32) a) data) (\<lambda>req. ask_and_show sys stale fuel req 7 [] c k))"
    if "args = Some a" for a data
    using assms(3) [OF that] by (intro write_command_ok assms(1,2)) (meson le_trans length_takeWhile_le)
  then show ?thesis
    using assms(1,2)
    by (auto simp: storage_command_def Let_def request_types_def intro!: plain_ok say_ok split: option.split)
qed

lemma run_ok:
  assumes "ok k" "screen_ok C R c" "length line \<le> 255"
  shows "res_ok (\<lambda>(c, k). screen_ok C R c \<and> ok k) (run_command sys stale fuel line c k)"
proof -
  have args: "length a \<le> 254"
    if "shell_strchr line d = Some dot" "(case shell_strchr (tl dot) 32 of None \<Rightarrow> None | Some a \<Rightarrow> Some (tl a)) = Some a" for d dot a
    using that shell_strchr_length [OF that(1)] shell_strchr_length [of "tl dot" 32] assms(3)
    by (auto split: option.splits)
  show ?thesis
  proof (cases "shell_strchr line (of_char (CHR ''.''))")
    case None
    have "res_ok (\<lambda>(c, k). screen_ok C R c \<and> ok k) (res_bind (say msg_unknown c k) (\<lambda>(c, k).
        res_bind (say line c k) (\<lambda>(c, k). res_bind (term_putc 10 c) (\<lambda>c. Inr (c, k)))))"
      by (auto intro!: res_ok_bind [OF say_ok [where P = ok]] res_ok_bind [OF putc_ok] assms(1,2))
    moreover have "res_ok (\<lambda>(c, k). screen_ok C R c \<and> ok k) (res_bind (term_clear_screen c) (\<lambda>c. Inr (c, k)))"
      using assms(1,2) by (auto intro!: res_ok_bind [OF clear_ok])
    ultimately show ?thesis 
      using assms(1,2) unfolding run_command_def plain_command_def None option.case by (intro res_ok_if say_ok) simp_all
  next
    case (Some dot)
    show ?thesis
      using args [OF Some] assms(1,2) unfolding run_command_def Some option.case Let_def
      by (intro res_ok_if storage_ok plain_ok say_ok trade_listen_ok) (simp_all add: request_types_def)
  qed
qed

section \<open>The main loop\<close>

lemma enter_ok:
  assumes "shell_ok C R s" "ok k"
  shows "res_ok (\<lambda>(s, k). shell_ok C R s \<and> ok k) (enter_key sys stale fuel s k)"
proof -
  have s: "length (cmd_buffer s) = 256" "unat (cmd_idx s) \<le> 255" "screen_ok C R (ctx s)"
    using assms(1) by (simp_all add: shell_ok_def)
  have "length (cstr ((cmd_buffer s)[unat (cmd_idx s) := 0])) \<le> 255"
    using length_cstr_less [of "(cmd_buffer s)[unat (cmd_idx s) := 0]"] s(1,2)
    by (simp add: terminated_def set_update_memI)
  then have run: "res_ok (\<lambda>(c, k). screen_ok C R c \<and> ok k)
      (if cmd_idx s > 0 then run_command sys stale fuel (cstr ((cmd_buffer s)[unat (cmd_idx s) := 0])) c k else Inr (c, k))"
    if "screen_ok C R c" "ok k" for c k
    using that by (auto intro!: run_ok)
  have stored: "cmd_idx (s\<lparr>cmd_buffer := b\<rparr>) = cmd_idx s" "cmd_buffer (s\<lparr>cmd_buffer := b\<rparr>) = b" for b by simp_all
  have room: "\<not> length (cmd_buffer s) \<le> unat (cmd_idx s)" using s(1,2) by simp
  show ?thesis
    unfolding enter_key_def
  proof (rule res_ok_bind, rule putc_ok [OF s(3)], rule res_ok_bind, rule flush_law [OF assms(2)])
    fix c k assume c: "screen_ok C R c" and k: "ok k"
    show "res_ok (\<lambda>(s, k). shell_ok C R s \<and> ok k) (if length (cmd_buffer s) \<le> unat (cmd_idx s) then Inl OutOfBounds
      else let s = s\<lparr>cmd_buffer := (cmd_buffer s)[unat (cmd_idx s) := 0]\<rparr>
          in res_bind (if cmd_idx s > 0 then run_command sys stale fuel (cstr (cmd_buffer s)) c k else Inr (c, k)) (\<lambda>(c, k).
             res_bind (term_print msg_prompt c) (\<lambda>c. Inr (s\<lparr>ctx := c, cmd_idx := 0\<rparr>, k))))"
      unfolding Let_def if_not_P [OF room] stored
      by (rule res_ok_bind, rule run [OF c k])
        (auto intro!: res_ok_bind [OF print_ok] simp: shell_ok_def s(1))
  qed
qed

lemma key_ok:
  assumes "shell_ok C R s" "ok k"
  shows "res_ok (\<lambda>(s, k). shell_ok C R s \<and> ok k) (key_pressed sys stale fuel ch s k)"
proof -
  have s: "length (cmd_buffer s) = 256" "unat (cmd_idx s) \<le> 255" "screen_ok C R (ctx s)"
    using assms(1) by (simp_all add: shell_ok_def)
  have left: "unat (cmd_idx s - 1) \<le> 255" if "cmd_idx s > 0" using that s(2) by (simp add: unat_minus_one)
  have forth: "unat (cmd_idx s + 1) \<le> 255" if "cmd_idx s < 256 - 1"
    using that by (simp add: word_less_nat_alt unat_word_ariths)
  have "res_ok (\<lambda>(s, k). shell_ok C R s \<and> ok k)
      (if ch = 10 \<or> ch = 13 then enter_key sys stale fuel s k
       else if ch = 8 then
         (if cmd_idx s > 0
          then let s = s\<lparr>cmd_idx := cmd_idx s - 1\<rparr> in res_bind (term_putc ch (ctx s)) (\<lambda>t. Inr (s\<lparr>ctx := t\<rparr>, k))
          else Inr (s, k))
       else if cmd_idx s < 256 - 1
         then if length (cmd_buffer s) \<le> unat (cmd_idx s) then Inl OutOfBounds
              else let s = s\<lparr>cmd_buffer := (cmd_buffer s)[unat (cmd_idx s) := ch], cmd_idx := cmd_idx s + 1\<rparr>
                   in res_bind (term_putc ch (ctx s)) (\<lambda>t. Inr (s\<lparr>ctx := t\<rparr>, k))
       else Inr (s, k))"
    using enter_ok [OF assms] assms s left forth
    by (auto intro!: res_ok_bind [OF putc_ok] simp: Let_def shell_ok_def)
  then show ?thesis
    unfolding key_pressed_def by (rule res_ok_bind) (auto intro!: res_ok_bind [OF flush_law])
qed

lemma step_ok:
  assumes "shell_ok C R s" "ok k"
  shows "res_ok (\<lambda>(s, k). shell_ok C R s \<and> ok k) (shell_step sys stale fuel (s, k))"
proof -
  have "res_ok (\<lambda>(s, k). shell_ok C R s \<and> ok k)
      (if msg_type m = 1 \<and> msg_length m > 0
       then (case payload m of [] \<Rightarrow> Inl OutOfBounds | c # _ \<Rightarrow> key_pressed sys stale fuel c s k) else Inr (s, k))"
    if "good_message m" "ok k" for m k
    using that assms(1) by (cases "payload m") (auto simp: good_message_def key_ok)
  then show ?thesis
    unfolding shell_step_def prod.case
    by (intro res_ok_bind [OF drain_law [OF assms(2)]] res_ok_bind [OF receive_law])
      (auto simp: local_message_def)
qed

lemma steps_ok:
  "shell_ok C R (fst x) \<Longrightarrow> ok (snd x) \<Longrightarrow> res_ok (\<lambda>(s, k). shell_ok C R s \<and> ok k) (shell_steps sys stale fuel n x)"
proof (induction n arbitrary: x)
  case (Suc n)
  then show ?case by (cases x) (auto intro!: res_ok_bind [OF step_ok])
qed auto

lemma main_ok:
  assumes "1024000 \<le> length fb" "ok k"
  shows "res_ok (\<lambda>(s, k). shell_ok 80 50 s \<and> ok k) (shell_main sys stale fuel n fb k)"
proof -
  let ?c = "\<lparr>framebuffer = fb, screen_width = 1280, screen_height = 800, cursor_x = 0, cursor_y = 0\<rparr>"
  have "screen_fits 80 50 ?c" using assms(1) by (simp add: screen_fits_def)
  then have "res_ok (\<lambda>(s, k). shell_ok 80 50 s \<and> ok k) (shell_boot sys stale fb k)"
    unfolding shell_boot_def Let_def
    by (intro res_ok_bind [OF clear_fits_ok]) (auto intro!: res_ok_bind [OF print_ok] res_ok_bind [OF flush_law [OF assms(2)]] simp: shell_ok_def)
  then show ?thesis
    unfolding shell_main_def by (rule res_ok_bind) (auto intro!: steps_ok)
qed

end

section \<open>On the kernel\<close>

text \<open>
  A fault inside the kernel stops the machine: seen from the shell, the call never returns
  (\<^verbatim>\<open>fatal_exception_handler\<close> of \<^verbatim>\<open>kernel/main.c\<close>).
\<close>

definition halt :: "'a res \<Rightarrow> 'a res" where
  "halt r = (case r of Inl e \<Rightarrow> Inl Spin | Inr x \<Rightarrow> Inr x)"

definition halting :: "'k sys \<Rightarrow> 'k sys" where
  "halting sys = \<lparr>sys_ipc_send = (\<lambda>m k. halt (sys_ipc_send sys m k)), ipc_receive = (\<lambda>m k. halt (ipc_receive sys m k)),
     sys_hw_drain = (\<lambda>k. halt (sys_hw_drain sys k)), sys_gpu_flush = (\<lambda>k. halt (sys_gpu_flush sys k)),
     sys_uart_recv = (\<lambda>k. halt (sys_uart_recv sys k))\<rparr>"

lemma res_ok_halt: "(\<And>x. r = Inr x \<Longrightarrow> P x) \<Longrightarrow> res_ok P (halt r)"
  by (auto simp: halt_def split: sum.split)

definition mail_ok :: "mailbox \<Rightarrow> bool" where
  "mail_ok q \<longleftrightarrow> mailbox_wf q \<and> (\<forall>m\<in>set (ipc_queue q). good_message m)"

lemma mail_ok_send: "mail_ok q \<Longrightarrow> good_message m \<Longrightarrow> mail_ok (ipc_kernel_send m q)"
  using send_contents(1) [of q m] set_update_subset_insert [of "ipc_queue q" "unat (ipc_tail q)" m]
  by (auto simp: mail_ok_def ipc_kernel_send_def Let_def)

lemma mail_ok_recv:
  assumes "mail_ok q" "length (payload buf) = 256" "ipc_recv buf q = (m, q')"
  shows "good_message m \<and> mail_ok q'"
proof -
  have q: "mailbox_wf q" "\<forall>m\<in>set (ipc_queue q). good_message m" using assms(1) by (simp_all add: mail_ok_def)
  then have "ipc_queue q ! unat (ipc_head q) \<in> set (ipc_queue q)" by (simp add: mailbox_wf_def)
  moreover have "mailbox_wf q'" using take_contents(1) [OF q(1)] assms(3)
    by (auto simp: ipc_recv_def mailbox_take_def split: if_splits)
  ultimately show ?thesis using q assms(2,3) by (auto simp: ipc_recv_def mail_ok_def good_message_def split: if_splits)
qed

lemma mail_ok_drain:
  "(\<And>c. good_message (mk c)) \<Longrightarrow> mail_ok q \<Longrightarrow> drain poll mk fuel q d = Inr (q', d') \<Longrightarrow> mail_ok q'"
proof (induction fuel arbitrary: q d)
  case (Suc fuel)
  note send = Suc.IH [OF Suc.prems(1) mail_ok_send [OF Suc.prems(2) Suc.prems(1)]]
  show ?case using send Suc.prems(2,3) by (auto simp: Let_def split: prod.splits if_splits)
qed simp

lemma good_hw_msg: "good_message (hw_msg stale sender c)"
  by (simp add: good_message_def hw_msg_def)

lemma mail_ok_drain_queues:
  assumes "mail_ok q" "drain_hardware_queues stale io fuel q d = Inr (q', d')"
  shows "mail_ok q'"
proof -
  obtain q1 d1 where key: "drain (io_key io) (hw_msg stale 1) fuel q d = Inr (q1, d1)"
    and rx: "drain (io_rx io) (\<lambda>c. hw_msg stale 2 (newline_for_return c)) fuel q1 d1 = Inr (q', d')"
    using assms(2) by (auto simp: drain_hardware_queues_def res_simps)
  have q1: "mail_ok q1" by (rule mail_ok_drain [OF _ assms(1) key]) (rule good_hw_msg)
  show ?thesis by (rule mail_ok_drain [OF _ q1 rx]) (rule good_hw_msg)
qed

lemma good_reply: "length s \<le> 255 \<Longrightarrow> good_message (reply stale msg t s)"
  by (simp add: good_message_def reply_simps)

lemma kernel_request_mail_ok:
  assumes "mail_ok (mail k)" "msg_type msg \<in> set request_types" "kernel_request stale io vm msg k d = Inr (k', d')"
  shows "mail_ok (mail k')"
  using kernel_request_replies [OF assms(3,2)] mail_ok_send [OF assms(1) good_reply] by auto

interpretation kernel_host: shell_host "halting (kernel_sys stale io vm n)" "\<lambda>(k, d). mail_ok (mail k)"
proof unfold_locales
  fix kd :: "kernel \<times> 'a" and msg buf :: os_message
  assume "case kd of (k, d) \<Rightarrow> mail_ok (mail k)"
  then obtain k d where k: "kd = (k, d)" "mail_ok (mail k)" by (cases kd) auto
  show "res_ok (\<lambda>(m, k). good_message m \<and> (case k of (k, d) \<Rightarrow> mail_ok (mail k))) (ipc_receive (halting (kernel_sys stale io vm n)) buf kd)"
    if "length (payload buf) = 256"
    using mail_ok_recv [OF k(2) that]
    by (auto simp: k(1) halting_def kernel_sys_def syscall_handler_def res_simps intro!: res_ok_halt split: prod.splits)
  show "res_ok (\<lambda>(k, d). mail_ok (mail k)) (sys_ipc_send (halting (kernel_sys stale io vm n)) msg kd)"
    if "target_id msg = 1" "msg_type msg \<in> set request_types"
    using kernel_request_mail_ok [OF k(2) that(2)] that(1)
    by (auto simp: k(1) halting_def kernel_sys_def syscall_handler_def res_simps intro!: res_ok_halt)
  show "res_ok (\<lambda>(k, d). mail_ok (mail k)) (sys_hw_drain (halting (kernel_sys stale io vm n)) kd)"
    using mail_ok_drain_queues [OF k(2)]
    by (auto simp: k(1) halting_def kernel_sys_def syscall_handler_def res_simps intro!: res_ok_halt)
  show "res_ok (\<lambda>(k, d). mail_ok (mail k)) (sys_gpu_flush (halting (kernel_sys stale io vm n)) kd)"
    using k(2) by (auto simp: k(1) halting_def kernel_sys_def syscall_handler_def res_simps intro!: res_ok_halt)
  show "res_ok (\<lambda>(c, k). case k of (k, d) \<Rightarrow> mail_ok (mail k)) (sys_uart_recv (halting (kernel_sys stale io vm n)) kd)"
    using k(2) by (auto simp: k(1) halting_def kernel_sys_def syscall_handler_def res_simps Let_def intro!: res_ok_halt split: prod.splits)
qed

text \<open>
  C8: the shell stays inside its own memory: started on any framebuffer of at least 1280 by 800 pixels
  with a well-formed mailbox, after any number of turns, whatever was typed, received and answered, it
  is waiting or it has its command line within the 256 bytes of its buffer, with room for the NUL, and
  the framebuffer shows a grid of 80 by 50 characters with the cursor on it; no step of its own leaves
  an array.
\<close>

theorem shell_keeps_its_memory:
  assumes "1280 * 800 \<le> length fb" "mail_ok (mail k)"
  shows "case shell_main (halting (kernel_sys stale io vm m)) stale fuel n fb (k, d) of
      Inl e \<Rightarrow> e = Spin
    | Inr (s, k', d') \<Rightarrow> length (cmd_buffer s) = 256 \<and> unat (cmd_idx s) \<le> 255
        \<and> (\<exists>g. shows_grid 80 50 (ctx s) g) \<and> mail_ok (mail k')"
proof -
  have fb: "1024000 \<le> length fb" using assms(1) by simp
  have mail: "case (k, d) of (k, d) \<Rightarrow> mail_ok (mail k)" using assms(2) by simp
  show ?thesis
    using kernel_host.main_ok [OF fb mail, of stale io vm m stale fuel n]
    by (auto simp: res_ok_def shell_ok_def screen_ok_def split: sum.splits)
qed

theorem shell_keeps_its_memory_witness:
  "case shell_main (halting (kernel_sys (\<lambda>_. 7) (ram_io 200) idle_vm 1)) (\<lambda>_. 7) 9 100 (replicate 1024000 0) (tiny_kernel, tiny_disk) of
      Inl e \<Rightarrow> e = Spin
    | Inr (s, k', d') \<Rightarrow> length (cmd_buffer s) = 256 \<and> unat (cmd_idx s) \<le> 255
        \<and> (\<exists>g. shows_grid 80 50 (ctx s) g) \<and> mail_ok (mail k')"
proof -
  have "mail_ok (mail tiny_kernel)"
    using empty_mailbox_wf(1) by (simp add: tiny_kernel_def mail_ok_def empty_mailbox_def good_message_def)
  then show ?thesis by (intro shell_keeps_its_memory) simp_all
qed

end
