(* ===== verification/Shell_Session.thy ===== *)
theory Shell_Session
  imports Shell_Safety
begin

text \<open>
  Sessions with the shell: keys edit the command line, Enter runs it, and a file written by one
  command is shown by the next.
\<close>

section \<open>A machine where nothing is typed\<close>

definition idle :: "'d io \<Rightarrow> bool" where
  "idle io \<longleftrightarrow> (\<forall>d. io_key io d = (0, d) \<and> io_rx io d = (0, d) \<and> io_flush io d = Inr d)"

lemma idle_calls:
  assumes "idle io" "0 < n"
  shows "sys_hw_drain (kernel_sys stale io vm n) (k, d) = Inr (k, d)"
    "sys_gpu_flush (kernel_sys stale io vm n) (k, d) = Inr (k, d)"
proof -
  have "drain_hardware_queues stale io n q d = Inr (q, d)" for q
    using assms by (cases n) (simp_all add: drain_hardware_queues_def idle_def)
  then show "sys_hw_drain (kernel_sys stale io vm n) (k, d) = Inr (k, d)"
    by (simp add: kernel_sys_def syscall_handler_def)
  show "sys_gpu_flush (kernel_sys stale io vm n) (k, d) = Inr (k, d)"
    using assms(1) by (simp add: kernel_sys_def syscall_handler_def idle_def)
qed

lemma kernel_receive:
  assumes "mailbox_wf (mail k)" "contents (mail k) = m # ms"
  shows "\<exists>k'. ipc_receive (kernel_sys stale io vm n) buf (k, d) = Inr (m, k', d) \<and> mailbox_wf (mail k')
    \<and> contents (mail k') = ms \<and> vol k' = vol k \<and> watch k' = watch k"
  using kernel_inbox.receive_law [of "(k, d)" stale io vm n buf] assms by auto

section \<open>The command line\<close>

text \<open>The line editor the shell implements, and what it shows of a key.\<close>

definition line :: "shell \<Rightarrow> u8 list" where
  "line s = take (unat (cmd_idx s)) (cmd_buffer s)"

definition edit :: "u8 \<Rightarrow> u8 list \<Rightarrow> u8 list" where
  "edit c l = (if c = 8 then butlast l else if length l < 255 then l @ [c] else l)"

definition echo :: "u8 \<Rightarrow> u8 list \<Rightarrow> u8 list" where
  "echo c l = (if c = 8 then if l = [] then [] else [8] else if length l < 255 then [c] else [])"

fun echoes :: "u8 list \<Rightarrow> u8 list \<Rightarrow> u8 list" where
  "echoes [] l = []"
| "echoes (c # cs) l = echo c l @ echoes cs (edit c l)"

text \<open>A shell with the line \<open>l\<close> on the screen \<open>g\<close>.\<close>

definition editing :: "nat \<Rightarrow> nat \<Rightarrow> u8 list \<Rightarrow> text_screen \<Rightarrow> shell \<Rightarrow> bool" where
  "editing C R l g s \<longleftrightarrow> length (cmd_buffer s) = 256 \<and> unat (cmd_idx s) \<le> 255 \<and> line s = l \<and> shows_grid C R (ctx s) g"

lemma length_line: "editing C R l g s \<Longrightarrow> length l = unat (cmd_idx s)"
  by (auto simp: editing_def line_def)

lemma print_grid_append: "print_grid C R (s @ t) g = print_grid C R t (print_grid C R s g)"
  by (simp add: print_grid_def)

lemma putc_print: "shows_grid C R c g \<Longrightarrow> \<exists>c'. term_putc ch c = Inr c' \<and> shows_grid C R c' (print_grid C R [ch] g)"
  using putc_shows by (simp add: print_grid_def)

lemma edit_key:
  assumes "idle io" "0 < n" "editing C R l g s" "c \<noteq> 10" "c \<noteq> 13"
  shows "\<exists>s'. key_pressed (kernel_sys stale io vm n) stale fuel c s (k, d) = Inr (s', k, d)
    \<and> editing C R (edit c l) (print_grid C R (echo c l) g) s'"
proof -
  have s: "length (cmd_buffer s) = 256" "unat (cmd_idx s) \<le> 255" "line s = l" "shows_grid C R (ctx s) g"
    using assms(3) by (simp_all add: editing_def)
  have len: "length l = unat (cmd_idx s)" by (rule length_line [OF assms(3)])
  note calls = idle_calls [OF assms(1,2)]
  obtain t where t: "term_putc c (ctx s) = Inr t" "shows_grid C R t (print_grid C R [c] g)"
    using putc_print [OF s(4)] by blast
  show ?thesis
  proof (cases "c = 8")
    case True
    show ?thesis
    proof (cases "cmd_idx s > 0")
      case pos: True
      then have "unat (cmd_idx s - 1) = unat (cmd_idx s) - 1" "0 < unat (cmd_idx s)"
        by (simp_all add: unat_minus_one word_gt_0 unat_gt_0)
      then show ?thesis
        using True pos assms(4,5) s t calls len
        by (auto simp: key_pressed_def Let_def editing_def line_def edit_def echo_def butlast_take)
    next
      case False
      then have "l = []" using len by (simp add: word_gt_0)
      with True False show ?thesis
        using assms(3) calls by (simp add: key_pressed_def edit_def echo_def print_grid_def)
    qed
  next
    case False
    show ?thesis
    proof (cases "length l < 255")
      case True
      then have i: "cmd_idx s < 255" "unat (cmd_idx s + 1) = Suc (unat (cmd_idx s))"
        using len by (simp_all add: word_less_nat_alt unat_word_ariths)
      then show ?thesis
        using False True assms(4,5) s t calls len
        by (auto simp: key_pressed_def Let_def editing_def line_def edit_def echo_def take_Suc_conv_app_nth)
    next
      case full: False
      then have "\<not> cmd_idx s < 255" using len by (simp add: word_less_nat_alt)
      then show ?thesis
        using False full assms(3-5) calls by (simp add: key_pressed_def edit_def echo_def print_grid_def)
    qed
  qed
qed

lemma key_step:
  assumes "idle io" "0 < n" "mailbox_wf (mail k)" "contents (mail k) = hw_msg stale sd c # ms"
  shows "\<exists>k'. shell_step (kernel_sys stale io vm n) stale fuel (s, k, d) = key_pressed (kernel_sys stale io vm n) stale fuel c s (k', d)
    \<and> mailbox_wf (mail k') \<and> contents (mail k') = ms \<and> vol k' = vol k \<and> watch k' = watch k"
proof -
  obtain k' where "ipc_receive (kernel_sys stale io vm n) (local_message stale) (k, d) = Inr (hw_msg stale sd c, k', d)"
    "mailbox_wf (mail k')" "contents (mail k') = ms" "vol k' = vol k" "watch k' = watch k"
    using kernel_receive [OF assms(3,4), of stale io vm n "local_message stale" d] by blast
  moreover have "payload (hw_msg stale sd c) = c # map stale [1..<256]"
    by (simp add: hw_msg_def local_array_def upt_rec [of 0])
  ultimately show ?thesis
    using idle_calls [OF assms(1,2)] by (intro exI [of _ k']) (simp add: shell_step_def, simp add: hw_msg_def)
qed

lemma typed_line:
  assumes "idle io" "0 < n"
  shows "editing C R l g s \<Longrightarrow> 10 \<notin> set ks \<Longrightarrow> 13 \<notin> set ks \<Longrightarrow> mailbox_wf (mail k) \<Longrightarrow> contents (mail k) = map (hw_msg stale sd) ks @ ms
    \<Longrightarrow> \<exists>s' k'. shell_steps (kernel_sys stale io vm n) stale fuel (length ks) (s, k, d) = Inr (s', k', d)
      \<and> editing C R (fold edit ks l) (print_grid C R (echoes ks l) g) s'
      \<and> mailbox_wf (mail k') \<and> contents (mail k') = ms \<and> vol k' = vol k \<and> watch k' = watch k"
proof (induction ks arbitrary: l g s k)
  case Nil
  then show ?case by (simp add: print_grid_def)
next
  case (Cons c ks)
  obtain k1 where k1: "shell_step (kernel_sys stale io vm n) stale fuel (s, k, d) = key_pressed (kernel_sys stale io vm n) stale fuel c s (k1, d)"
    "mailbox_wf (mail k1)" "contents (mail k1) = map (hw_msg stale sd) ks @ ms" "vol k1 = vol k" "watch k1 = watch k"
    using key_step [OF assms Cons.prems(4)] Cons.prems(5) by force
  obtain s1 where "key_pressed (kernel_sys stale io vm n) stale fuel c s (k1, d) = Inr (s1, k1, d)"
    "editing C R (edit c l) (print_grid C R (echo c l) g) s1"
    using edit_key [OF assms Cons.prems(1)] Cons.prems(2,3) by force
  with k1 Cons.IH [OF this(2) _ _ k1(2,3)] Cons.prems(2,3) show ?case
    by (auto simp: print_grid_append)
qed

lemma shell_steps_add:
  "shell_steps sys stale fuel (a + b) x = res_bind (shell_steps sys stale fuel a x) (shell_steps sys stale fuel b)"
proof (induction a arbitrary: x)
  case (Suc a)
  then show ?case by (cases "shell_step sys stale fuel x") simp_all
qed simp

lemma shell_steps_0: "shell_steps sys stale fuel 0 = Inr"
  by (rule ext) simp

lemma set_fold_edit: "set (fold edit ks l) \<subseteq> set l \<union> set ks"
proof (induction ks arbitrary: l)
  case (Cons c ks)
  have "set (edit c l) \<subseteq> insert c (set l)" by (auto simp: edit_def dest: in_set_butlastD)
  with Cons.IH [of "edit c l"] show ?case by auto
qed simp

lemma enter_step:
  assumes "idle io" "0 < n" "editing C R l g s" "l \<noteq> []" "0 \<notin> set l"
  shows "\<exists>c. shows_grid C R c (print_grid C R [10] g)
    \<and> key_pressed (kernel_sys stale io vm n) stale fuel 10 s (k, d) =
      res_bind (run_command (kernel_sys stale io vm n) stale fuel l c (k, d)) (\<lambda>(c, k).
      res_bind (term_print msg_prompt c) (\<lambda>c.
      res_bind (sys_gpu_flush (kernel_sys stale io vm n) k) (\<lambda>k.
      Inr (\<lparr>ctx = c, cmd_buffer = (cmd_buffer s)[length l := 0], cmd_idx = 0\<rparr>, k))))"
proof -
  have s: "length (cmd_buffer s) = 256" "unat (cmd_idx s) \<le> 255" "line s = l" "shows_grid C R (ctx s) g"
    using assms(3) by (simp_all add: editing_def)
  have len: "unat (cmd_idx s) = length l" using length_line [OF assms(3)] by simp
  then have "0 < cmd_idx s" using assms(4) by (simp add: word_gt_0) (metis length_0_conv unat_0)
  have "(cmd_buffer s)[unat (cmd_idx s) := 0] = l @ 0 # drop (Suc (unat (cmd_idx s))) (cmd_buffer s)"
    using s(1-3) by (simp add: line_def upd_conv_take_nth_drop)
  then have "cstr ((cmd_buffer s)[unat (cmd_idx s) := 0]) = l" using assms(5) by simp
  moreover obtain c where "term_putc 10 (ctx s) = Inr c" "shows_grid C R c (print_grid C R [10] g)"
    using putc_print [OF s(4)] by blast
  ultimately show ?thesis
    using s(1,2) len \<open>0 < cmd_idx s\<close> idle_calls [OF assms(1,2)]
    by (cases s, intro exI [of _ c]) (simp add: key_pressed_def enter_key_def Let_def res_bind_assoc case_prod_unfold)
qed

text \<open>
  C18: the shell is a line editor in front of the commands: with nothing else typed, the turns that take
  the keys of a line and Enter from the mailbox show the line as it is edited and then run the command
  of the edited line, backspaces applied and cut to 255 characters, with an empty mailbox; the prompt
  follows and the line is empty again.
\<close>

theorem typed_line_runs_edited_command:
  assumes "idle io" "0 < n" "editing C R [] g s" "10 \<notin> set ks" "13 \<notin> set ks" "0 \<notin> set ks" "fold edit ks [] \<noteq> []"
    "mailbox_wf (mail k)" "contents (mail k) = map (hw_msg stale sd) (ks @ [10])"
  shows "\<exists>c b k'. mailbox_wf (mail k') \<and> contents (mail k') = [] \<and> vol k' = vol k \<and> watch k' = watch k
    \<and> shows_grid C R c (print_grid C R (echoes ks [] @ [10]) g)
    \<and> shell_steps (kernel_sys stale io vm n) stale fuel (length ks + 1) (s, k, d) =
      res_bind (run_command (kernel_sys stale io vm n) stale fuel (fold edit ks []) c (k', d)) (\<lambda>(c, k).
      res_bind (term_print msg_prompt c) (\<lambda>c.
      res_bind (sys_gpu_flush (kernel_sys stale io vm n) k) (\<lambda>k.
      Inr (\<lparr>ctx = c, cmd_buffer = b, cmd_idx = 0\<rparr>, k))))"
proof -
  let ?sys = "kernel_sys stale io vm n" and ?l = "fold edit ks []"
  obtain s1 k1 where s1: "shell_steps ?sys stale fuel (length ks) (s, k, d) = Inr (s1, k1, d)"
    "editing C R ?l (print_grid C R (echoes ks []) g) s1" "mailbox_wf (mail k1)" "contents (mail k1) = map (hw_msg stale sd) [10]"
    "vol k1 = vol k" "watch k1 = watch k"
    using typed_line [OF assms(1-5,8), of stale sd "map (hw_msg stale sd) [10]" vm fuel d] assms(9) by auto
  have nul: "0 \<notin> set ?l" using set_fold_edit [of ks "[]"] assms(6) by auto
  obtain k2 where k2: "shell_step ?sys stale fuel (s1, k1, d) = key_pressed ?sys stale fuel 10 s1 (k2, d)"
    "mailbox_wf (mail k2)" "contents (mail k2) = []" "vol k2 = vol k1" "watch k2 = watch k1"
    using key_step [OF assms(1,2) s1(3), of stale sd 10 "[]" vm fuel s1 d] s1(4) by auto
  obtain c where "shows_grid C R c (print_grid C R [10] (print_grid C R (echoes ks []) g))"
    "key_pressed ?sys stale fuel 10 s1 (k2, d) =
      res_bind (run_command ?sys stale fuel ?l c (k2, d)) (\<lambda>(c, k).
      res_bind (term_print msg_prompt c) (\<lambda>c. res_bind (sys_gpu_flush ?sys k) (\<lambda>k.
      Inr (\<lparr>ctx = c, cmd_buffer = (cmd_buffer s1)[length ?l := 0], cmd_idx = 0\<rparr>, k))))"
    using enter_step [OF assms(1,2) s1(2) assms(7) nul, of stale vm fuel k2 d] by blast
  moreover have "shell_steps ?sys stale fuel (length ks + 1) (s, k, d) = key_pressed ?sys stale fuel 10 s1 (k2, d)"
    unfolding shell_steps_add using s1(1) k2(1) by (simp add: shell_steps_0)
  ultimately show ?thesis
    using k2 s1 unfolding print_grid_append by metis
qed

text \<open>The keys \<^verbatim>\<open>h e l q backspace p\<close> and Enter, in the mailbox.\<close>

definition typed_kernel :: "stale \<Rightarrow> u8 list \<Rightarrow> kernel" where
  "typed_kernel stale ks = tiny_kernel\<lparr>mail := fold ipc_kernel_send (map (hw_msg stale 1) ks) empty_mailbox\<rparr>"

lemma typed_kernel_mail:
  "length ks \<le> 255 \<Longrightarrow> mailbox_wf (mail (typed_kernel stale ks)) \<and> contents (mail (typed_kernel stale ks)) = map (hw_msg stale 1) ks"
  using fold_send_contents [OF empty_mailbox_wf(1), of "map (hw_msg stale 1) ks"]
  by (simp add: typed_kernel_def empty_mailbox_wf)

lemma ram_idle: "idle (ram_io cap)"
  by (simp add: idle_def ram_io_def)

theorem typed_line_runs_edited_command_witness:
  "\<exists>s c b k'. shell_steps (kernel_sys (\<lambda>_. 7) (ram_io 200) idle_vm 1) (\<lambda>_. 7) 9 7
      (s, typed_kernel (\<lambda>_. 7) (lit ''helq'' @ [8, 112, 10]), tiny_disk) =
    res_bind (run_command (kernel_sys (\<lambda>_. 7) (ram_io 200) idle_vm 1) (\<lambda>_. 7) 9 (lit ''help'') c (k', tiny_disk)) (\<lambda>(c, k).
    res_bind (term_print msg_prompt c) (\<lambda>c.
    res_bind (sys_gpu_flush (kernel_sys (\<lambda>_. 7) (ram_io 200) idle_vm 1) k) (\<lambda>k.
    Inr (\<lparr>ctx = c, cmd_buffer = b, cmd_idx = 0\<rparr>, k)))) \<and> contents (mail k') = []"
proof -
  obtain c where c: "shows_grid 2 2 c (clear_grid 2 2)" using clear_shows [OF small_screen_fits] by blast
  let ?s = "\<lparr>ctx = c, cmd_buffer = replicate 256 0, cmd_idx = 0\<rparr>" and ?ks = "lit ''helq'' @ [8, 112]"
  have ed: "editing 2 2 [] (clear_grid 2 2) ?s" using c by (simp add: editing_def line_def)
  have edits: "fold edit ?ks [] = lit ''help''" by (simp add: edit_def lit_def)
  have ks: "10 \<notin> set ?ks" "13 \<notin> set ?ks" "0 \<notin> set ?ks" "fold edit ?ks [] \<noteq> []"
    unfolding edits by (simp_all add: lit_def)
  have q: "mailbox_wf (mail (typed_kernel (\<lambda>_. 7) (?ks @ [10])))"
    "contents (mail (typed_kernel (\<lambda>_. 7) (?ks @ [10]))) = map (hw_msg (\<lambda>_. 7) 1) (?ks @ [10])"
    using typed_kernel_mail [of "?ks @ [10]" "\<lambda>_. 7"] by simp_all
  have l: "lit ''helq'' @ [8, 112, 10] = ?ks @ [10]" "7 = length ?ks + 1" by simp_all
  show ?thesis
    unfolding l
    using typed_line_runs_edited_command [OF ram_idle zero_less_one ed ks q, where vm = "idle_vm :: store vm" and fuel = 9 and d = tiny_disk]
    unfolding edits by blast
qed

section \<open>Commands that touch files\<close>

lemma shell_strchr_append: "c \<notin> set s \<Longrightarrow> shell_strchr (s @ c # t) c = Some (c # t)"
  by (induction s) auto

lemma run_write:
  assumes "32 \<notin> set name"
  shows "run_command sys stale fuel (lit ''s.write '' @ name @ 32 # data) c k =
    res_bind (write_request stale name data) (\<lambda>req. ask_and_show sys stale fuel req 7 [] c k)"
proof -
  have "takeWhile (\<lambda>c. c \<noteq> 32) (name @ 32 # data) = name" using assms by (induction name) auto
  then show ?thesis
    using shell_strchr_append [OF assms]
    by (simp add: run_command_def storage_command_def lit_def ns_storage_def ns_s_def verb_list_def verb_ls_def verb_read_def verb_write_def)
qed

lemma run_read:
  "run_command sys stale fuel (lit ''s.read '' @ name) c k = ask_and_show sys stale fuel (name_request stale 4 name) 5 [10] c k"
  by (simp add: run_command_def storage_command_def lit_def ns_storage_def ns_s_def verb_list_def verb_ls_def verb_read_def)

lemma write_request_parts:
  assumes "length name + 1 + length data \<le> 254"
  obtains req where "write_request stale name data = Inr req" "target_id req = 1" "msg_type req = 6"
    "payload req = name @ 0 # data @ 0 # drop (length name + 2 + length data) (local_array stale 256)"
    "msg_length req = of_nat (length name + 1 + length data)"
  using assms by (simp add: write_request_def Let_def overwrite_def)

lemma name_request_parts:
  assumes "length name \<le> 255"
  shows "target_id (name_request stale t name) = 1" "msg_type (name_request stale t name) = t"
    "payload (name_request stale t name) = name @ 0 # drop (length name + 1) (local_array stale 256)"
  using assms by (simp_all add: name_request_def Let_def overwrite_def)

lemma ask_and_show_replied:
  assumes "idle io" "0 < n" "0 < fuel" "mailbox_wf (mail k)" "contents (mail k) = []" "target_id req = 1"
    "kernel_request stale io vm req k d = Inr (k1, d1)" "mail k1 = ipc_kernel_send (reply stale req t s) (mail k)"
    "length s \<le> 255" "0 \<notin> set s" "shows_grid C R c g"
  shows "\<exists>c' k2. ask_and_show (kernel_sys stale io vm n) stale fuel req t after c (k, d) = Inr (c', k2, d1)
    \<and> shows_grid C R c' (print_grid C R (s @ after) g)
    \<and> mailbox_wf (mail k2) \<and> contents (mail k2) = [] \<and> vol k2 = vol k1 \<and> watch k2 = watch k1"
proof -
  obtain k2 where k2: "exchange (kernel_sys stale io vm n) stale fuel req t (k, d) = Inr (reply stale req t s, k2, d1)"
    "mailbox_wf (mail k2)" "contents (mail k2) = []" "vol k2 = vol k1" "watch k2 = watch k1"
    using exchange_replied [OF assms(4) _ assms(6-8), of fuel n] assms(3,5) by (auto simp: reply_simps)
  have p: "payload (reply stale req t s) = s @ 0 # drop (Suc (length s)) (local_array stale 256)"
    by (rule reply_simps(1) [OF assms(9)])
  obtain c1 where c1: "term_print (payload (reply stale req t s)) c = Inr c1" "shows_grid C R c1 (print_grid C R s g)"
    using print_shows [OF assms(11), of s] assms(10) by (auto simp: term_print_def p)
  obtain c2 where c2: "res_fold term_putc after c1 = Inr c2" "shows_grid C R c2 (print_grid C R (s @ after) g)"
    using print_shows [OF c1(2), of after] by (auto simp: print_grid_append)
  show ?thesis
    using k2 c1(1) c2 idle_calls(1) [OF assms(1,2)] by (simp add: ask_and_show_def show_reply_def p)
qed

lemma write_then_read_session:
  assumes "block_device io ok sec cap" "idle io" "0 < n" "0 < fuel" "ok d" "volume_wf (vol k) cap (sec d)"
    "mailbox_wf (mail k)" "contents (mail k) = []" "shows_grid C R c g"
    "usable_name (format_fat_name name)" "0 \<notin> set name" "32 \<notin> set name" "0 \<notin> set data"
    "length name + 1 + length data \<le> 254"
    "\<not> name_taken (vol k) (sec d) (format_fat_name name)"
    "free_cluster_of (vol k) (sec d) \<noteq> None" "free_slot_of (vol k) (sec d) \<noteq> None"
  shows "\<exists>c1 k1 d1 c2 k2 d2.
    run_command (kernel_sys stale io vm n) stale fuel (lit ''s.write '' @ name @ 32 # data) c (k, d) = Inr (c1, k1, d1)
    \<and> shows_grid C R c1 (print_grid C R (lit ''Write committed to disk.\<newline>'') g)
    \<and> run_command (kernel_sys stale io vm n) stale fuel (lit ''s.read '' @ name) c1 (k1, d1) = Inr (c2, k2, d2)
    \<and> shows_grid C R c2 (print_grid C R (data @ [10]) (print_grid C R (lit ''Write committed to disk.\<newline>'') g))
    \<and> contents (mail k2) = []"
proof -
  let ?sys = "kernel_sys stale io vm n" and ?ack = "lit ''Write committed to disk.\<newline>''"
  obtain w where w: "write_request stale name data = Inr w" "target_id w = 1" "msg_type w = 6"
    "payload w = name @ 0 # data @ 0 # drop (length name + 2 + length data) (local_array stale 256)"
    "msg_length w = of_nat (length name + 1 + length data)"
    by (rule write_request_parts [OF assms(14)])
  let ?r = "name_request stale 4 name" and ?pad = "0 # drop (length name + 2 + length data) (local_array stale 256)"
  have r: "target_id ?r = 1" "msg_type ?r = 4" "payload ?r = name @ 0 # drop (length name + 1) (local_array stale 256)"
    using name_request_parts [of name stale 4] assms(14) by simp_all
  note wp = write_message_parts [OF assms(11) w(4)] and rp = write_message_parts [OF assms(11) r(3)]
  let ?n = "of_nat (length data) :: u32"
  have n: "unat ?n = length data" using assms(14) by (simp add: unat_of_nat take_bit_nat_eq_self)
  have len: "?n = msg_length w - of_nat (length (cstr (payload w)) + 1)" by (simp add: wp(1) w(5))
  have fit: "min (unat ?n) 512 \<le> length (data @ ?pad)" by (simp add: n)
  have nm: "usable_name (format_fat_name (payload w))" using assms(10) by (simp add: wp(4))
  obtain k1 d1 where k1: "fs_write_request stale io w k d = Inr (k1, d1)" "ok d1" "volume_wf (vol k) cap (sec d1)"
    "vol k1 = vol k" "mail k1 = ipc_kernel_send (reply stale w 7 ?ack) (mail k)"
    and eff: "\<And>t. usable_name t \<Longrightarrow> file_of (vol k) (sec d1) t
       = write_effect (vol k) (sec d) (format_fat_name (payload w)) (?n, data_sector_bytes ?n (data @ ?pad)) t"
    using fs_write_request_effect [OF assms(1,5,6) nm wp(2) len wp(3) [symmetric] fit] by metis
  have wreq: "kernel_request stale io vm w k d = Inr (k1, d1)" using k1(1) w(3) by (simp add: kernel_request_def)
  have ack: "length ?ack \<le> 255" "0 \<notin> set ?ack" by (simp_all add: lit_def)
  obtain c1 k1' where c1: "ask_and_show ?sys stale fuel w 7 [] c (k, d) = Inr (c1, k1', d1)"
    "shows_grid C R c1 (print_grid C R ?ack g)" "mailbox_wf (mail k1')" "contents (mail k1') = []" "vol k1' = vol k"
    using ask_and_show_replied [OF assms(2-4,7,8) w(2) wreq k1(5) ack assms(9), where after = "[]"] k1(4) by auto
  have "file_of (vol k) (sec d1) (format_fat_name name) = Some (?n, data_sector_bytes ?n (data @ ?pad))"
    using eff [OF assms(10)] assms(15-17) by (auto simp: wp(4) write_effect_def name_taken_def shadowed_def)
  then have said: "read_text (file_of (vol k) (sec d1) (format_fat_name name)) = data"
    using assms(13,14) n by (simp add: read_text_def file_bytes_sector cstr_id)
  have "volume_wf (vol k1') cap (sec d1)" "usable_name (format_fat_name (payload ?r))"
    using k1(3) c1(5) assms(10) by (simp_all add: rp(4))
  from fs_read_request_effect [OF assms(1) k1(2) this rp(5), where stale = stale]
  obtain k2 d2 where k2: "fs_read_request stale io ?r k1' d1 = Inr (k2, d2)" "vol k2 = vol k1'"
    "mail k2 = ipc_kernel_send (reply stale ?r 5 data) (mail k1')"
    using said by (metis c1(5) rp(4))
  have rreq: "kernel_request stale io vm ?r k1' d1 = Inr (k2, d2)" using k2(1) r(2) by (simp add: kernel_request_def)
  have "length data \<le> 255" using assms(14) by simp
  from ask_and_show_replied [OF assms(2-4) c1(3,4) r(1) rreq k2(3) this assms(13) c1(2), where after = "[10]"]
  obtain c2 k2' where "ask_and_show ?sys stale fuel ?r 5 [10] c1 (k1', d1) = Inr (c2, k2', d2)"
    "shows_grid C R c2 (print_grid C R (data @ [10]) (print_grid C R ?ack g))" "contents (mail k2') = []" by blast
  then show ?thesis using c1(1,2) w(1) by (simp only: run_write [OF assms(12)] run_read res_bind.simps) blast
qed

text \<open>
  C4: what the user sees: over any block device, with nobody typing meanwhile, the command
  \<^verbatim>\<open>s.write <name> <text>\<close> for a free name shows that the write is committed, and \<^verbatim>\<open>s.read <name>\<close>
  after it shows the text and a line break; both commands come back with the mailbox empty.
\<close>

theorem shell_write_then_read_shows_text:
  assumes "block_device io ok sec cap" "idle io" "0 < n" "0 < fuel" "ok d" "volume_wf (vol k) cap (sec d)"
    "mailbox_wf (mail k)" "contents (mail k) = []" "shows_grid C R c g"
    "usable_name (format_fat_name name)" "0 \<notin> set name" "32 \<notin> set name" "0 \<notin> set data"
    "length name + 1 + length data \<le> 254"
    "\<not> name_taken (vol k) (sec d) (format_fat_name name)"
    "free_cluster_of (vol k) (sec d) \<noteq> None" "free_slot_of (vol k) (sec d) \<noteq> None"
  shows "\<exists>c1 k1 d1 c2 k2 d2.
    run_command (kernel_sys stale io vm n) stale fuel (lit ''s.write '' @ name @ 32 # data) c (k, d) = Inr (c1, k1, d1)
    \<and> shows_grid C R c1 (print_grid C R (lit ''Write committed to disk.\<newline>'') g)
    \<and> run_command (kernel_sys stale io vm n) stale fuel (lit ''s.read '' @ name) c1 (k1, d1) = Inr (c2, k2, d2)
    \<and> shows_grid C R c2 (print_grid C R (data @ [10]) (print_grid C R (lit ''Write committed to disk.\<newline>'') g))
    \<and> contents (mail k2) = []"
  by (rule write_then_read_session [OF assms])

theorem shell_write_then_read_shows_text_witness:
  "\<exists>c c1 k1 d1 c2 k2 d2.
    run_command (kernel_sys (\<lambda>_. 7) (ram_io 200) idle_vm 1) (\<lambda>_. 7) 1 (lit ''s.write A.TXT hi'') c (tiny_kernel, tiny_disk) = Inr (c1, k1, d1)
    \<and> run_command (kernel_sys (\<lambda>_. 7) (ram_io 200) idle_vm 1) (\<lambda>_. 7) 1 (lit ''s.read A.TXT'') c1 (k1, d1) = Inr (c2, k2, d2)
    \<and> shows_grid 40 3 c2 (print_grid 40 3 (lit ''Write committed to disk.\<newline>hi\<newline>'') (clear_grid 40 3))"
proof -
  let ?c = "\<lparr>framebuffer = replicate 30720 0, screen_width = 640, screen_height = 48, cursor_x = 0, cursor_y = 0\<rparr>"
  have "screen_fits 40 3 ?c" by (simp add: screen_fits_def)
  then obtain c where c: "shows_grid 40 3 c (clear_grid 40 3)" using clear_shows by blast
  have x: "0 \<notin> set (lit ''A.TXT'')" "32 \<notin> set (lit ''A.TXT'')" "0 \<notin> set (lit ''hi'')" by (simp_all add: lit_def)
  have l: "lit ''s.write A.TXT hi'' = lit ''s.write '' @ lit ''A.TXT'' @ 32 # lit ''hi''" "lit ''s.read A.TXT'' = lit ''s.read '' @ lit ''A.TXT''"
    "lit ''Write committed to disk.\<newline>hi\<newline>'' = lit ''Write committed to disk.\<newline>'' @ lit ''hi'' @ [10]"
    by (simp_all add: lit_def)
  show ?thesis
    unfolding l print_grid_append [of _ _ "lit ''Write committed to disk.\<newline>''"]
    using shell_write_then_read_shows_text [where n = 1 and fuel = 1 and k = tiny_kernel and stale = "\<lambda>_. 7" and vm = "idle_vm :: store vm",
        OF ram_device ram_idle _ _ tiny_ok _ _ _ c usable_lit(1) x]
    by (simp add: tiny_kernel_def tiny_volume empty_mailbox_wf tiny_no_file tiny_free) blast
qed

end
