(* ===== verification/Mmu.thy ===== *)
theory Mmu
  imports Prelude
begin

text \<open>
  \<^verbatim>\<open>kernel/mmu.c\<close>: the translation tables of the kernel. \<open>mmu\<close> holds the six static tables and the
  system registers the code writes; \<open>layout\<close> holds what the linker decides, the tables' addresses
  and the region of the user program. \<open>table_walk\<close> is the walk of the Arm architecture for the
  configured granule and address size (4 KB pages, 39 bits, levels 1 to 3), and \<open>memory_map\<close> says
  what the kernel wants mapped.
\<close>

section \<open>State\<close>

record mmu =
  l1_table :: "u64 list"
  l2_table_user :: "u64 list"
  l2_table_kernel :: "u64 list"
  l3_table_mmio :: "u64 list"
  l3_table_fb_0 :: "u64 list"
  l3_table_fb_1 :: "u64 list"
  mair_el1 :: u64
  tcr_el1 :: u64
  ttbr0_el1 :: u64
  sctlr_el1 :: u64

record layout =
  at_l1 :: u64
  at_l2_user :: u64
  at_l2_kernel :: u64
  at_l3_mmio :: u64
  at_l3_fb_0 :: u64
  at_l3_fb_1 :: u64
  el0_region_start :: u64
  el0_region_end :: u64

definition DESC_VALID :: u64 where "DESC_VALID = push_bit 0 1"
definition DESC_TABLE :: u64 where "DESC_TABLE = push_bit 1 1"
definition DESC_PAGE :: u64 where "DESC_PAGE = push_bit 1 1"
definition DESC_BLOCK :: u64 where "DESC_BLOCK = push_bit 1 0"
definition DESC_AF :: u64 where "DESC_AF = push_bit 10 1"
definition AP_RW_EL1 :: u64 where "AP_RW_EL1 = push_bit 6 0"
definition AP_RW_ANY :: u64 where "AP_RW_ANY = push_bit 6 1"
definition ATTR_DEVICE :: u64 where "ATTR_DEVICE = push_bit 2 0"
definition ATTR_NORMAL :: u64 where "ATTR_NORMAL = push_bit 2 1"

lemmas desc_bits = DESC_VALID_def DESC_TABLE_def DESC_PAGE_def DESC_BLOCK_def DESC_AF_def
  AP_RW_EL1_def AP_RW_ANY_def ATTR_DEVICE_def ATTR_NORMAL_def

section \<open>Building the tables\<close>

definition zero_tables :: "mmu \<Rightarrow> mmu" where
  "zero_tables m = m\<lparr>l1_table := replicate 512 0, l2_table_kernel := replicate 512 0,
     l2_table_user := replicate 512 0, l3_table_mmio := replicate 512 0,
     l3_table_fb_0 := replicate 512 0, l3_table_fb_1 := replicate 512 0\<rparr>"

text \<open>\<^verbatim>\<open>for (i = a; i < b; i++) table[i] = f(i)\<close>\<close>

definition fill_entries :: "(nat \<Rightarrow> 'a) \<Rightarrow> nat list \<Rightarrow> 'a list \<Rightarrow> 'a list" where
  "fill_entries f is t = fold (\<lambda>i t. t[i := f i]) is t"

definition ram_block :: "u64 \<Rightarrow> nat \<Rightarrow> u64" where
  "ram_block ap i = (0x40000000 + of_nat i * 0x200000)
     OR ATTR_NORMAL OR ap OR DESC_AF OR DESC_BLOCK OR DESC_VALID"

definition device_block :: "u64 \<Rightarrow> u64" where
  "device_block a = a OR ATTR_DEVICE OR AP_RW_EL1 OR DESC_AF OR DESC_BLOCK OR DESC_VALID"

definition mmio_page :: "nat \<Rightarrow> u64" where
  "mmio_page i = (0x0a000000 + of_nat i * 4096) OR ATTR_DEVICE OR AP_RW_EL1 OR DESC_AF OR DESC_PAGE OR DESC_VALID"

text \<open>Step 3: the blocks the user program's region touches; the casts to 32 bits are the code's.\<close>

definition el0_idx_start :: "layout \<Rightarrow> u32" where
  "el0_idx_start L = ucast ((el0_region_start L - 0x40000000) div 0x200000)"

definition el0_idx_end :: "layout \<Rightarrow> u32" where
  "el0_idx_end L = ucast ((el0_region_end L - 0x40000000 + 0x200000 - 1) div 0x200000)"

definition el0_blocks :: "layout \<Rightarrow> nat list" where
  "el0_blocks L = [unat (el0_idx_start L)..<min (unat (el0_idx_end L)) 64]"

definition kernel_blocks :: "layout \<Rightarrow> u64 list \<Rightarrow> u64 list" where
  "kernel_blocks L t =
     (let t = fill_entries (ram_block AP_RW_EL1) [0..<64] t
      in fill_entries (ram_block AP_RW_ANY) (el0_blocks L) t)"

definition mmu_init_tables :: "layout \<Rightarrow> mmu \<Rightarrow> mmu" where
  "mmu_init_tables L m =
     (let m = zero_tables m;
          m = m\<lparr>l1_table := (l1_table m)[1 := at_l2_kernel L OR DESC_TABLE OR DESC_VALID]\<rparr>;
          m = m\<lparr>l1_table := (l1_table m)[0 := at_l2_user L OR DESC_TABLE OR DESC_VALID]\<rparr>;
          m = m\<lparr>l2_table_kernel := kernel_blocks L (l2_table_kernel m)\<rparr>;
          m = m\<lparr>l2_table_user := (l2_table_user m)[64 := device_block 0x08000000]\<rparr>;
          m = m\<lparr>l2_table_user := (l2_table_user m)[72 := device_block 0x09000000]\<rparr>;
          m = m\<lparr>l2_table_kernel := (l2_table_kernel m)[128 := device_block 0x50000000]\<rparr>;
          m = m\<lparr>l2_table_kernel := (l2_table_kernel m)[129 := device_block 0x50200000]\<rparr>;
          m = m\<lparr>l2_table_user := (l2_table_user m)[80 := at_l3_mmio L OR DESC_TABLE OR DESC_VALID]\<rparr>;
          m = m\<lparr>l3_table_mmio := fill_entries mmio_page [0..<32] (l3_table_mmio m)\<rparr>
      in m\<lparr>mair_el1 := push_bit 8 0xFF OR push_bit 0 0,
            tcr_el1 := push_bit 0 25 OR push_bit 8 1 OR push_bit 10 1 OR push_bit 12 3 OR push_bit 14 0
              OR push_bit 23 1 OR push_bit 32 2,
            ttbr0_el1 := at_l1 L,
            sctlr_el1 := sctlr_el1 m OR push_bit 0 1 OR push_bit 2 1 OR push_bit 12 1\<rparr>)"

definition fb_page :: "u64 \<Rightarrow> nat \<Rightarrow> u64" where
  "fb_page phys p = (phys + of_nat p * 4096) OR ATTR_NORMAL OR AP_RW_ANY OR DESC_AF OR DESC_PAGE OR DESC_VALID"

text \<open>
  The loop body for one offset: the page number is the offset's, cast to 32 bits; pages past 1024
  are left out.
\<close>

definition map_fb_page :: "u64 \<Rightarrow> nat \<Rightarrow> mmu \<Rightarrow> mmu" where
  "map_fb_page phys p m =
     (let page_idx = unat (of_nat p :: u32)
      in if page_idx < 512 then m\<lparr>l3_table_fb_0 := (l3_table_fb_0 m)[page_idx := fb_page phys p]\<rparr>
         else if page_idx < 1024 then m\<lparr>l3_table_fb_1 := (l3_table_fb_1 m)[page_idx - 512 := fb_page phys p]\<rparr>
         else m)"

definition mmu_map_framebuffer :: "layout \<Rightarrow> u64 \<Rightarrow> u64 \<Rightarrow> mmu \<Rightarrow> mmu" where
  "mmu_map_framebuffer L phys_addr size' m =
     (if phys_addr = 0 then m
      else let m = m\<lparr>l2_table_user := (l2_table_user m)[256 := at_l3_fb_0 L OR DESC_TABLE OR DESC_VALID]\<rparr>;
               m = m\<lparr>l2_table_user := (l2_table_user m)[257 := at_l3_fb_1 L OR DESC_TABLE OR DESC_VALID]\<rparr>
           in fold (map_fb_page phys_addr) [0..<(unat size' + 4095) div 4096] m)"

section \<open>The walk\<close>

text \<open>
  What the hardware reads: the table at an address, and in it one descriptor per level. A walk ends
  in the physical address, whether the user program may read and write it, and the memory attribute
  index; \<open>None\<close> is a fault.
\<close>

type_synonym access = "u64 \<times> bool \<times> nat"

definition table_at :: "layout \<Rightarrow> mmu \<Rightarrow> u64 \<Rightarrow> u64 list option" where
  "table_at L m base =
     (if base = at_l1 L then Some (l1_table m)
      else if base = at_l2_user L then Some (l2_table_user m)
      else if base = at_l2_kernel L then Some (l2_table_kernel m)
      else if base = at_l3_mmio L then Some (l3_table_mmio m)
      else if base = at_l3_fb_0 L then Some (l3_table_fb_0 m)
      else if base = at_l3_fb_1 L then Some (l3_table_fb_1 m)
      else None)"

definition table_index :: "nat \<Rightarrow> u64 \<Rightarrow> nat" where
  "table_index n va = unat va div 2 ^ n mod 512"

definition leaf :: "nat \<Rightarrow> u64 \<Rightarrow> u64 \<Rightarrow> access option" where
  "leaf n va d =
     (if bit d 10 then Some ((d AND push_bit n (mask (48 - n))) OR take_bit n va, bit d 6, unat (take_bit 3 (drop_bit 2 d)))
      else None)"

primrec walk :: "layout \<Rightarrow> mmu \<Rightarrow> u64 \<Rightarrow> nat \<Rightarrow> u64 \<Rightarrow> access option" where
  "walk L m va 0 base = (case table_at L m base of None \<Rightarrow> None
     | Some t \<Rightarrow> let d = t ! table_index 12 va in if bit d 0 \<and> bit d 1 then leaf 12 va d else None)"
| "walk L m va (Suc k) base = (case table_at L m base of None \<Rightarrow> None
     | Some t \<Rightarrow> let n = 12 + 9 * Suc k; d = t ! table_index n va
        in if \<not> bit d 0 then None
           else if bit d 1 then walk L m va k (d AND push_bit 12 (mask 36))
           else leaf n va d)"

definition table_walk :: "layout \<Rightarrow> mmu \<Rightarrow> u64 \<Rightarrow> access option" where
  "table_walk L m va = (if unat va < 2 ^ 39 then walk L m va 2 (ttbr0_el1 m) else None)"

section \<open>Descriptors\<close>

definition table_aligned :: "u64 \<Rightarrow> bool" where
  "table_aligned a \<longleftrightarrow> a AND push_bit 12 (mask 36) = a"

definition layout_ok :: "layout \<Rightarrow> bool" where
  "layout_ok L \<longleftrightarrow> distinct [at_l1 L, at_l2_user L, at_l2_kernel L, at_l3_mmio L, at_l3_fb_0 L, at_l3_fb_1 L]
     \<and> (\<forall>a \<in> set [at_l1 L, at_l2_user L, at_l2_kernel L, at_l3_mmio L, at_l3_fb_0 L, at_l3_fb_1 L]. table_aligned a)"

lemma table_desc:
  assumes "table_aligned a"
  shows "bit (a OR DESC_TABLE OR DESC_VALID) 0" "bit (a OR DESC_TABLE OR DESC_VALID) 1"
    "(a OR DESC_TABLE OR DESC_VALID) AND push_bit 12 (mask 36) = a"
proof -
  have b: "12 \<le> i \<and> i < 48" if "bit a i" for i
  proof -
    have "bit (a AND push_bit 12 (mask 36)) i" using that assms by (simp add: table_aligned_def)
    then show ?thesis by (auto simp: bit_simps)
  qed
  have three: "\<not> bit (3 :: int) i" if "12 \<le> i" for i
  proof -
    have "(3 :: int) = mask 2" by (simp add: mask_eq_exp_minus_1)
    then have "bit (3 :: int) i \<longleftrightarrow> i < 2" by (simp only: bit_mask_iff) simp
    with that show ?thesis by simp
  qed
  show "bit (a OR DESC_TABLE OR DESC_VALID) 0" "bit (a OR DESC_TABLE OR DESC_VALID) 1"
    by (simp_all add: bit_simps desc_bits)
  show "(a OR DESC_TABLE OR DESC_VALID) AND push_bit 12 (mask 36) = a"
    by (rule bit_word_eqI) (auto simp: bit_simps desc_bits three dest: b)
qed

text \<open>A leaf descriptor: address bits \<open>n\<close> to 47 and flags in the low twelve bits.\<close>

lemma leaf_desc:
  assumes "a AND push_bit n (mask (48 - n)) = a" "take_bit 12 f = f" "12 \<le> n" "n \<le> 48"
  shows "i < 12 \<Longrightarrow> bit (a OR f) i \<longleftrightarrow> bit f i"
    "leaf n va (a OR f) = (if bit f 10 then Some (a OR take_bit n va, bit f 6, unat (take_bit 3 (drop_bit 2 f))) else None)"
proof -
  have a: "n \<le> i \<and> i < 48" if "bit a i" for i
  proof -
    have "bit (a AND push_bit n (mask (48 - n))) i" using that by (simp only: assms(1))
    then show ?thesis using assms(4) by (auto simp: bit_simps)
  qed
  have f: "i < 12" if "bit f i" for i
  proof -
    have "bit (take_bit 12 f) i" using that by (simp only: assms(2))
    then show ?thesis by (auto simp: bit_simps)
  qed
  show low: "bit (a OR f) i \<longleftrightarrow> bit f i" if "i < 12" for i
    using that assms(3) by (auto simp: bit_or_iff dest: a)
  have "(a OR f) AND push_bit n (mask (48 - n)) = a"
    by (rule bit_word_eqI) (use assms(3,4) in \<open>auto simp: bit_simps dest: a f\<close>)
  moreover have "take_bit 3 (drop_bit 2 (a OR f)) = take_bit 3 (drop_bit 2 f)"
    by (rule bit_word_eqI) (use assms(3) in \<open>auto simp: bit_simps dest: a\<close>)
  ultimately show "leaf n va (a OR f) = (if bit f 10 then Some (a OR take_bit n va, bit f 6, unat (take_bit 3 (drop_bit 2 f))) else None)"
    using low by (simp add: leaf_def)
qed

lemma split_or: "push_bit n (drop_bit n va) OR take_bit n va = (va :: u64)"
  by (rule bit_word_eqI) (auto simp: bit_simps)

lemma identity_or:
  assumes "unat va div 2 ^ n = k"
  shows "push_bit n (of_nat k) OR take_bit n va = (va :: u64)"
proof -
  have "unat (drop_bit n va) = k"
    using assms by (simp only: unat_drop_bit_eq) (simp add: drop_bit_eq_div)
  then have "drop_bit n va = of_nat k" by (auto simp: of_nat_unat)
  then show ?thesis using split_or [of n va] by simp
qed

lemma address_bits:
  assumes "k < 2 ^ (48 - n)" "n \<le> 48"
  shows "push_bit n (of_nat k) AND push_bit n (mask (48 - n)) = (push_bit n (of_nat k) :: u64)"
proof -
  have "take_bit (48 - n) (of_nat k :: u64) = of_nat k"
    using assms(1) by (simp add: take_bit_of_nat take_bit_nat_eq_self)
  then show ?thesis by (simp flip: push_bit_and add: take_bit_eq_mask)
qed

definition normal_flags :: "u64 \<Rightarrow> u64 \<Rightarrow> u64" where
  "normal_flags ap kind = ATTR_NORMAL OR ap OR DESC_AF OR kind OR DESC_VALID"

definition device_flags :: "u64 \<Rightarrow> u64" where
  "device_flags kind = ATTR_DEVICE OR AP_RW_EL1 OR DESC_AF OR kind OR DESC_VALID"

lemma ram_block_desc: "ram_block ap i = push_bit 21 (of_nat (512 + i)) OR normal_flags ap DESC_BLOCK"
  by (simp add: ram_block_def normal_flags_def push_bit_eq_mult algebra_simps)

lemma device_block_desc: "a = push_bit 21 (of_nat k) \<Longrightarrow> device_block a = push_bit 21 (of_nat k) OR device_flags DESC_BLOCK"
  by (simp add: device_block_def device_flags_def)

lemma mmio_page_desc: "mmio_page i = push_bit 12 (of_nat (40960 + i)) OR device_flags DESC_PAGE"
  by (simp add: mmio_page_def device_flags_def push_bit_eq_mult algebra_simps)

lemma flags_facts:
  "take_bit 12 (normal_flags AP_RW_EL1 DESC_BLOCK) = normal_flags AP_RW_EL1 DESC_BLOCK"
  "take_bit 12 (normal_flags AP_RW_ANY DESC_BLOCK) = normal_flags AP_RW_ANY DESC_BLOCK"
  "take_bit 12 (normal_flags AP_RW_ANY DESC_PAGE) = normal_flags AP_RW_ANY DESC_PAGE"
  "take_bit 12 (device_flags DESC_BLOCK) = device_flags DESC_BLOCK"
  "take_bit 12 (device_flags DESC_PAGE) = device_flags DESC_PAGE"
  by (simp_all add: normal_flags_def device_flags_def desc_bits)

lemma walk_table:
  assumes "table_at L m base = Some t" "t ! table_index (21 + 9 * k) va = a OR DESC_TABLE OR DESC_VALID" "table_aligned a"
  shows "walk L m va (Suc k) base = walk L m va k a"
  using assms table_desc [OF assms(3)] by (simp add: Let_def add.commute)

lemma walk_fault:
  assumes "table_at L m base = Some t" "t ! table_index (12 + 9 * k) va = 0"
  shows "walk L m va k base = None"
  using assms by (cases k) (simp_all add: Let_def)

lemma walk_leaf:
  assumes "table_at L m base = Some t" "t ! table_index (12 + 9 * k) va = push_bit (12 + 9 * k) (of_nat x) OR f"
    and "x < 2 ^ (36 - 9 * k)" "take_bit 12 f = f" "k \<le> 4" "bit f 0" "bit f 1 \<longleftrightarrow> k = 0" "bit f 10"
  shows "walk L m va k base = Some (push_bit (12 + 9 * k) (of_nat x) OR take_bit (12 + 9 * k) va, bit f 6,
    unat (take_bit 3 (drop_bit 2 f)))"
proof -
  have "push_bit (12 + 9 * k) (of_nat x) AND push_bit (12 + 9 * k) (mask (48 - (12 + 9 * k))) = (push_bit (12 + 9 * k) (of_nat x) :: u64)"
    using assms(3,5) by (intro address_bits) auto
  note d = leaf_desc [OF this assms(4)]
  show ?thesis using assms d by (cases k) (auto simp: Let_def)
qed

declare walk.simps [simp del]

section \<open>The memory map\<close>

lemma length_fill_entries [simp]: "length (fill_entries f is t) = length t"
  unfolding fill_entries_def by (induction "is" arbitrary: t) auto

lemma nth_fill_entries:
  "j < length t \<Longrightarrow> fill_entries f is t ! j = (if j \<in> set is then f j else t ! j)"
  unfolding fill_entries_def by (induction "is" arbitrary: t) (auto simp: nth_list_update)

text \<open>
  What the kernel maps, by address: 128 MB of RAM, of which the user program may use the 2 MB blocks
  its region touches; the interrupt controller, the UART, the virtio registers and 4 MB of DMA heap
  as device memory for the kernel alone. Everything maps to itself.
\<close>

definition el0_block :: "layout \<Rightarrow> nat \<Rightarrow> bool" where
  "el0_block L V \<longleftrightarrow> unat (el0_region_start L) div 0x200000 \<le> V div 0x200000
     \<and> V div 0x200000 < (unat (el0_region_end L) + 0x1FFFFF) div 0x200000"

definition memory_map :: "layout \<Rightarrow> u64 \<Rightarrow> access option" where
  "memory_map L va =
     (let V = unat va
      in if 0x40000000 \<le> V \<and> V < 0x48000000 then Some (va, el0_block L V, 1)
         else if 0x08000000 \<le> V \<and> V < 0x08200000 \<or> 0x09000000 \<le> V \<and> V < 0x09200000
           \<or> 0x0A000000 \<le> V \<and> V < 0x0A020000 \<or> 0x50000000 \<le> V \<and> V < 0x50400000
         then Some (va, False, 0)
         else None)"

definition region_in_ram :: "layout \<Rightarrow> bool" where
  "region_in_ram L \<longleftrightarrow> 0x40000000 \<le> unat (el0_region_start L) \<and> unat (el0_region_start L) \<le> unat (el0_region_end L)
     \<and> unat (el0_region_end L) \<le> 0x48000000"

lemma el0_blocks_set:
  assumes "region_in_ram L"
  shows "i \<in> set (el0_blocks L) \<longleftrightarrow> i < 64 \<and> unat (el0_region_start L) div 0x200000 \<le> 512 + i
     \<and> 512 + i < (unat (el0_region_end L) + 0x1FFFFF) div 0x200000"
proof -
  let ?s = "el0_region_start L" and ?e = "el0_region_end L"
  have b: "0x40000000 \<le> unat ?s" "unat ?s \<le> unat ?e" "unat ?e \<le> 0x48000000"
    using assms by (simp_all add: region_in_ram_def)
  have s: "unat (?s - 0x40000000) = unat ?s - 0x40000000"
    using b by (simp add: unat_sub word_le_nat_alt)
  have e0: "unat (?e - 0x40000000) = unat ?e - 0x40000000"
    using b by (simp add: unat_sub word_le_nat_alt)
  have "unat (?e - 0x40000000 + 0x1FFFFF) = unat (?e - 0x40000000) + 0x1FFFFF"
    using b e0 by (subst unat_add_lem [THEN iffD1]) simp_all
  then have e: "unat (?e - 0x40000000 + 0x200000 - 1) = unat ?e - 0x40000000 + 0x1FFFFF"
    using e0 by (simp add: algebra_simps)
  have "unat ((?s - 0x40000000) div 0x200000) = (unat ?s - 0x40000000) div 0x200000"
    using s by (simp add: unat_div)
  moreover have "(unat ?s - 0x40000000) div 0x200000 = unat ?s div 0x200000 - 512" by linarith
  moreover have "unat ?s div 0x200000 \<le> 576" using b by linarith
  ultimately have ss: "unat (el0_idx_start L) = unat ?s div 0x200000 - 512"
    by (simp add: el0_idx_start_def unat_ucast_u32)
  have "unat ((?e - 0x40000000 + 0x200000 - 1) div 0x200000) = (unat ?e - 0x40000000 + 0x1FFFFF) div 0x200000"
    using e by (simp only: unat_div) simp
  moreover have "(unat ?e - 0x40000000 + 0x1FFFFF) div 0x200000 = (unat ?e + 0x1FFFFF) div 0x200000 - 512"
    using b by linarith
  moreover have "(unat ?e + 0x1FFFFF) div 0x200000 \<le> 577" using b by linarith
  ultimately have ee: "unat (el0_idx_end L) = (unat ?e + 0x1FFFFF) div 0x200000 - 512"
    by (simp add: el0_idx_end_def unat_ucast_u32)
  have "512 \<le> unat ?s div 0x200000" using b by linarith
  then show ?thesis by (auto simp: el0_blocks_def ss ee)
qed

lemma init_tables:
  "l1_table (mmu_init_tables L m) = (replicate 512 0)[1 := at_l2_kernel L OR DESC_TABLE OR DESC_VALID,
     0 := at_l2_user L OR DESC_TABLE OR DESC_VALID]"
  "l2_table_kernel (mmu_init_tables L m) = (kernel_blocks L (replicate 512 0))[128 := device_block 0x50000000,
     129 := device_block 0x50200000]"
  "l2_table_user (mmu_init_tables L m) = (replicate 512 0)[64 := device_block 0x08000000,
     72 := device_block 0x09000000, 80 := at_l3_mmio L OR DESC_TABLE OR DESC_VALID]"
  "l3_table_mmio (mmu_init_tables L m) = fill_entries mmio_page [0..<32] (replicate 512 0)"
  "l3_table_fb_0 (mmu_init_tables L m) = replicate 512 0"
  "l3_table_fb_1 (mmu_init_tables L m) = replicate 512 0"
  "ttbr0_el1 (mmu_init_tables L m) = at_l1 L"
  by (simp_all add: mmu_init_tables_def zero_tables_def Let_def)

lemma kernel_entry:
  assumes "i < 512"
  shows "l2_table_kernel (mmu_init_tables L m) ! i =
    (if i < 64 then push_bit 21 (of_nat (512 + i)) OR normal_flags (if i \<in> set (el0_blocks L) then AP_RW_ANY else AP_RW_EL1) DESC_BLOCK
     else if i = 128 \<or> i = 129 then push_bit 21 (of_nat (512 + i)) OR device_flags DESC_BLOCK else 0)"
proof -
  have "i < 64" if "i \<in> set (el0_blocks L)" using that by (simp add: el0_blocks_def)
  then show ?thesis
    using assms device_block_desc [of "0x50000000" 640] device_block_desc [of "0x50200000" 641]
    by (auto simp: init_tables kernel_blocks_def Let_def nth_fill_entries nth_list_update ram_block_desc push_bit_eq_mult)
qed

lemma user_entry:
  assumes "i < 512"
  shows "l2_table_user (mmu_init_tables L m) ! i =
    (if i = 64 \<or> i = 72 then push_bit 21 (of_nat i) OR device_flags DESC_BLOCK
     else if i = 80 then at_l3_mmio L OR DESC_TABLE OR DESC_VALID else 0)"
  using assms device_block_desc [of "0x08000000" 64] device_block_desc [of "0x09000000" 72]
  by (auto simp: init_tables nth_list_update push_bit_eq_mult)

lemma mmio_entry:
  "i < 512 \<Longrightarrow> l3_table_mmio (mmu_init_tables L m) ! i =
    (if i < 32 then push_bit 12 (of_nat (40960 + i)) OR device_flags DESC_PAGE else 0)"
  by (simp add: init_tables nth_fill_entries mmio_page_desc)

lemma l1_entry:
  "i < 512 \<Longrightarrow> l1_table (mmu_init_tables L m) ! i =
    (if i = 0 then at_l2_user L OR DESC_TABLE OR DESC_VALID
     else if i = 1 then at_l2_kernel L OR DESC_TABLE OR DESC_VALID else 0)"
  by (simp add: init_tables nth_list_update)

lemma layout_tables:
  assumes "layout_ok L"
  shows "table_at L m (at_l1 L) = Some (l1_table m)" "table_at L m (at_l2_user L) = Some (l2_table_user m)"
    "table_at L m (at_l2_kernel L) = Some (l2_table_kernel m)" "table_at L m (at_l3_mmio L) = Some (l3_table_mmio m)"
    "table_at L m (at_l3_fb_0 L) = Some (l3_table_fb_0 m)" "table_at L m (at_l3_fb_1 L) = Some (l3_table_fb_1 m)"
    "table_aligned (at_l2_user L)" "table_aligned (at_l2_kernel L)" "table_aligned (at_l3_mmio L)"
    "table_aligned (at_l3_fb_0 L)" "table_aligned (at_l3_fb_1 L)"
  using assms by (auto simp: layout_ok_def table_at_def)

lemma leaf_flags:
  "bit (normal_flags AP_RW_EL1 DESC_BLOCK) 0" "\<not> bit (normal_flags AP_RW_EL1 DESC_BLOCK) 1"
  "bit (normal_flags AP_RW_EL1 DESC_BLOCK) 10" "\<not> bit (normal_flags AP_RW_EL1 DESC_BLOCK) 6"
  "bit (normal_flags AP_RW_ANY DESC_BLOCK) 0" "\<not> bit (normal_flags AP_RW_ANY DESC_BLOCK) 1"
  "bit (normal_flags AP_RW_ANY DESC_BLOCK) 10" "bit (normal_flags AP_RW_ANY DESC_BLOCK) 6"
  "bit (normal_flags AP_RW_ANY DESC_PAGE) 0" "bit (normal_flags AP_RW_ANY DESC_PAGE) 1"
  "bit (normal_flags AP_RW_ANY DESC_PAGE) 10" "bit (normal_flags AP_RW_ANY DESC_PAGE) 6"
  "bit (device_flags DESC_BLOCK) 0" "\<not> bit (device_flags DESC_BLOCK) 1"
  "bit (device_flags DESC_BLOCK) 10" "\<not> bit (device_flags DESC_BLOCK) 6"
  "bit (device_flags DESC_PAGE) 0" "bit (device_flags DESC_PAGE) 1"
  "bit (device_flags DESC_PAGE) 10" "\<not> bit (device_flags DESC_PAGE) 6"
  "unat (take_bit 3 (drop_bit 2 (normal_flags AP_RW_EL1 DESC_BLOCK))) = 1"
  "unat (take_bit 3 (drop_bit 2 (normal_flags AP_RW_ANY DESC_BLOCK))) = 1"
  "unat (take_bit 3 (drop_bit 2 (normal_flags AP_RW_ANY DESC_PAGE))) = 1"
  "unat (take_bit 3 (drop_bit 2 (device_flags DESC_BLOCK))) = 0"
  "unat (take_bit 3 (drop_bit 2 (device_flags DESC_PAGE))) = 0"
  by code_simp+

lemmas leaf_flags_simps = leaf_flags leaf_flags [unfolded One_nat_def]

lemma walk_identity:
  assumes "table_at L m base = Some t"
    "t ! table_index (12 + 9 * k) va = push_bit (12 + 9 * k) (of_nat (unat va div 2 ^ (12 + 9 * k))) OR f"
    "unat va < 2 ^ 39" "k \<le> 1" "take_bit 12 f = f" "bit f 0" "bit f 1 \<longleftrightarrow> k = 0" "bit f 10"
  shows "walk L m va k base = Some (va, bit f 6, unat (take_bit 3 (drop_bit 2 f)))"
proof -
  have "unat va div 2 ^ (12 + 9 * k) < 2 ^ (36 - 9 * k)"
    using assms(3,4) by (cases k) (auto simp: less_mult_imp_div_less)
  moreover have "k \<le> 4" using assms(4) by simp
  ultimately show ?thesis
    using walk_leaf [OF assms(1,2) _ assms(5) _ assms(6,7,8)] identity_or [of va "12 + 9 * k", OF refl] by metis
qed

lemma mod512: "512 * a \<le> q \<Longrightarrow> q < 512 * Suc a \<Longrightarrow> q = 512 * a + q mod (512 :: nat)"
  using div_nat_eqI [of 512 a q] mult_div_mod_eq [of 512 q] by simp

text \<open>Tables that answer for an address as the initial ones do.\<close>

definition agrees :: "layout \<Rightarrow> mmu \<Rightarrow> mmu \<Rightarrow> u64 \<Rightarrow> bool" where
  "agrees L m M va \<longleftrightarrow> l1_table M = l1_table (mmu_init_tables L m) \<and> ttbr0_el1 M = at_l1 L
     \<and> l2_table_kernel M = l2_table_kernel (mmu_init_tables L m)
     \<and> l3_table_mmio M = l3_table_mmio (mmu_init_tables L m)
     \<and> (unat va < 2 ^ 30 \<longrightarrow> l2_table_user M ! table_index 21 va = l2_table_user (mmu_init_tables L m) ! table_index 21 va)"

lemma kernel_walk:
  assumes L: "layout_ok L" "region_in_ram L" and M: "agrees L m M va" and V: "unat va div 2 ^ 30 = 1"
  shows "walk L M va 1 (at_l2_kernel L) = memory_map L va"
proof -
  note tab = layout_tables(3) [OF L(1), of M]
  have same: "l2_table_kernel M = l2_table_kernel (mmu_init_tables L m)" using M by (simp add: agrees_def)
  let ?i = "table_index 21 va"
  have "unat va div 0x40000000 = 1" using V by simp
  then have rng: "0x40000000 \<le> unat va" "unat va < 0x80000000" by linarith+
  have "512 \<le> unat va div 0x200000" "unat va div 0x200000 < 1024" using rng by linarith+
  then have i: "?i < 512" "unat va div 2 ^ 21 = 512 + ?i"
    using mod512 [of 1 "unat va div 0x200000"] by (simp_all add: table_index_def)
  then have q: "unat va div 0x200000 = 512 + ?i" by simp
  have entry: "walk L M va 1 (at_l2_kernel L) = Some (va, bit f 6, unat (take_bit 3 (drop_bit 2 f)))"
    if "l2_table_kernel M ! ?i = push_bit 21 (of_nat (512 + ?i)) OR f"
      "take_bit 12 f = f" "bit f 0" "\<not> bit f 1" "bit f 10" for f
    using walk_identity [OF tab, where k = 1 and va = va and f = f] that i rng by simp
  consider "?i < 64" "?i \<in> set (el0_blocks L)" | "?i < 64" "?i \<notin> set (el0_blocks L)"
    | "?i = 128 \<or> ?i = 129" | "64 \<le> ?i" "?i \<noteq> 128" "?i \<noteq> 129" by linarith
  then show ?thesis
  proof cases
    case 1
    have "el0_block L (unat va)" using 1 i(2) el0_blocks_set [OF L(2)] by (simp add: el0_block_def)
    moreover have "unat va < 0x48000000" using 1 q by linarith
    ultimately show ?thesis
      using 1 entry [of "normal_flags AP_RW_ANY DESC_BLOCK"] kernel_entry [OF i(1), of L m, folded same] rng
      by (simp add: memory_map_def leaf_flags_simps flags_facts Let_def)
  next
    case 2
    have "\<not> el0_block L (unat va)" using 2 i(2) el0_blocks_set [OF L(2)] by (simp add: el0_block_def)
    moreover have "unat va < 0x48000000" using 2 q by linarith
    ultimately show ?thesis
      using 2 entry [of "normal_flags AP_RW_EL1 DESC_BLOCK"] kernel_entry [OF i(1), of L m, folded same] rng
      by (simp add: memory_map_def leaf_flags_simps flags_facts Let_def)
  next
    case 3
    then have "0x50000000 \<le> unat va" "unat va < 0x50400000" using i(2) by auto
    then show ?thesis
      using 3 entry [of "device_flags DESC_BLOCK"] kernel_entry [OF i(1), of L m, folded same] rng
      by (auto simp: memory_map_def leaf_flags_simps flags_facts Let_def)
  next
    case 4
    then have "walk L M va 1 (at_l2_kernel L) = None"
      using walk_fault [OF tab, where k = 1] kernel_entry [OF i(1), of L m, folded same] by simp
    moreover have "\<not> unat va < 0x48000000" "\<not> (0x50000000 \<le> unat va \<and> unat va < 0x50400000)" using 4 q by linarith+
    ultimately show ?thesis using rng by (simp add: memory_map_def Let_def)
  qed
qed

lemma user_walk:
  assumes L: "layout_ok L" and M: "agrees L m M va" and V: "unat va < 2 ^ 30"
  shows "walk L M va 1 (at_l2_user L) = memory_map L va"
proof -
  note tab = layout_tables(2) [OF L, of M]
  have same: "l2_table_user M ! table_index 21 va = l2_table_user (mmu_init_tables L m) ! table_index 21 va"
    "l3_table_mmio M = l3_table_mmio (mmu_init_tables L m)" using M V by (simp_all add: agrees_def)
  let ?i = "table_index 21 va"
  have i: "?i < 512" "unat va div 2 ^ 21 = ?i" unfolding table_index_def using V by auto
  note entry = user_entry [OF i(1), of L m, folded same(1)]
  consider "?i = 64 \<or> ?i = 72" | "?i = 80" | "?i \<noteq> 64" "?i \<noteq> 72" "?i \<noteq> 80" by blast
  then show ?thesis
  proof cases
    case 1
    then have "0x08000000 \<le> unat va \<and> unat va < 0x08200000 \<or> 0x09000000 \<le> unat va \<and> unat va < 0x09200000"
      using i(2) by auto
    moreover have "walk L M va 1 (at_l2_user L) = Some (va, False, 0)"
      using walk_identity [OF tab, where k = 1 and va = va and f = "device_flags DESC_BLOCK"] 1 entry i V
      by (auto simp: leaf_flags_simps flags_facts)
    ultimately show ?thesis using V by (auto simp: memory_map_def Let_def)
  next
    case 2
    then have rng: "0x0A000000 \<le> unat va" "unat va < 0x0A200000" using i(2) by simp_all
    note tab3 = layout_tables(4) [OF L, of M]
    let ?j = "table_index 12 va"
    have "40960 \<le> unat va div 0x1000" "unat va div 0x1000 < 41472" using rng by linarith+
    then have j: "?j < 512" "unat va div 2 ^ 12 = 40960 + ?j"
        using mod512 [of 80 "unat va div 0x1000"] by (simp_all add: table_index_def)
    then have q: "unat va div 0x1000 = 40960 + ?j" by simp
    have "walk L M va 1 (at_l2_user L) = walk L M va 0 (at_l3_mmio L)"
      using walk_table [OF tab, of 0 va] entry 2 layout_tables(9) [OF L] by simp
    also have "\<dots> = (if ?j < 32 then Some (va, False, 0) else None)"
    proof (cases "?j < 32")
      case True
      then show ?thesis
        using walk_identity [OF tab3, where k = 0 and va = va and f = "device_flags DESC_PAGE"] mmio_entry [OF j(1), of L m, folded same(2)] j rng
        by (simp add: leaf_flags_simps flags_facts)
    next
      case False
      then show ?thesis using walk_fault [OF tab3, where k = 0] mmio_entry [OF j(1), of L m, folded same(2)] by simp
    qed
    moreover have "?j < 32 \<longleftrightarrow> unat va < 0x0A020000" using q by linarith
    ultimately show ?thesis using rng by (simp add: memory_map_def Let_def)
  next
    case 3
    then have "walk L M va 1 (at_l2_user L) = None"
      using walk_fault [OF tab, where k = 1] entry by simp
    moreover have "\<not> (0x08000000 \<le> unat va \<and> unat va < 0x08200000 \<or> 0x09000000 \<le> unat va \<and> unat va < 0x09200000
        \<or> 0x0A000000 \<le> unat va \<and> unat va < 0x0A020000)"
      using 3 i(2) by auto
    ultimately show ?thesis using V by (simp add: memory_map_def Let_def)
  qed
qed

lemma table_walk_agrees:
  assumes "layout_ok L" "region_in_ram L" and M: "agrees L m M va"
  shows "table_walk L M va = memory_map L va"
proof (cases "unat va < 2 ^ 39")
  case True
  let ?i = "table_index 30 va"
  have same: "l1_table M = l1_table (mmu_init_tables L m)" "ttbr0_el1 M = at_l1 L"
    using \<open>agrees L m M va\<close> by (simp_all add: agrees_def)
  note tab = layout_tables(1) [OF assms(1), of M]
  have i: "?i < 512" "unat va div 2 ^ 30 = ?i" unfolding table_index_def using True by auto
  note entry = l1_entry [OF i(1), of L m, folded same(1)]
  have walk: "table_walk L M va = walk L M va 2 (at_l1 L)" using True by (simp add: table_walk_def same(2))
  have two: "2 = Suc 1" by simp
  consider "?i = 0" | "?i = 1" | "2 \<le> ?i" by linarith
  then show ?thesis
  proof cases
    case 1
    then have "walk L M va 2 (at_l1 L) = walk L M va 1 (at_l2_user L)"
      using walk_table [OF tab, of 1 va] entry layout_tables(7) [OF assms(1)] by (simp add: two)
    then show ?thesis using walk user_walk [OF assms(1) M] 1 i(2) by simp
  next
    case 2
    then have "walk L M va 2 (at_l1 L) = walk L M va 1 (at_l2_kernel L)"
      using walk_table [OF tab, of 1 va] entry layout_tables(8) [OF assms(1)] by (simp add: two)
    then show ?thesis using walk kernel_walk [OF assms] 2 i(2) by simp
  next
    case 3
    then have "walk L M va 2 (at_l1 L) = None" using walk_fault [OF tab, where k = 2] entry by simp
    moreover have "2 \<le> unat va div 0x40000000" using 3 i(2) by simp
    then have "0x80000000 \<le> unat va" by linarith
    ultimately show ?thesis using walk by (simp add: memory_map_def Let_def)
  qed
next
  case False
  then show ?thesis by (simp add: table_walk_def memory_map_def Let_def)
qed

end
