(* ===== verification/Virtio.thy ===== *)
theory Virtio
  imports Prelude
begin

text \<open>
  \<^verbatim>\<open>kernel/virtio.c\<close>: the DMA arena, the virtqueues, the block, GPU and input drivers. Physical memory
  is a function from addresses to bytes; the rings of a queue, which the driver reaches through typed
  pointers, are a record; the statics of the file are the fields of one state. What the driver tells
  the hardware (cache maintenance, register writes) is recorded in order in \<open>ops\<close>. The devices are
  parameters: \<open>reg\<close> gives the value of an MMIO register, and \<open>service base q m v\<close> is the device's answer to
  the requests it finds behind a notified queue, with the number of polls that come before it and \<open>None\<close> when it never completes one.
\<close>

section \<open>Memory\<close>

type_synonym memory = "u64 \<Rightarrow> u8"

definition put_mem :: "memory \<Rightarrow> u64 \<Rightarrow> u8 list \<Rightarrow> memory" where
  "put_mem m a bs = (\<lambda>x. if unat (x - a) < length bs then bs ! unat (x - a) else m x)"

definition get_mem :: "memory \<Rightarrow> u64 \<Rightarrow> nat \<Rightarrow> u8 list" where
  "get_mem m a n = map (\<lambda>i. m (a + of_nat i)) [0..<n]"

definition zero_mem :: "memory \<Rightarrow> u64 \<Rightarrow> u32 \<Rightarrow> memory" where
  "zero_mem m a n = (\<lambda>x. if unat (x - a) < unat n then 0 else m x)"

definition bytes64 :: "u64 \<Rightarrow> u8 list" where
  "bytes64 v = bytes32 (ucast v) @ bytes32 (ucast (drop_bit 32 v))"

definition load32 :: "memory \<Rightarrow> u64 \<Rightarrow> u32" where
  "load32 m a = get32 (get_mem m a 4) 0"

definition load16 :: "memory \<Rightarrow> u64 \<Rightarrow> u16" where
  "load16 m a = get16 (get_mem m a 2) 0"

section \<open>Queues and state\<close>

record virtq_desc =
  addr :: u64
  len :: u32
  flags :: u16
  next_desc :: u16

text \<open>The rings of one queue with the addresses the driver keeps for them.\<close>

record virtq =
  desc_addr :: u64
  avail_addr :: u64
  used_addr :: u64
  desc :: "nat \<Rightarrow> virtq_desc"
  avail_idx :: u16
  avail_ring :: "nat \<Rightarrow> u16"
  used_idx :: u16
  used_id :: "nat \<Rightarrow> u32"

datatype hw_op = Clean u64 u32 | Invalidate u64 u32 | Reg_Write u64 u32 | Map_Framebuffer u64 u64

record virtio =
  mem :: memory
  ops :: "hw_op list"
  dma_heap_curr :: u64
  global_desc_idx :: u16
  gpu_mmio_base :: u64
  gpu_q :: virtq
  gpu_last_used_idx :: u16
  active_fb_phys :: u64
  active_fb_width :: u32
  active_fb_height :: u32
  active_fb_size :: u32
  input_mmio_base :: u64
  in_q :: virtq
  in_last_used_idx :: u16
  in_events :: u64
  blk_mmio_base :: u64
  blk_q :: virtq
  blk_last_used_idx :: u16
  shift_active :: u8

text \<open>The statics as the image starts with them; unset pointers are zero.\<close>

definition null_virtq :: virtq where
  "null_virtq = \<lparr>desc_addr = 0, avail_addr = 0, used_addr = 0,
     desc = (\<lambda>_. \<lparr>addr = 0, len = 0, flags = 0, next_desc = 0\<rparr>), avail_idx = 0, avail_ring = (\<lambda>_. 0),
     used_idx = 0, used_id = (\<lambda>_. 0)\<rparr>"

definition virtio_statics :: virtio where
  "virtio_statics = \<lparr>mem = (\<lambda>_. 0), ops = [], dma_heap_curr = 0x50000000, global_desc_idx = 0, gpu_mmio_base = 0,
     gpu_q = null_virtq, gpu_last_used_idx = 0, active_fb_phys = 0, active_fb_width = 1024, active_fb_height = 768,
     active_fb_size = 1024 * 768 * 4, input_mmio_base = 0, in_q = null_virtq, in_last_used_idx = 0, in_events = 0,
     blk_mmio_base = 0, blk_q = null_virtq, blk_last_used_idx = 0, shift_active = 0\<rparr>"

text \<open>The constants of \<^verbatim>\<open>include/os_virtio.h\<close>.\<close>

abbreviation (input) VIRTIO_MMIO_BASE :: u64 where "VIRTIO_MMIO_BASE \<equiv> 0x0a000000"
abbreviation (input) VIRTIO_MMIO_SLOT_SIZE :: u64 where "VIRTIO_MMIO_SLOT_SIZE \<equiv> 0x200"
abbreviation (input) VIRTIO_MMIO_SLOT_COUNT :: nat where "VIRTIO_MMIO_SLOT_COUNT \<equiv> 32"
abbreviation (input) VIRTIO_MAGIC :: u32 where "VIRTIO_MAGIC \<equiv> 0x74726976"
abbreviation (input) VIRTIO_DEV_BLK :: u32 where "VIRTIO_DEV_BLK \<equiv> 2"
abbreviation (input) VIRTIO_DEV_INPUT :: u32 where "VIRTIO_DEV_INPUT \<equiv> 18"
abbreviation (input) VIRTIO_DEV_GPU :: u32 where "VIRTIO_DEV_GPU \<equiv> 16"
abbreviation (input) VIRTIO_BLK_T_IN :: u32 where "VIRTIO_BLK_T_IN \<equiv> 0"
abbreviation (input) VIRTIO_BLK_T_OUT :: u32 where "VIRTIO_BLK_T_OUT \<equiv> 1"
abbreviation (input) VIRTIO_BLK_S_OK :: u8 where "VIRTIO_BLK_S_OK \<equiv> 0"
abbreviation (input) VIRTIO_REG_STATUS :: u64 where "VIRTIO_REG_STATUS \<equiv> 0x070"
abbreviation (input) VIRTIO_REG_QUEUE_SEL :: u64 where "VIRTIO_REG_QUEUE_SEL \<equiv> 0x030"
abbreviation (input) VIRTIO_REG_QUEUE_NUM :: u64 where "VIRTIO_REG_QUEUE_NUM \<equiv> 0x038"
abbreviation (input) VIRTIO_REG_QUEUE_DESC_LOW :: u64 where "VIRTIO_REG_QUEUE_DESC_LOW \<equiv> 0x080"
abbreviation (input) VIRTIO_REG_QUEUE_DESC_HIGH :: u64 where "VIRTIO_REG_QUEUE_DESC_HIGH \<equiv> 0x084"
abbreviation (input) VIRTIO_REG_QUEUE_AVAIL_LOW :: u64 where "VIRTIO_REG_QUEUE_AVAIL_LOW \<equiv> 0x090"
abbreviation (input) VIRTIO_REG_QUEUE_AVAIL_HIGH :: u64 where "VIRTIO_REG_QUEUE_AVAIL_HIGH \<equiv> 0x094"
abbreviation (input) VIRTIO_REG_QUEUE_USED_LOW :: u64 where "VIRTIO_REG_QUEUE_USED_LOW \<equiv> 0x0a0"
abbreviation (input) VIRTIO_REG_QUEUE_USED_HIGH :: u64 where "VIRTIO_REG_QUEUE_USED_HIGH \<equiv> 0x0a4"
abbreviation (input) VIRTIO_REG_QUEUE_READY :: u64 where "VIRTIO_REG_QUEUE_READY \<equiv> 0x044"
abbreviation (input) VIRTIO_REG_QUEUE_NOTIFY :: u64 where "VIRTIO_REG_QUEUE_NOTIFY \<equiv> 0x050"
abbreviation (input) VIRTIO_STATUS_ACKNOWLEDGE :: u32 where "VIRTIO_STATUS_ACKNOWLEDGE \<equiv> 0x01"
abbreviation (input) VIRTIO_STATUS_DRIVER :: u32 where "VIRTIO_STATUS_DRIVER \<equiv> 0x02"
abbreviation (input) VIRTIO_STATUS_DRIVER_OK :: u32 where "VIRTIO_STATUS_DRIVER_OK \<equiv> 0x04"
abbreviation (input) VIRTIO_STATUS_FEATURES_OK :: u32 where "VIRTIO_STATUS_FEATURES_OK \<equiv> 0x08"
abbreviation (input) VIRTIO_GPU_CMD_GET_DISPLAY_INFO :: u32 where "VIRTIO_GPU_CMD_GET_DISPLAY_INFO \<equiv> 0x0100"
abbreviation (input) VIRTIO_GPU_CMD_RESOURCE_CREATE_2D :: u32 where "VIRTIO_GPU_CMD_RESOURCE_CREATE_2D \<equiv> 0x0101"
abbreviation (input) VIRTIO_GPU_CMD_SET_SCANOUT :: u32 where "VIRTIO_GPU_CMD_SET_SCANOUT \<equiv> 0x0103"
abbreviation (input) VIRTIO_GPU_CMD_RESOURCE_FLUSH :: u32 where "VIRTIO_GPU_CMD_RESOURCE_FLUSH \<equiv> 0x0104"
abbreviation (input) VIRTIO_GPU_CMD_TRANSFER_TO_HOST_2D :: u32 where "VIRTIO_GPU_CMD_TRANSFER_TO_HOST_2D \<equiv> 0x0105"
abbreviation (input) VIRTIO_GPU_CMD_RESOURCE_ATTACH_BACKING :: u32 where "VIRTIO_GPU_CMD_RESOURCE_ATTACH_BACKING \<equiv> 0x0106"
abbreviation (input) VIRTIO_GPU_RESP_OK_NODATA :: u32 where "VIRTIO_GPU_RESP_OK_NODATA \<equiv> 0x1100"
abbreviation (input) VIRTIO_GPU_RESP_OK_DISPLAY_INFO :: u32 where "VIRTIO_GPU_RESP_OK_DISPLAY_INFO \<equiv> 0x1101"
abbreviation (input) VIRTIO_GPU_FORMAT_B8G8R8X8_UNORM :: u32 where "VIRTIO_GPU_FORMAT_B8G8R8X8_UNORM \<equiv> 1"

definition VIRTQ_SIZE :: nat where
  "VIRTQ_SIZE = 256"

definition VIRTQ_DESC_F_NEXT :: u16 where
  "VIRTQ_DESC_F_NEXT = 1"

definition VIRTQ_DESC_F_WRITE :: u16 where
  "VIRTQ_DESC_F_WRITE = 2"

definition emit :: "hw_op \<Rightarrow> virtio \<Rightarrow> virtio" where
  "emit e s = s\<lparr>ops := ops s @ [e]\<rparr>"

definition cache_flush :: "u64 \<Rightarrow> u32 \<Rightarrow> virtio \<Rightarrow> virtio" where
  "cache_flush a n = emit (Clean a n)"

definition cache_invalidate :: "u64 \<Rightarrow> u32 \<Rightarrow> virtio \<Rightarrow> virtio" where
  "cache_invalidate a n = emit (Invalidate a n)"

definition reg_write :: "u64 \<Rightarrow> u32 \<Rightarrow> virtio \<Rightarrow> virtio" where
  "reg_write a v = emit (Reg_Write a v)"

text \<open>
  The lines a maintenance loop visits: \<^verbatim>\<open>for (p = start & ~63; p < stop; p += 64)\<close>, for an end
  that does not wrap.
\<close>

definition line_range :: "u64 \<Rightarrow> u64 \<Rightarrow> u64 list" where
  "line_range start stop = (let l = start AND NOT 63 in
     map (\<lambda>k. l + 64 * of_nat k) [0..<(if l < stop then (unat (stop - l) + 63) div 64 else 0)])"

definition cache_lines :: "u64 \<Rightarrow> u32 \<Rightarrow> u64 list" where
  "cache_lines a n = line_range a (a + ucast n)"

section \<open>The arena\<close>

definition align_up :: "u64 \<Rightarrow> u32 \<Rightarrow> u64" where
  "align_up a align = (if a mod ucast align \<noteq> 0 then (a + ucast align - 1) AND NOT (ucast (align - 1)) else a)"

definition bump_allocate :: "u32 \<Rightarrow> u32 \<Rightarrow> virtio \<Rightarrow> u64 \<times> virtio" where
  "bump_allocate size' align s =
     (let a = align_up (dma_heap_curr s) align
      in (a, s\<lparr>dma_heap_curr := a + ucast size', mem := zero_mem (mem s) a size'\<rparr>))"

text \<open>\<^verbatim>\<open>global_desc_idx++ % VIRTQ_SIZE\<close>\<close>

definition take_desc :: "virtio \<Rightarrow> u16 \<times> virtio" where
  "take_desc s = (global_desc_idx s mod 256, s\<lparr>global_desc_idx := global_desc_idx s + 1\<rparr>)"

definition desc_at :: "virtq \<Rightarrow> u16 \<Rightarrow> u64" where
  "desc_at q d = desc_addr q + 16 * ucast d"

definition avail_ring_at :: "virtq \<Rightarrow> u16 \<Rightarrow> u64" where
  "avail_ring_at q i = avail_addr q + 4 + 2 * (ucast i mod 256)"

definition avail_idx_at :: "virtq \<Rightarrow> u64" where
  "avail_idx_at q = avail_addr q + 2"

definition used_idx_at :: "virtq \<Rightarrow> u64" where
  "used_idx_at q = used_addr q + 2"

definition set_desc :: "u16 \<Rightarrow> virtq_desc \<Rightarrow> virtq \<Rightarrow> virtq" where
  "set_desc d x q = q\<lparr>desc := (desc q)(unat d := x)\<rparr>"

definition set_avail :: "u16 \<Rightarrow> u16 \<Rightarrow> virtq \<Rightarrow> virtq" where
  "set_avail i d q = q\<lparr>avail_ring := (avail_ring q)(unat i mod VIRTQ_SIZE := d)\<rparr>"

type_synonym 'v service = "u64 \<Rightarrow> virtq \<Rightarrow> memory \<Rightarrow> 'v \<Rightarrow> (nat \<times> virtq \<times> memory \<times> 'v) option"

text \<open>
  The wait loop \<^verbatim>\<open>while (used->idx == last_used)\<close>: the device answers after some polls, each of which
  invalidates the line of the index, or the loop spins. An answer that leaves the index where it was
  is no completion.
\<close>

definition await :: "'v service \<Rightarrow> u64 \<Rightarrow> u16 \<Rightarrow> virtq \<Rightarrow> virtio \<Rightarrow> 'v \<Rightarrow> (virtq \<times> virtio \<times> 'v) res" where
  "await service base last_used q s v =
     (case service base q (mem s) v of
        None \<Rightarrow> Inl Spin
      | Some (polls, q', m', v') \<Rightarrow>
          if used_idx q' = last_used then Inl Spin
          else Inr (q', s\<lparr>mem := m', ops := ops s @ replicate polls (Invalidate (used_idx_at q) 2)\<rparr>, v'))"

section \<open>Queue setup\<close>

definition virtq_desc_size :: u32 where "virtq_desc_size = 16 * 256"
definition virtq_avail_size :: u32 where "virtq_avail_size = 6 + 2 * 256"
definition virtq_used_size :: u32 where "virtq_used_size = 6 + 8 * 256"

definition virtq_pad :: u32 where
  "virtq_pad = 4096 - ((virtq_desc_size + virtq_avail_size) mod 4096)"

definition virtq_total :: u32 where
  "virtq_total = virtq_desc_size + virtq_avail_size + virtq_pad + virtq_used_size"

text \<open>A queue over freshly zeroed memory.\<close>

definition fresh_virtq :: "u64 \<Rightarrow> virtq" where
  "fresh_virtq base = \<lparr>desc_addr = base, avail_addr = base + ucast virtq_desc_size,
     used_addr = base + ucast (virtq_desc_size + virtq_avail_size + virtq_pad),
     desc = (\<lambda>_. \<lparr>addr = 0, len = 0, flags = 0, next_desc = 0\<rparr>), avail_idx = 0, avail_ring = (\<lambda>_. 0),
     used_idx = 0, used_id = (\<lambda>_. 0)\<rparr>"

definition reg_writes :: "(u64 \<times> u32) list \<Rightarrow> virtio \<Rightarrow> virtio" where
  "reg_writes = fold (\<lambda>(a, v). reg_write a v)"

definition queue_registers :: "u64 \<Rightarrow> u32 \<Rightarrow> virtq \<Rightarrow> (u64 \<times> u32) list" where
  "queue_registers base version q =
     [(base + VIRTIO_REG_QUEUE_SEL, 0), (base + VIRTIO_REG_QUEUE_NUM, 256)] @
     (if version = 1
      then [(base + 0x028, 4096), (base + 0x03C, 4096), (base + 0x040, ucast (desc_addr q div 4096))]
      else [(base + VIRTIO_REG_QUEUE_DESC_LOW, ucast (desc_addr q AND 0xFFFFFFFF)), (base + VIRTIO_REG_QUEUE_DESC_HIGH, ucast (drop_bit 32 (desc_addr q))),
            (base + VIRTIO_REG_QUEUE_AVAIL_LOW, ucast (avail_addr q AND 0xFFFFFFFF)), (base + VIRTIO_REG_QUEUE_AVAIL_HIGH, ucast (drop_bit 32 (avail_addr q))),
            (base + VIRTIO_REG_QUEUE_USED_LOW, ucast (used_addr q AND 0xFFFFFFFF)), (base + VIRTIO_REG_QUEUE_USED_HIGH, ucast (drop_bit 32 (used_addr q))),
            (base + VIRTIO_REG_QUEUE_READY, 1)])"

definition setup_virtqueue :: "u64 \<Rightarrow> u32 \<Rightarrow> virtio \<Rightarrow> virtq \<times> virtio" where
  "setup_virtqueue base version s =
     (let (queue_base, s) = bump_allocate virtq_total 4096 s;
          q = fresh_virtq queue_base
      in (q, reg_writes (queue_registers base version q) s))"

section \<open>Block device\<close>

text \<open>\<^verbatim>\<open>struct virtio_blk_req\<close> as the driver fills it in zeroed memory.\<close>

definition blk_header :: "u32 \<Rightarrow> u64 \<Rightarrow> u8 list" where
  "blk_header t sector = bytes32 t @ bytes32 0 @ bytes64 sector"

text \<open>
  \<open>write\<close> tells \<^verbatim>\<open>virtio_blk_write_sector\<close> from \<^verbatim>\<open>virtio_blk_read_sector\<close>: the two bodies differ in
  the request type, the flags of the data descriptor and the cache maintenance. First the request
  header and the status byte, in the arena.
\<close>

definition blk_alloc :: "bool \<Rightarrow> u64 \<Rightarrow> virtio \<Rightarrow> u64 \<times> u64 \<times> virtio" where
  "blk_alloc write sector s =
     (let (req, s) = bump_allocate 16 16 s;
          s = s\<lparr>mem := put_mem (mem s) req (blk_header (if write then VIRTIO_BLK_T_OUT else VIRTIO_BLK_T_IN) sector)\<rparr>;
          (status_ptr, s) = bump_allocate 1 1 s
      in (req, status_ptr, s\<lparr>mem := put_mem (mem s) status_ptr [0xFF]\<rparr>))"

text \<open>The three descriptors of the chain.\<close>

definition blk_descs :: "bool \<Rightarrow> u64 \<Rightarrow> u64 \<Rightarrow> u64 \<Rightarrow> u16 \<Rightarrow> u16 \<Rightarrow> u16 \<Rightarrow> virtq \<Rightarrow> virtq" where
  "blk_descs write req buffer status_ptr d0 d1 d2 q =
     set_desc d2 \<lparr>addr = status_ptr, len = 1, flags = VIRTQ_DESC_F_WRITE, next_desc = 0\<rparr>
       (set_desc d1 \<lparr>addr = buffer, len = 512,
          flags = (if write then VIRTQ_DESC_F_NEXT else VIRTQ_DESC_F_NEXT OR VIRTQ_DESC_F_WRITE), next_desc = d2\<rparr>
         (set_desc d0 \<lparr>addr = req, len = 16, flags = VIRTQ_DESC_F_NEXT, next_desc = d1\<rparr> q))"

text \<open>The cache maintenance and the notification, between which the available index moves on.\<close>

definition blk_announce :: "bool \<Rightarrow> u64 \<Rightarrow> u64 \<Rightarrow> u16 \<Rightarrow> virtq \<Rightarrow> virtio \<Rightarrow> virtio" where
  "blk_announce write req buffer d0 q s =
     (let s = cache_flush req 16 s;
          s = (if write then cache_flush buffer 512 s else s);
          s = cache_flush (desc_at q d0) 48 s;
          s = (if write then cache_flush (avail_ring_at q (avail_idx q)) 2 s else s);
          s = cache_flush (avail_idx_at q) 2 s
      in reg_write (blk_mmio_base s + VIRTIO_REG_QUEUE_NOTIFY) 0 s)"

definition blk_request :: "bool \<Rightarrow> u64 \<Rightarrow> u64 \<Rightarrow> virtio \<Rightarrow> u64 \<times> virtio" where
  "blk_request write sector buffer s =
     (let (req, status_ptr, s) = blk_alloc write sector s;
          (d0, s) = take_desc s;
          (d1, s) = take_desc s;
          (d2, s) = take_desc s;
          q = blk_descs write req buffer status_ptr d0 d1 d2 (blk_q s);
          q = set_avail (avail_idx q) d0 q;
          s = blk_announce write req buffer d0 q s
      in (status_ptr, s\<lparr>blk_q := q\<lparr>avail_idx := avail_idx q + 1\<rparr>\<rparr>))"

definition blk_transfer :: "'v service \<Rightarrow> bool \<Rightarrow> u64 \<Rightarrow> u64 \<Rightarrow> virtio \<times> 'v \<Rightarrow> (bool \<times> virtio \<times> 'v) res" where
  "blk_transfer service write sector buffer = (\<lambda>(s, v).
     if blk_mmio_base s = 0 then Inr (False, s, v)
     else let heap_save = dma_heap_curr s;
              (status_ptr, s) = blk_request write sector buffer s
          in res_bind (await service (blk_mmio_base s) (blk_last_used_idx s) (blk_q s) s v) (\<lambda>(q, s, v).
             let s = s\<lparr>blk_q := q, blk_last_used_idx := blk_last_used_idx s + 1\<rparr>;
                 s = (if write then s else cache_invalidate buffer 512 s);
                 s = cache_invalidate status_ptr 1 s;
                 result = (mem s status_ptr = VIRTIO_BLK_S_OK)
             in Inr (result, s\<lparr>dma_heap_curr := heap_save\<rparr>, v)))"

definition virtio_blk_read_sector :: "'v service \<Rightarrow> u64 \<Rightarrow> u64 \<Rightarrow> virtio \<times> 'v \<Rightarrow> (bool \<times> virtio \<times> 'v) res" where
  "virtio_blk_read_sector service = blk_transfer service False"

definition virtio_blk_write_sector :: "'v service \<Rightarrow> u64 \<Rightarrow> u64 \<Rightarrow> virtio \<times> 'v \<Rightarrow> (bool \<times> virtio \<times> 'v) res" where
  "virtio_blk_write_sector service = blk_transfer service True"

definition virtio_blk_init :: "(u64 \<Rightarrow> u32) \<Rightarrow> u64 \<Rightarrow> u32 \<Rightarrow> virtio \<Rightarrow> virtio" where
  "virtio_blk_init reg base version s =
     (let s = s\<lparr>blk_mmio_base := base\<rparr>;
          s = reg_writes [(base + VIRTIO_REG_STATUS, 0), (base + VIRTIO_REG_STATUS, VIRTIO_STATUS_ACKNOWLEDGE OR VIRTIO_STATUS_DRIVER)] s;
          (q, s) = setup_virtqueue base version s;
          s = s\<lparr>blk_q := q\<rparr>
      in reg_write (base + VIRTIO_REG_STATUS) (reg (base + VIRTIO_REG_STATUS) OR VIRTIO_STATUS_DRIVER_OK) s)"

section \<open>GPU\<close>

definition send_gpu_command :: "'v service \<Rightarrow> u64 \<Rightarrow> u32 \<Rightarrow> u64 \<Rightarrow> u32 \<Rightarrow> virtio \<times> 'v \<Rightarrow> (u32 \<times> virtio \<times> 'v) res" where
  "send_gpu_command service request request_size response response_size = (\<lambda>(s, v).
     let (d0, s) = take_desc s;
         (d1, s) = take_desc s;
         q = set_desc d0 \<lparr>addr = request, len = request_size, flags = VIRTQ_DESC_F_NEXT, next_desc = d1\<rparr> (gpu_q s);
         q = set_desc d1 \<lparr>addr = response, len = response_size, flags = VIRTQ_DESC_F_WRITE, next_desc = 0\<rparr> q;
         avail = avail_idx q;
         q = set_avail avail d0 q;
         s = cache_flush request request_size s;
         s = cache_flush (desc_at q d0) 32 s;
         s = cache_flush (avail_ring_at q avail) 2 s;
         q = q\<lparr>avail_idx := avail + 1\<rparr>;
         s = cache_flush (avail_idx_at q) 2 s;
         s = reg_write (gpu_mmio_base s + VIRTIO_REG_QUEUE_NOTIFY) 0 s;
         s = s\<lparr>gpu_q := q\<rparr>
     in res_bind (await service (gpu_mmio_base s) (gpu_last_used_idx s) q s v) (\<lambda>(q, s, v).
          let s = s\<lparr>gpu_q := q, gpu_last_used_idx := gpu_last_used_idx s + 1\<rparr>;
              s = cache_invalidate response response_size s
          in Inr (load32 (mem s) response, s, v)))"

text \<open>
  A request block of 32-bit words in zeroed arena memory and its 24-byte response block:
  \<^verbatim>\<open>req[i] = ...\<close> for each listed index, then the command is sent.
\<close>

definition put_words :: "u64 \<Rightarrow> (nat \<times> u32) list \<Rightarrow> memory \<Rightarrow> memory" where
  "put_words req = fold (\<lambda>(i, w) m. put_mem m (req + 4 * of_nat i) (bytes32 w))"

definition gpu_command :: "'v service \<Rightarrow> u32 \<Rightarrow> (nat \<times> u32) list \<Rightarrow> virtio \<times> 'v \<Rightarrow> (virtio \<times> 'v) res" where
  "gpu_command service size' words = (\<lambda>(s, v).
     let (req, s) = bump_allocate size' 8 s;
         (resp, s) = bump_allocate 24 8 s;
         s = s\<lparr>mem := put_words req words (mem s)\<rparr>
     in res_bind (send_gpu_command service req size' resp 24 (s, v)) (\<lambda>(_, s, v). Inr (s, v)))"

definition create_words :: "u32 \<Rightarrow> u32 \<Rightarrow> (nat \<times> u32) list" where
  "create_words w h = [(0, VIRTIO_GPU_CMD_RESOURCE_CREATE_2D), (6, 1), (7, VIRTIO_GPU_FORMAT_B8G8R8X8_UNORM), (8, w), (9, h)]"

definition attach_words :: "u64 \<Rightarrow> u32 \<Rightarrow> (nat \<times> u32) list" where
  "attach_words fb fb_size = [(0, VIRTIO_GPU_CMD_RESOURCE_ATTACH_BACKING), (6, 1), (7, 1), (8, ucast (fb AND 0xFFFFFFFF)),
     (9, ucast (drop_bit 32 fb)), (10, fb_size), (11, 0)]"

definition scanout_words :: "u32 \<Rightarrow> u32 \<Rightarrow> (nat \<times> u32) list" where
  "scanout_words w h = [(0, VIRTIO_GPU_CMD_SET_SCANOUT), (6, 0), (7, 0), (8, w), (9, h), (10, 0), (11, 1)]"

definition transfer_words :: "u32 \<Rightarrow> u32 \<Rightarrow> (nat \<times> u32) list" where
  "transfer_words w h = [(0, VIRTIO_GPU_CMD_TRANSFER_TO_HOST_2D), (6, 0), (7, 0), (8, w), (9, h), (10, 0), (11, 0), (12, 1), (13, 0)]"

definition flush_words :: "u32 \<Rightarrow> u32 \<Rightarrow> (nat \<times> u32) list" where
  "flush_words w h = [(0, VIRTIO_GPU_CMD_RESOURCE_FLUSH), (6, 0), (7, 0), (8, w), (9, h), (10, 1), (11, 0)]"

text \<open>\<^verbatim>\<open>for (i = 0; i < fb_size / 4; i++) fb_pixels[i] = 0xFF0000FF\<close>\<close>

definition fill_pixels :: "u64 \<Rightarrow> u32 \<Rightarrow> u32 \<Rightarrow> memory \<Rightarrow> memory" where
  "fill_pixels fb fb_size pixel m = (\<lambda>x.
     if unat (x - fb) < 4 * (unat fb_size div 4) then bytes32 pixel ! (unat (x - fb) mod 4) else m x)"

text \<open>\<^verbatim>\<open>gpu_init\<close> from the point where the size of the display is known.\<close>

definition gpu_show :: "'v service \<Rightarrow> u32 \<Rightarrow> u32 \<Rightarrow> virtio \<times> 'v \<Rightarrow> (virtio \<times> 'v) res" where
  "gpu_show service w h = (\<lambda>(s, v).
     let fb_size = w * h * 4;
         s = s\<lparr>active_fb_width := w, active_fb_height := h, active_fb_size := fb_size\<rparr>
     in res_bind (gpu_command service 40 (create_words w h) (s, v)) (\<lambda>(s, v).
        let (fb, s) = bump_allocate fb_size 4096 s;
            s = s\<lparr>active_fb_phys := fb\<rparr>
        in res_bind (gpu_command service 48 (attach_words fb fb_size) (s, v)) (\<lambda>(s, v).
           let s = emit (Map_Framebuffer fb (ucast fb_size)) s
           in res_bind (gpu_command service 48 (scanout_words w h) (s, v)) (\<lambda>(s, v).
              let s = s\<lparr>mem := fill_pixels fb fb_size 0xFF0000FF (mem s)\<rparr>;
                  s = cache_flush fb fb_size s
              in res_bind (gpu_command service 56 (transfer_words w h) (s, v)) (gpu_command service 48 (flush_words w h))))))"

definition gpu_init :: "'v service \<Rightarrow> virtio \<times> 'v \<Rightarrow> (virtio \<times> 'v) res" where
  "gpu_init service = (\<lambda>(s, v).
     let (req_info, s) = bump_allocate 24 8 s;
         (resp_info, s) = bump_allocate 408 8 s;
         s = s\<lparr>mem := put_mem (mem s) req_info (bytes32 VIRTIO_GPU_CMD_GET_DISPLAY_INFO)\<rparr>
     in res_bind (send_gpu_command service req_info 24 resp_info 408 (s, v)) (\<lambda>(_, s, v).
        let w = load32 (mem s) (resp_info + 32);
            h = load32 (mem s) (resp_info + 36);
            (w, h) = (if w = 0 \<or> h = 0 then (1280, 800) else (w, h))
        in gpu_show service w h (s, v)))"

definition virtio_gpu_flush :: "'v service \<Rightarrow> virtio \<times> 'v \<Rightarrow> (virtio \<times> 'v) res" where
  "virtio_gpu_flush service = (\<lambda>(s, v).
     if gpu_mmio_base s = 0 \<or> active_fb_phys s = 0 then Inr (s, v)
     else let heap_save = dma_heap_curr s;
              s = cache_flush (active_fb_phys s) (active_fb_size s) s
          in res_bind (gpu_command service 56 (transfer_words (active_fb_width s) (active_fb_height s)) (s, v)) (\<lambda>(s, v).
             res_bind (gpu_command service 48 (flush_words (active_fb_width s) (active_fb_height s)) (s, v)) (\<lambda>(s, v).
             Inr (s\<lparr>dma_heap_curr := heap_save\<rparr>, v))))"

section \<open>Keyboard\<close>

text \<open>The two key maps; the tables have 128 entries, zero past the listed ones.\<close>

definition keymap :: "nat list \<Rightarrow> u16 \<Rightarrow> u8" where
  "keymap t code = (if unat code < length t then of_nat (t ! unat code) else 0)"

definition key_row :: "string \<Rightarrow> nat list" where
  "key_row s = map of_char s"

definition keymap_us_lower :: "nat list" where
  "keymap_us_lower = [0, 27] @ key_row ''1234567890-='' @ [8, 9] @ key_row ''qwertyuiop[]'' @ [10, 0]
     @ key_row ''asdfghjkl;'' @ [39, 96, 0, 92] @ key_row ''zxcvbnm,./'' @ [0, 42, 0, 32, 0]"

definition keymap_us_upper :: "nat list" where
  "keymap_us_upper = [0, 27] @ key_row ''!@#$%^&*()_+'' @ [8, 9] @ key_row ''QWERTYUIOP{}'' @ [10, 0]
     @ key_row ''ASDFGHJKL:'' @ [34, 126, 0, 124] @ key_row ''ZXCVBNM<>?'' @ [0, 42, 0, 32, 0]"

text \<open>\<^verbatim>\<open>struct virtio_input_event\<close>: type, code, value.\<close>

definition key_event :: "u16 \<Rightarrow> u16 \<Rightarrow> u32 \<Rightarrow> u8 \<Rightarrow> u8 \<times> u8" where
  "key_event t code value shift =
     (if t = 1
      then if code = 42 \<or> code = 54 then (0, if value = 1 then 1 else 0)
           else if value = 1 \<or> value = 2
           then (if code < 128 then keymap (if shift \<noteq> 0 then keymap_us_upper else keymap_us_lower) code else 0, shift)
           else (0, shift)
      else (0, shift))"

text \<open>
  The second cache flush of the source is given the descriptor number stored in the ring slot in
  place of the slot's address.
\<close>

definition virtio_input_poll :: "virtio \<Rightarrow> u8 \<times> virtio" where
  "virtio_input_poll s =
     (if input_mmio_base s = 0 then (0, s)
      else let s = cache_invalidate (used_idx_at (in_q s)) 2 s
           in if used_idx (in_q s) = in_last_used_idx s then (0, s)
              else let desc_idx = used_id (in_q s) (unat (in_last_used_idx s) mod VIRTQ_SIZE);
                       evt = in_events s + 8 * ucast desc_idx;
                       s = cache_invalidate evt 8 s;
                       (ascii, shift) = key_event (load16 (mem s) evt) (load16 (mem s) (evt + 2)) (load32 (mem s) (evt + 4))
                                          (shift_active s);
                       s = s\<lparr>shift_active := shift\<rparr>;
                       avail = avail_idx (in_q s);
                       q = set_avail avail (ucast desc_idx) (in_q s);
                       s = cache_flush (ucast (avail_ring q (unat avail mod VIRTQ_SIZE))) 2 s;
                       q = q\<lparr>avail_idx := avail + 1\<rparr>;
                       s = cache_flush (avail_idx_at q) 2 (s\<lparr>in_q := q\<rparr>);
                       s = reg_write (input_mmio_base s + VIRTIO_REG_QUEUE_NOTIFY) 0 s
                   in (ascii, s\<lparr>in_last_used_idx := in_last_used_idx s + 1\<rparr>))"

section \<open>Probing\<close>

text \<open>The start of a device that needs feature negotiation.\<close>

definition begin_device :: "(u64 \<Rightarrow> u32) \<Rightarrow> u64 \<Rightarrow> virtio \<Rightarrow> virtio" where
  "begin_device reg base s =
     (let s = reg_writes [(base + VIRTIO_REG_STATUS, 0), (base + VIRTIO_REG_STATUS, VIRTIO_STATUS_ACKNOWLEDGE OR VIRTIO_STATUS_DRIVER)] s
      in if reg (base + 0x004) \<noteq> 1
         then reg_writes [(base + 0x024, 0), (base + 0x020, 0), (base + 0x024, 1), (base + 0x020, 1),
                (base + VIRTIO_REG_STATUS, reg (base + VIRTIO_REG_STATUS) OR VIRTIO_STATUS_FEATURES_OK)] s
         else s)"

definition input_device_init :: "(u64 \<Rightarrow> u32) \<Rightarrow> u64 \<Rightarrow> virtio \<Rightarrow> virtio" where
  "input_device_init reg base s =
     (let s = begin_device reg base (s\<lparr>input_mmio_base := base\<rparr>);
          (q, s) = setup_virtqueue base (reg (base + 0x004)) s;
          (events, s) = bump_allocate (8 * 256) 8 s;
          q = fold (\<lambda>j q. set_avail (of_nat j) (of_nat j)
                (set_desc (of_nat j) \<lparr>addr = events + 8 * of_nat j, len = 8, flags = VIRTQ_DESC_F_WRITE, next_desc = 0\<rparr> q))
                [0..<VIRTQ_SIZE] q;
          s = cache_flush (desc_addr q) (16 * 256) s;
          s = cache_flush (avail_addr q + 4) (2 * 256) s;
          q = q\<lparr>avail_idx := 256\<rparr>;
          s = cache_flush (avail_idx_at q) 2 (s\<lparr>in_q := q, in_events := events\<rparr>)
      in reg_writes [(base + VIRTIO_REG_STATUS, reg (base + VIRTIO_REG_STATUS) OR VIRTIO_STATUS_DRIVER_OK), (base + VIRTIO_REG_QUEUE_NOTIFY, 0)] s)"

definition gpu_device_init :: "'v service \<Rightarrow> (u64 \<Rightarrow> u32) \<Rightarrow> u64 \<Rightarrow> virtio \<times> 'v \<Rightarrow> (virtio \<times> 'v) res" where
  "gpu_device_init service reg base = (\<lambda>(s, v).
     let s = begin_device reg base (s\<lparr>gpu_mmio_base := base\<rparr>);
         (q, s) = setup_virtqueue base (reg (base + 0x004)) s;
         s = reg_write (base + VIRTIO_REG_STATUS) (reg (base + VIRTIO_REG_STATUS) OR VIRTIO_STATUS_DRIVER_OK) (s\<lparr>gpu_q := q\<rparr>)
     in gpu_init service (s, v))"

definition probe_slot :: "'v service \<Rightarrow> (u64 \<Rightarrow> u32) \<Rightarrow> nat \<Rightarrow> virtio \<times> 'v \<Rightarrow> (virtio \<times> 'v) res" where
  "probe_slot service reg i = (\<lambda>(s, v).
     let base = VIRTIO_MMIO_BASE + of_nat i * VIRTIO_MMIO_SLOT_SIZE; devid = reg (base + 0x008)
     in if reg base = VIRTIO_MAGIC \<and> devid \<noteq> 0
        then if devid = 1 then Inr (s, v)
             else if devid = VIRTIO_DEV_INPUT then Inr (input_device_init reg base s, v)
             else if devid = VIRTIO_DEV_GPU then gpu_device_init service reg base (s, v)
             else if devid = VIRTIO_DEV_BLK then Inr (virtio_blk_init reg base (reg (base + 0x004)) s, v)
             else Inr (s, v)
        else Inr (s, v))"

fun probe_slots :: "'v service \<Rightarrow> (u64 \<Rightarrow> u32) \<Rightarrow> nat list \<Rightarrow> virtio \<times> 'v \<Rightarrow> (virtio \<times> 'v) res" where
  "probe_slots service reg [] sv = Inr sv"
| "probe_slots service reg (i # is) sv = res_bind (probe_slot service reg i sv) (probe_slots service reg is)"

definition virtio_probe_and_init :: "'v service \<Rightarrow> (u64 \<Rightarrow> u32) \<Rightarrow> virtio \<times> 'v \<Rightarrow> (virtio \<times> 'v) res" where
  "virtio_probe_and_init service reg = probe_slots service reg [0..<VIRTIO_MMIO_SLOT_COUNT]"

end
