(* ===== verification/Virtio_Net.thy ===== *)
theory Virtio_Net
  imports Virtio Uart
begin

text \<open>
  \<^verbatim>\<open>kernel/virtio_net.c\<close>: the receive side of the network card, a queue of eight 256-byte buffers in
  static memory, and the reader of the volume field of a FIX message in a received packet.
  \<open>reg\<close> is what a device register answers after the operations so far; the used ring and the buffer
  contents are what the device has put there. Signed overflow of the volume wraps.
\<close>

section \<open>State\<close>

record net =
  net_base :: u32
  rx_desc :: "virtq_desc list"
  rx_avail_idx :: u16
  rx_avail_ring :: "u16 list"
  rx_used_idx :: u16
  rx_used_ring :: "(u32 \<times> u32) list"
  rx_buffers :: "u8 list"
  last_used_idx :: u16
  net_ops :: "hw_op list"

text \<open>Where the linker put \<^verbatim>\<open>vq_memory\<close> and \<^verbatim>\<open>rx_buffers\<close>.\<close>

record net_layout =
  vq_at :: u64
  buffers_at :: u64

definition net_emit :: "hw_op \<Rightarrow> net \<Rightarrow> net" where
  "net_emit e s = s\<lparr>net_ops := net_ops s @ [e]\<rparr>"

definition net_write :: "u32 \<Rightarrow> u32 \<Rightarrow> net \<Rightarrow> net" where
  "net_write off v s = net_emit (Reg_Write (ucast (net_base s + off)) v) s"

text \<open>\<^verbatim>\<open>*reg |= bits\<close>\<close>

definition net_or :: "(hw_op list \<Rightarrow> u64 \<Rightarrow> u32) \<Rightarrow> u32 \<Rightarrow> u32 \<Rightarrow> net \<Rightarrow> net" where
  "net_or reg off bits s = net_write off (reg (net_ops s) (ucast (net_base s + off)) OR bits) s"

section \<open>Bringing the card up\<close>

definition slot_base :: "nat \<Rightarrow> u32" where
  "slot_base i = 0x0a000000 + of_nat i * 0x200"

fun find_card :: "(hw_op list \<Rightarrow> u64 \<Rightarrow> u32) \<Rightarrow> nat list \<Rightarrow> net \<Rightarrow> u32 option" where
  "find_card reg [] s = None"
| "find_card reg (i # is) s =
     (if reg (net_ops s) (ucast (slot_base i)) = 0x74726976 \<and> reg (net_ops s) (ucast (slot_base i + 0x008)) = 1
      then Some (slot_base i) else find_card reg is s)"

definition net_negotiate :: "(hw_op list \<Rightarrow> u64 \<Rightarrow> u32) \<Rightarrow> u32 \<Rightarrow> net \<Rightarrow> net" where
  "net_negotiate reg version s =
     (let s = net_or reg 0x070 2 (net_or reg 0x070 1 (net_write 0x070 0 s))
      in if version \<noteq> 1
         then net_or reg 0x070 8 (net_write 0x020 1 (net_write 0x024 1 (net_write 0x020 0 (net_write 0x024 0 s))))
         else s)"

definition rx_desc_at :: "net_layout \<Rightarrow> u64" where "rx_desc_at L = vq_at L"
definition rx_avail_at :: "net_layout \<Rightarrow> u64" where "rx_avail_at L = vq_at L + 8 * 16"
definition rx_used_at :: "net_layout \<Rightarrow> u64" where "rx_used_at L = vq_at L + 4096"

definition net_queue_registers :: "net_layout \<Rightarrow> u32 \<Rightarrow> net \<Rightarrow> net" where
  "net_queue_registers L version s =
     fold (\<lambda>(off, v). net_write off v)
       ((0x030, 0) #
        (if version = 1
         then [(0x038, 8), (0x028, 4096), (0x03c, 4096), (0x040, ucast (vq_at L div 4096))]
         else [(0x038, 8),
           (0x080, ucast (rx_desc_at L AND 0xFFFFFFFF)), (0x084, ucast (drop_bit 32 (rx_desc_at L))),
           (0x090, ucast (rx_avail_at L AND 0xFFFFFFFF)), (0x094, ucast (drop_bit 32 (rx_avail_at L))),
           (0x0a0, ucast (rx_used_at L AND 0xFFFFFFFF)), (0x0a4, ucast (drop_bit 32 (rx_used_at L))),
           (0x044, 1)])) s"

definition net_fill_queue :: "net_layout \<Rightarrow> net \<Rightarrow> net" where
  "net_fill_queue L s =
     (let s = fold (\<lambda>i s. s\<lparr>rx_desc := (rx_desc s)[i := \<lparr>addr = buffers_at L + 256 * of_nat i, len = 256, flags = 2, next_desc = 0\<rparr>],
                rx_avail_ring := (rx_avail_ring s)[i := of_nat i]\<rparr>) [0..<8] s;
          s = s\<lparr>rx_avail_idx := 8\<rparr>;
          s = net_emit (Clean (rx_desc_at L) (16 * 8)) s
      in net_emit (Clean (rx_avail_at L) (4 + 2 * 8)) s)"

definition virtio_net_init :: "'d io \<Rightarrow> (hw_op list \<Rightarrow> u64 \<Rightarrow> u32) \<Rightarrow> net_layout \<Rightarrow> net \<Rightarrow> 'd \<Rightarrow> net \<times> 'd" where
  "virtio_net_init io reg L s d =
     (let d = io_print io (lit ''[NET] Scanning MMIO bus for Network Card...\<newline>'') d;
          (s, version, d) = (case find_card reg [0..<32] s of
             None \<Rightarrow> (s, 0, d)
           | Some base \<Rightarrow>
               (let version = reg (net_ops s) (ucast (base + 0x004));
                    d = io_print io (lit ''[NET] Network Card found at slot: '') d;
                    d = uart_print_hex io (ucast base) d;
                    d = io_print io (lit ''\<newline>'') d
                in (s\<lparr>net_base := base\<rparr>, version, d)))
      in if net_base s = 0 then (s, d)
         else let s = net_negotiate reg version s;
                  s = net_queue_registers L version s;
                  s = net_fill_queue L s;
                  s = net_write 0x050 0 s;
                  s = net_or reg 0x070 4 s
              in (s, io_print io (lit ''[NET] RX VirtQueue established. Listening for FIX packets...\<newline>'') d))"

section \<open>Reading the volume\<close>

text \<open>
  The search for \<^verbatim>\<open>38=\<close> at the next \<open>n\<close> positions; the result is what follows it. The comparisons
  stop at the first that fails. The bytes are those of the buffer array from there on.
\<close>

fun scan_tag :: "u8 list \<Rightarrow> nat \<Rightarrow> u8 list option res" where
  "scan_tag s 0 = Inr None"
| "scan_tag [] (Suc n) = Inl OutOfBounds"
| "scan_tag (a # s) (Suc n) =
     (if a \<noteq> of_char (CHR ''3'') then scan_tag s n
      else case s of [] \<Rightarrow> Inl OutOfBounds
        | b # s' \<Rightarrow> if b \<noteq> of_char (CHR ''8'') then scan_tag s n
           else case s' of [] \<Rightarrow> Inl OutOfBounds
             | c # s'' \<Rightarrow> if c \<noteq> of_char (CHR ''='') then scan_tag s n else Inr (Some s''))"

definition is_digit :: "u8 \<Rightarrow> bool" where
  "is_digit c \<longleftrightarrow> of_char (CHR ''0'') \<le> c \<and> c \<le> of_char (CHR ''9'')"

fun read_digits :: "u8 list \<Rightarrow> i32 \<Rightarrow> i32 res" where
  "read_digits [] volume = Inl OutOfBounds"
| "read_digits (c # s) volume =
     (if is_digit c then read_digits s (volume * 10 + (ucast c - 48)) else Inr volume)"

definition packet_volume :: "u8 list \<Rightarrow> u32 \<Rightarrow> i32 res" where
  "packet_volume fix_data pkt_len =
     (if pkt_len > 28
      then res_bind (scan_tag fix_data (nat (sint pkt_len - 28))) (\<lambda>r. case r of
        None \<Rightarrow> Inr 0 | Some s \<Rightarrow> read_digits s 0)
      else Inr 0)"

section \<open>Polling\<close>

definition net_recycle :: "net_layout \<Rightarrow> u16 \<Rightarrow> net \<Rightarrow> net" where
  "net_recycle L desc_id s =
     (let s = s\<lparr>last_used_idx := last_used_idx s + 1\<rparr>;
          slot = unat (rx_avail_idx s) mod 8;
          s = s\<lparr>rx_avail_ring := (rx_avail_ring s)[slot := desc_id]\<rparr>;
          s = net_emit (Clean (rx_avail_at L + 4 + 2 * of_nat slot) 2) s;
          s = s\<lparr>rx_avail_idx := rx_avail_idx s + 1\<rparr>;
          s = net_emit (Clean (rx_avail_at L + 2) 2) s
      in net_write 0x050 0 s)"

definition virtio_net_poll_rx :: "'d io \<Rightarrow> net_layout \<Rightarrow> net \<Rightarrow> 'd \<Rightarrow> (i32 \<times> net \<times> 'd) res" where
  "virtio_net_poll_rx io L s d =
     (if net_base s = 0 then Inr (0, s, d)
      else let s = net_emit (Invalidate (rx_used_at L + 2) 2) s
           in if last_used_idx s = rx_used_idx s then Inr (0, s, d)
              else let slot = unat (last_used_idx s) mod 8;
                       s = net_emit (Invalidate (rx_used_at L + 4 + 8 * of_nat slot) 8) s;
                       (id, pkt_len) = rx_used_ring s ! slot;
                       desc_id = ucast id :: u16;
                       s = net_emit (Invalidate (buffers_at L + 256 * ucast desc_id) 256) s;
                       fix_data = drop (256 * unat desc_id + 26) (rx_buffers s)
                   in if \<not> terminated fix_data then Inl OutOfBounds
                      else let d = io_print io (lit ''[NET] Packet received! Payload: '') d;
                               d = io_print io (cstr fix_data) d;
                               d = io_print io (lit ''\<newline>'') d
                           in res_bind (packet_volume fix_data pkt_len) (\<lambda>volume.
                              Inr (volume, net_recycle L desc_id s, d)))"

end
