(* ===== verification/Boot.thy ===== *)
theory Boot
  imports Syscall Mmu Virtio_Net
begin

text \<open>
  \<^verbatim>\<open>kernel/main.c\<close> and the register level of \<^verbatim>\<open>kernel/uart.c\<close>: printing and polling the serial line,
  the report of a fatal exception, the memory copy, and the order in which the kernel brings its
  components up before it drops to the user program.
\<close>

section \<open>The serial line\<close>

text \<open>The two registers the driver uses, over a device state \<open>'u\<close>.\<close>

record 'u uart =
  UART0_FR :: "'u \<Rightarrow> u32 \<times> 'u"
  UART0_DR_read :: "'u \<Rightarrow> u32 \<times> 'u"
  UART0_DR_write :: "u32 \<Rightarrow> 'u \<Rightarrow> 'u"

definition UART_FR_TXFF :: u32 where "UART_FR_TXFF = push_bit 5 1"
definition UART_FR_RXFE :: u32 where "UART_FR_RXFE = push_bit 4 1"

text \<open>\<^verbatim>\<open>while (*UART0_FR & UART_FR_TXFF);\<close>\<close>

fun uart_wait :: "'u uart \<Rightarrow> nat \<Rightarrow> 'u \<Rightarrow> 'u res" where
  "uart_wait u 0 d = Inl Spin"
| "uart_wait u (Suc fuel) d = (let (fr, d) = UART0_FR u d in if fr AND UART_FR_TXFF \<noteq> 0 then uart_wait u fuel d else Inr d)"

definition uart_put :: "'u uart \<Rightarrow> nat \<Rightarrow> u8 \<Rightarrow> 'u \<Rightarrow> 'u res" where
  "uart_put u fuel c d = res_bind (uart_wait u fuel d) (\<lambda>d. Inr (UART0_DR_write u (ucast c) d))"

definition uart_print :: "'u uart \<Rightarrow> nat \<Rightarrow> u8 list \<Rightarrow> 'u \<Rightarrow> 'u res" where
  "uart_print u fuel str d = (if terminated str then res_fold (uart_put u fuel) (cstr str) d else Inl OutOfBounds)"

definition uart_poll_rx :: "'u uart \<Rightarrow> 'u \<Rightarrow> u8 \<times> 'u" where
  "uart_poll_rx u d =
     (let (fr, d) = UART0_FR u d
      in if fr AND UART_FR_RXFE = 0 then let (dr, d) = UART0_DR_read u d in (ucast (dr AND 0xFF), d) else (0, d))"

section \<open>Memory copy\<close>

definition memcpy :: "u8 list \<Rightarrow> u8 list \<Rightarrow> u32 \<Rightarrow> u8 list res" where
  "memcpy dest src n =
     (if length dest < unat n \<or> length src < unat n then Inl OutOfBounds
      else Inr (fold (\<lambda>i d. d[i := src ! i]) [0..<unat n] dest))"

section \<open>Fatal exceptions\<close>

text \<open>What is printed before the machine halts for good; the result is the state it halts in.\<close>

definition fatal_exception_handler :: "'d io \<Rightarrow> u64 \<Rightarrow> u64 \<Rightarrow> u64 \<Rightarrow> u64 \<Rightarrow> 'd \<Rightarrow> 'd" where
  "fatal_exception_handler io ident esr elr far d = print_all io
     [lit ''\<newline>========================================\<newline>'',
      lit ''[ KERNEL PANIC ] HARDWARE EXCEPTION\<newline>'',
      lit ''========================================\<newline>'',
      lit ''Vector ID : '', uart_hex_string ident, lit ''\<newline>'',
      lit ''ESR_EL1   : '', uart_hex_string esr, lit '' (Syndrome / Cause)\<newline>'',
      lit ''FAR_EL1   : '', uart_hex_string far, lit '' (Fault Address)\<newline>'',
      lit ''ELR_EL1   : '', uart_hex_string elr, lit '' (Instruction PC)\<newline>'',
      lit ''========================================\<newline>'',
      lit ''System Halted.\<newline>''] d"

section \<open>Boot\<close>

record machine =
  tables :: mmu
  network :: net
  kern :: kernel

text \<open>
  Probing maps the framebuffers it sets up; the driver's state records the calls, and they take
  effect on the tables here. Nothing reads the tables in between.
\<close>

definition map_framebuffers :: "layout \<Rightarrow> hw_op list \<Rightarrow> mmu \<Rightarrow> mmu" where
  "map_framebuffers L = fold (\<lambda>e m. case e of Map_Framebuffer a n \<Rightarrow> mmu_map_framebuffer L a n m | _ \<Rightarrow> m)"

text \<open>
  \<open>vm_init\<close> stands for \<^verbatim>\<open>autarky_init\<close>. The result is the machine at the \<^verbatim>\<open>eret\<close> to the user program,
  whose entry and stack go to the registers as the linker placed them.
\<close>

definition kernel_main ::
  "(virtio \<times> 'v) io \<Rightarrow> 'v service \<Rightarrow> (u64 \<Rightarrow> u32) \<Rightarrow> (hw_op list \<Rightarrow> u64 \<Rightarrow> u32) \<Rightarrow> (virtio \<times> 'v \<Rightarrow> virtio \<times> 'v)
    \<Rightarrow> layout \<Rightarrow> net_layout \<Rightarrow> u64 \<Rightarrow> u64 \<Rightarrow> machine \<Rightarrow> virtio \<times> 'v \<Rightarrow> (machine \<times> virtio \<times> 'v) res" where
  "kernel_main io service reg net_reg vm_init L NL el0_text_start el0_stack_top m sv =
     (let sv = print_all io
            [lit ''\<newline>[BOOT] C Kernel Entry Point Reached.\<newline>'',
             lit ''[BOOT] Initializing MMU Tables...\<newline>''] sv;
          m = m\<lparr>tables := mmu_init_tables L (tables m)\<rparr>;
          sv = print_all io
            [lit ''[BOOT] MMU Online. Virtual Memory Active.\<newline>'',
             lit ''[BOOT] Probing VirtIO Devices...\<newline>''] sv
      in res_bind (virtio_probe_and_init service reg sv) (\<lambda>sv'.
         let m = m\<lparr>tables := map_framebuffers L (drop (length (ops (fst sv))) (ops (fst sv'))) (tables m)\<rparr>;
             (c, sv') = virtio_net_init io net_reg NL (network m) sv';
             sv' = io_print io (lit ''[BOOT] VirtIO Initialization Complete.\<newline>'') sv'
         in res_bind (fs_fat32_init io (vol (kern m)) sv') (\<lambda>(fs, sv').
            let (w, sv') = watcher_init io (watch (kern m)) (vm_init sv');
                sv' = print_all io
                  [lit ''[BOOT] Configuring EL0 User Space Drop...\<newline>'',
                   lit ''       -> EL0 Entry : '', uart_hex_string el0_text_start, lit ''\<newline>'',
                   lit ''       -> EL0 Stack : '', uart_hex_string el0_stack_top, lit ''\<newline>'',
                   lit ''[BOOT] Executing ERET to user space...\<newline>''] sv'
            in Inr (m\<lparr>network := c, kern := (kern m)\<lparr>vol := fs, watch := w\<rparr>\<rparr>, sv'))))"

end
