(* ===== verification/Mmu_Properties.thy ===== *)
theory Mmu_Properties
  imports Mmu
begin

text \<open>
  What the translation tables of \<^verbatim>\<open>kernel/mmu.c\<close> grant: after \<^verbatim>\<open>mmu_init_tables\<close> exactly the memory
  map, of which the user program may use the blocks of its own region; after
  \<^verbatim>\<open>mmu_map_framebuffer\<close> also the framebuffer pages in the 4 MB window at \<^verbatim>\<open>0x20000000\<close>.
\<close>

section \<open>The framebuffer window\<close>

lemma map_fb_page_other [simp]:
  "l1_table (map_fb_page phys p m) = l1_table m" "l2_table_kernel (map_fb_page phys p m) = l2_table_kernel m"
  "l2_table_user (map_fb_page phys p m) = l2_table_user m" "l3_table_mmio (map_fb_page phys p m) = l3_table_mmio m"
  "ttbr0_el1 (map_fb_page phys p m) = ttbr0_el1 m"
  "length (l3_table_fb_0 (map_fb_page phys p m)) = length (l3_table_fb_0 m)"
  "length (l3_table_fb_1 (map_fb_page phys p m)) = length (l3_table_fb_1 m)"
  by (simp_all add: map_fb_page_def Let_def)

lemma fold_fb_other [simp]:
  "l1_table (fold (map_fb_page phys) ps m) = l1_table m"
  "l2_table_kernel (fold (map_fb_page phys) ps m) = l2_table_kernel m"
  "l2_table_user (fold (map_fb_page phys) ps m) = l2_table_user m"
  "l3_table_mmio (fold (map_fb_page phys) ps m) = l3_table_mmio m"
  "ttbr0_el1 (fold (map_fb_page phys) ps m) = ttbr0_el1 m"
  "length (l3_table_fb_0 (fold (map_fb_page phys) ps m)) = length (l3_table_fb_0 m)"
  "length (l3_table_fb_1 (fold (map_fb_page phys) ps m)) = length (l3_table_fb_1 m)"
  by (induction ps arbitrary: m) auto

text \<open>One table for the two of the window.\<close>

definition window_tables :: "mmu \<Rightarrow> u64 list" where
  "window_tables m = l3_table_fb_0 m @ l3_table_fb_1 m"

lemma window_map_fb_page:
  assumes "p < 2 ^ 32" "length (l3_table_fb_0 m) = 512" "length (l3_table_fb_1 m) = 512" "j < 1024"
  shows "window_tables (map_fb_page phys p m) ! j = (if j = p then fb_page phys p else window_tables m ! j)"
proof -
  have "unat (of_nat p :: u32) = p" using assms(1) by (simp add: unat_of_nat take_bit_nat_eq_self)
  with assms(2-4) show ?thesis
    by (auto simp: window_tables_def map_fb_page_def Let_def nth_append nth_list_update)
qed

lemma window_fold:
  assumes "length (l3_table_fb_0 m) = 512" "length (l3_table_fb_1 m) = 512" "j < 1024" "n \<le> 2 ^ 32"
  shows "window_tables (fold (map_fb_page phys) [0..<n] m) ! j = (if j < n then fb_page phys j else window_tables m ! j)"
  using assms(4)
proof (induction n)
  case (Suc n)
  then show ?case using assms(1-3) by (simp add: window_map_fb_page)
qed simp

lemma aligned_low:
  assumes "table_aligned phys"
  shows "take_bit 12 phys = 0"
proof (rule bit_word_eqI)
  fix i
  have "\<not> bit (phys AND push_bit 12 (mask 36)) i" if "i < 12" using that by (simp add: bit_simps)
  then show "bit (take_bit 12 phys) i \<longleftrightarrow> bit (0 :: u64) i"
    using assms by (auto simp: table_aligned_def bit_take_bit_iff)
qed

lemma take_bit_12_mod: "take_bit 12 (x :: u64) = of_nat (unat x mod 4096)"
proof -
  have "unat (take_bit 12 x) = unat x mod 4096"
    by (simp only: unsigned_take_bit_eq) (simp add: take_bit_eq_mod)
  then show ?thesis by (metis of_nat_unat ucast_id)
qed

lemma aligned_mod:
  assumes "table_aligned phys"
  shows "unat phys mod 4096 = 0"
proof -
  have "unat (take_bit 12 phys) = unat phys mod 4096"
    by (simp only: unsigned_take_bit_eq) (simp add: take_bit_eq_mod)
  with aligned_low [OF assms] show ?thesis by simp
qed

lemma fb_page_desc:
  assumes "table_aligned phys"
  shows "fb_page phys p = push_bit 12 (of_nat (unat phys div 4096 + p)) OR normal_flags AP_RW_ANY DESC_PAGE"
proof -
  have "phys = push_bit 12 (of_nat (unat phys div 2 ^ 12)) OR take_bit 12 phys"
    using identity_or [OF refl] by metis
  moreover have "take_bit 12 phys = 0" by (rule aligned_low [OF assms])
  ultimately have "phys = push_bit 12 (of_nat (unat phys div 4096))" by simp
  then have "phys + of_nat p * 4096 = push_bit 12 (of_nat (unat phys div 4096 + p))"
    by (simp add: push_bit_eq_mult algebra_simps)
  then show ?thesis by (simp add: fb_page_def normal_flags_def)
qed

lemma window_offset:
  assumes "0x20000000 \<le> (V :: nat)"
  shows "(V - 0x20000000) mod 4096 = V mod 4096" "V div 4096 = 131072 + (V - 0x20000000) div 4096"
proof -
  obtain w where w: "V = 4096 * k + w" if "k = 131072" for k using assms le_Suc_ex by fastforce
  have off: "(4096 * k + w) mod 4096 = w mod 4096" "(4096 * k + w) div 4096 = k + w div 4096" for k :: nat by simp_all
  show "(V - 0x20000000) mod 4096 = V mod 4096" "V div 4096 = 131072 + (V - 0x20000000) div 4096"
    using off [of 131072] w [OF refl] by simp_all
qed

lemma fb_address:
  assumes "table_aligned phys" "0x20000000 \<le> unat va" "unat va < 0x20400000" "unat phys < 2 ^ 48"
  shows "push_bit 12 (of_nat (unat phys div 4096 + (unat va - 0x20000000) div 4096)) OR take_bit 12 va
    = phys + (va - 0x20000000)"
proof -
  let ?x = "phys + (va - 0x20000000)"
  have o: "unat (va - 0x20000000) = unat va - 0x20000000"
    using assms(2) by (simp add: unat_sub word_le_nat_alt)
  have x: "unat ?x = unat phys + (unat va - 0x20000000)"
    using assms(2-4) o by (subst unat_add_lem [THEN iffD1]) simp_all
  obtain a where a: "unat phys = 4096 * a" using aligned_mod [OF assms(1)] by auto
  have d: "unat ?x div 2 ^ 12 = unat phys div 4096 + (unat va - 0x20000000) div 4096"
    by (simp add: x a)
  note window_offset(1) [OF assms(2)]
  then have "unat ?x mod 4096 = unat va mod 4096" unfolding x a by simp
  then have "take_bit 12 ?x = take_bit 12 va" by (simp only: take_bit_12_mod)
  with identity_or [OF d] show ?thesis by simp
qed

lemma init_window: "j < 1024 \<Longrightarrow> window_tables (mmu_init_tables L m) ! j = 0"
  by (simp add: window_tables_def init_tables nth_append)

lemma window_walk:
  assumes L: "layout_ok L" and rng: "0x20000000 \<le> unat va" "unat va < 0x20400000"
    and M: "l1_table M = l1_table (mmu_init_tables L m)" "ttbr0_el1 M = at_l1 L"
    and fb: "l2_table_user M ! 256 = at_l3_fb_0 L OR DESC_TABLE OR DESC_VALID"
      "l2_table_user M ! 257 = at_l3_fb_1 L OR DESC_TABLE OR DESC_VALID"
    and len: "length (l3_table_fb_0 M) = 512"
  shows "table_walk L M va = (let d = window_tables M ! ((unat va - 0x20000000) div 4096)
    in if bit d 0 \<and> bit d 1 then leaf 12 va d else None)"
proof -
  let ?p = "(unat va - 0x20000000) div 4096" and ?j = "table_index 12 va"
  note tab = layout_tables [OF L]
  have "table_index 30 va = 0" using rng by (simp add: table_index_def)
  moreover have "l1_table M ! 0 = at_l2_user L OR DESC_TABLE OR DESC_VALID" by (simp add: M l1_entry)
  ultimately have 1: "walk L M va 2 (at_l1 L) = walk L M va (Suc 0) (at_l2_user L)"
    using walk_table [OF tab(1), of M 1 va "at_l2_user L"] tab(7) by (simp add: numeral_2_eq_2)
  have last: "(case table_at L M b of None \<Rightarrow> None | Some t \<Rightarrow>
       let d = t ! ?j in if bit d 0 \<and> bit d 1 then leaf 12 va d else None) = walk L M va 0 b" for b
    by (simp add: walk.simps)
  have "?j = (512 * 256 + ?p) mod 512" using window_offset(2) [OF rng(1)] by (simp add: table_index_def)
  then have q: "?j = ?p mod 512" by (simp only: mod_mult_self4)
  have "walk L M va (Suc 0) (at_l2_user L) = (let d = window_tables M ! ?p
      in if bit d 0 \<and> bit d 1 then leaf 12 va d else None)"
  proof (cases "unat va < 0x20200000")
    case True
    then have "table_index 21 va = 256" using rng by (simp add: table_index_def)
    moreover have "?p < 512" using True by (simp add: less_mult_imp_div_less)
    moreover have "?j = ?p" using q calculation(2) by simp
    ultimately show ?thesis
      using walk_table [OF tab(2), of M 0 va "at_l3_fb_0 L"] fb(1) tab(5,10) len
      by (simp add: window_tables_def nth_append flip: last)
  next
    case False
    then have "table_index 21 va = 257" using rng by (simp add: table_index_def)
    moreover have "512 \<le> ?p" "?p < 1024" using False rng by (simp_all add: less_mult_imp_div_less)
    moreover have "?j = ?p - 512" using q calculation(2,3) by (simp add: le_mod_geq)
    ultimately show ?thesis
      using walk_table [OF tab(2), of M 0 va "at_l3_fb_1 L"] fb(2) tab(6,11) len
      by (simp add: window_tables_def nth_append flip: last)
  qed
  moreover have "unat va < 2 ^ 39" using rng by simp
  ultimately show ?thesis using 1 by (simp add: table_walk_def M)
qed

lemma length_window_init:
  "length (l3_table_fb_0 (mmu_init_tables L m)) = 512" "length (l3_table_fb_1 (mmu_init_tables L m)) = 512"
  by (simp_all add: init_tables)

lemma map_framebuffer_window:
  assumes "layout_ok L" "table_aligned phys" "phys \<noteq> 0" "unat phys < 2 ^ 48 - 2 ^ 22" "unat size' < 2 ^ 44"
    and rng: "0x20000000 \<le> unat va" "unat va < 0x20400000"
  shows "table_walk L (mmu_map_framebuffer L phys size' (mmu_init_tables L m)) va =
    (if (unat va - 0x20000000) div 4096 < (unat size' + 4095) div 4096 then Some (phys + (va - 0x20000000), True, 1) else None)"
proof -
  let ?n = "(unat size' + 4095) div 4096" and ?p = "(unat va - 0x20000000) div 4096"
  define m1 where "m1 = (mmu_init_tables L m)\<lparr>l2_table_user := (l2_table_user (mmu_init_tables L m))
     [256 := at_l3_fb_0 L OR DESC_TABLE OR DESC_VALID, 257 := at_l3_fb_1 L OR DESC_TABLE OR DESC_VALID]\<rparr>"
  define M where "M = fold (map_fb_page phys) [0..<?n] m1"
  have M: "mmu_map_framebuffer L phys size' (mmu_init_tables L m) = M"
    using assms(3) by (simp add: mmu_map_framebuffer_def M_def m1_def Let_def)
  have len: "length (l3_table_fb_0 m1) = 512" "length (l3_table_fb_1 m1) = 512"
    by (simp_all add: m1_def length_window_init)
  have p: "?p < 1024" using rng by (simp add: less_mult_imp_div_less)
  have n: "?n \<le> 2 ^ 32" using assms(5) by simp
  have walk: "table_walk L M va = (let d = window_tables M ! ?p in if bit d 0 \<and> bit d 1 then leaf 12 va d else None)"
    using assms(1) rng by (intro window_walk) (simp_all add: M_def m1_def init_tables)
  have d: "window_tables M ! ?p = (if ?p < ?n then fb_page phys ?p else 0)"
    using window_fold [OF len p n, of phys] init_window [OF p, of L m] by (simp add: M_def m1_def window_tables_def)
  have "unat phys div 4096 + ?p < 2 ^ (48 - 12)" using assms(4) p by simp
  from address_bits [OF this]
  have "push_bit 12 (of_nat (unat phys div 4096 + ?p)) AND push_bit 12 (mask (48 - 12))
      = (push_bit 12 (of_nat (unat phys div 4096 + ?p)) :: u64)" by simp
  note e = leaf_desc [OF this flags_facts(3), folded fb_page_desc [OF assms(2)]]
  have small: "unat phys < 2 ^ 48" using assms(4) by simp
  from e(2) [of va] have "leaf 12 va (fb_page phys ?p) = Some (phys + (va - 0x20000000), True, 1)"
    using fb_address [OF assms(2) rng small] by (simp add: leaf_flags_simps)
  moreover have "bit (fb_page phys ?p) 0" "bit (fb_page phys ?p) 1"
    using e(1) [of 0] e(1) [of 1] by (simp_all add: leaf_flags_simps)
  ultimately show ?thesis unfolding M walk d by (simp add: Let_def)
qed

lemma map_framebuffer_outside:
  assumes "layout_ok L" "region_in_ram L" "\<not> (0x20000000 \<le> unat va \<and> unat va < 0x20400000)"
  shows "table_walk L (mmu_map_framebuffer L phys size' (mmu_init_tables L m)) va = memory_map L va"
proof -
  have "table_index 21 va \<noteq> 256 \<and> table_index 21 va \<noteq> 257" if "unat va < 2 ^ 30"
    using that assms(3) by (auto simp: table_index_def)
  then have "agrees L m (mmu_map_framebuffer L phys size' (mmu_init_tables L m)) va"
    by (simp add: agrees_def mmu_map_framebuffer_def Let_def init_tables)
  from table_walk_agrees [OF assms(1,2) this] show ?thesis .
qed

lemma user_walk_target:
  assumes "layout_ok L" "region_in_ram L" "table_aligned phys" "phys \<noteq> 0" "unat phys < 2 ^ 48 - 2 ^ 22"
    "unat size' < 2 ^ 44"
    and "table_walk L (mmu_map_framebuffer L phys size' (mmu_init_tables L m)) va = Some (pa, True, attr)"
  shows "0x40000000 \<le> unat pa \<and> unat pa < 0x48000000 \<and> el0_block L (unat pa)
    \<or> unat phys \<le> unat pa \<and> unat pa < unat phys + (unat size' + 4095) div 4096 * 4096"
proof (cases "0x20000000 \<le> unat va \<and> unat va < 0x20400000")
  case True
  let ?w = "unat va - 0x20000000"
  have w: "?w div 4096 < (unat size' + 4095) div 4096" and pa: "pa = phys + (va - 0x20000000)"
    using assms(7) True map_framebuffer_window [OF assms(1,3-6), of va m] by (auto split: if_splits)
  have "unat (va - 0x20000000) = ?w" using True by (simp add: unat_sub word_le_nat_alt)
  moreover have "unat phys < 281474972516352" using assms(5) by simp
  then have "unat phys + ?w < 18446744073709551616" using True by linarith
  ultimately have "unat pa = unat phys + ?w" unfolding pa by (subst unat_add_lem [THEN iffD1]) simp_all
  moreover have "?w < (unat size' + 4095) div 4096 * 4096"
    using w by (simp add: div_less_iff_less_mult)
  ultimately show ?thesis by linarith
next
  case False
  then show ?thesis
    using assms(7) map_framebuffer_outside [OF assms(1,2), of va phys size' m]
    by (auto simp: memory_map_def Let_def split: if_splits)
qed

lemma user_walk_no_framebuffer:
  assumes "layout_ok L" "region_in_ram L" "table_walk L (mmu_init_tables L m) va = Some (pa, True, attr)"
  shows "0x40000000 \<le> unat pa \<and> unat pa < 0x48000000 \<and> el0_block L (unat pa)"
proof -
  have "agrees L m (mmu_init_tables L m) va" by (simp add: agrees_def init_tables)
  from table_walk_agrees [OF assms(1,2) this] assms(3) show ?thesis
    by (auto simp: memory_map_def Let_def split: if_splits)
qed

section \<open>Properties\<close>


text \<open>
  C25: mapping a framebuffer of \<open>size\<close> bytes makes the pages from \<^verbatim>\<open>0x20000000\<close> on stand for the
  framebuffer's pages, readable and writable by the user program, up to the 4 MB of the window; the
  rest of the window faults and no other address changes.
\<close>

theorem mmu_map_framebuffer_window:
  assumes "layout_ok L" "region_in_ram L" "table_aligned phys" "phys \<noteq> 0" "unat phys < 2 ^ 48 - 2 ^ 22"
    "unat size' < 2 ^ 44"
  shows "table_walk L (mmu_map_framebuffer L phys size' (mmu_init_tables L m)) va =
    (if 0x20000000 \<le> unat va \<and> unat va < 0x20400000
     then if (unat va - 0x20000000) div 4096 < (unat size' + 4095) div 4096
       then Some (phys + (va - 0x20000000), True, 1) else None
     else memory_map L va)"
  using map_framebuffer_window [OF assms(1,3-6)] map_framebuffer_outside [OF assms(1,2)] by simp

text \<open>
  C14: the user program reaches, through any virtual address, only the 2 MB blocks its region
  touches and the pages of the framebuffer: no kernel code, page table, device register or DMA
  queue outside them.
\<close>

theorem el0_reaches_only_its_memory:
  assumes "layout_ok L" "region_in_ram L" "table_aligned phys" "phys \<noteq> 0" "unat phys < 2 ^ 48 - 2 ^ 22"
    "unat size' < 2 ^ 44"
    and "table_walk L (mmu_map_framebuffer L phys size' (mmu_init_tables L m)) va = Some (pa, True, attr)"
  shows "0x40000000 \<le> unat pa \<and> unat pa < 0x48000000 \<and> el0_block L (unat pa)
    \<or> unat phys \<le> unat pa \<and> unat pa < unat phys + (unat size' + 4095) div 4096 * 4096"
  using user_walk_target [OF assms] .

definition sample_layout :: layout where
  "sample_layout = \<lparr>at_l1 = 0x40090000, at_l2_user = 0x40091000, at_l2_kernel = 0x40092000, at_l3_mmio = 0x40093000,
     at_l3_fb_0 = 0x40094000, at_l3_fb_1 = 0x40095000, el0_region_start = 0x40200000, el0_region_end = 0x40400000\<rparr>"

definition no_tables :: mmu where
  "no_tables = \<lparr>l1_table = [], l2_table_user = [], l2_table_kernel = [], l3_table_mmio = [], l3_table_fb_0 = [],
     l3_table_fb_1 = [], mair_el1 = 0, tcr_el1 = 0, ttbr0_el1 = 0, sctlr_el1 = 0\<rparr>"

lemma sample_layout_ok: "layout_ok sample_layout" "region_in_ram sample_layout" "table_aligned 0x50009000"
  by (simp_all add: sample_layout_def layout_ok_def region_in_ram_def table_aligned_def mask_eq_exp_minus_1)


theorem mmu_map_framebuffer_window_witness:
  "table_walk sample_layout (mmu_map_framebuffer sample_layout 0x50009000 4096000 (mmu_init_tables sample_layout no_tables))
     0x20001234 = Some (0x5000A234, True, 1)"
  using mmu_map_framebuffer_window [OF sample_layout_ok, of 4096000 no_tables "0x20001234"] by simp

theorem el0_reaches_only_its_memory_witness:
  "\<exists>pa. table_walk sample_layout (mmu_map_framebuffer sample_layout 0x50009000 4096000 (mmu_init_tables sample_layout no_tables))
     0x20001234 = Some (pa, True, 1) \<and> 0x50009000 \<le> unat pa \<and> unat pa < 0x50009000 + 4096000"
proof -
  have w: "table_walk sample_layout (mmu_map_framebuffer sample_layout 0x50009000 4096000 (mmu_init_tables sample_layout no_tables))
     0x20001234 = Some (0x5000A234, True, 1)"
    using map_framebuffer_window [OF sample_layout_ok(1,3), of 4096000 "0x20001234" no_tables] by simp
  from el0_reaches_only_its_memory [OF sample_layout_ok _ _ _ w] w show ?thesis by simp
qed

end
