(* ===== verification/Virtio_Net_Properties.thy ===== *)
theory Virtio_Net_Properties
  imports Virtio_Net
begin

text \<open>
  The network receive path: the volume read from a packet is the number behind its first \<^verbatim>\<open>38=\<close>,
  the packet's buffer always goes back to the card, and the reader's two blind spots.
\<close>

section \<open>The volume\<close>

definition volume_tag :: "u8 list" where
  "volume_tag = lit ''38=''"

definition first_tag :: "u8 list \<Rightarrow> u8 list \<Rightarrow> bool" where
  "first_tag pre rest \<longleftrightarrow> (\<forall>i < length pre. take 3 (drop i (pre @ volume_tag @ rest)) \<noteq> volume_tag)"

lemma volume_tag_chars: "volume_tag = [of_char (CHR ''3''), of_char (CHR ''8''), of_char (CHR ''='')]"
  by (simp add: volume_tag_def lit_def)

lemma first_tag_Cons:
  "first_tag (a # pre) rest \<longleftrightarrow> take 3 (a # pre @ volume_tag @ rest) \<noteq> volume_tag \<and> first_tag pre rest"
  unfolding first_tag_def by (auto simp: less_Suc_eq_0_disj all_conj_distrib)

lemma scan_tag_step:
  assumes "take 3 (a # s) \<noteq> volume_tag" "2 \<le> length s"
  shows "scan_tag (a # s) (Suc n) = scan_tag s n"
proof -
  obtain b c r where s: "s = b # c # r"
    using assms(2) by (metis Suc_le_length_iff numeral_2_eq_2)
  with assms(1) show ?thesis by (auto simp: volume_tag_chars numeral_3_eq_3)
qed

lemma scan_tag_first:
  "first_tag pre rest \<Longrightarrow> length pre < n \<Longrightarrow> scan_tag (pre @ volume_tag @ rest) n = Inr (Some rest)"
proof (induction pre arbitrary: n)
  case Nil
  then obtain m where "n = Suc m" by (cases n) auto
  then show ?case by (simp add: volume_tag_chars)
next
  case (Cons a pre)
  then obtain m where m: "n = Suc m" by (cases n) auto
  have "2 \<le> length (pre @ volume_tag @ rest)" by (simp add: volume_tag_chars)
  moreover have "take 3 (a # pre @ volume_tag @ rest) \<noteq> volume_tag" "first_tag pre rest"
    using Cons.prems(1) by (simp_all add: first_tag_Cons)
  ultimately show ?case using Cons m scan_tag_step [of a "pre @ volume_tag @ rest" m] by simp
qed

lemma read_digits_fold:
  "\<forall>c \<in> set ds. is_digit c \<Longrightarrow> \<not> is_digit x \<Longrightarrow>
    read_digits (ds @ x # rest) v = Inr (foldl (\<lambda>a c. a * 10 + (ucast c - 48)) v ds)"
  by (induction ds arbitrary: v) auto

lemma digits_undec:
  "foldl (\<lambda>a c. a * 10 + (ucast c - 48)) (word_of_int v :: i32) ds = word_of_int (foldl (\<lambda>a c. 10 * a + (uint c - 48)) v ds)"
proof (induction ds arbitrary: v)
  case (Cons c ds)
  have "word_of_int v * 10 + (ucast c - 48) = (word_of_int (10 * v + (uint c - 48)) :: i32)"
    by (simp add: mult.commute of_int_uint)
  then show ?case by (simp only: foldl.simps Cons.IH)
qed simp

lemma read_digits_undec:
  assumes "\<forall>c \<in> set ds. is_digit c" "\<not> is_digit x"
  shows "read_digits (ds @ x # rest) 0 = Inr (word_of_int (undec_pos ds))"
  using read_digits_fold [OF assms, of rest 0] digits_undec [of 0 ds] by (simp add: undec_pos_def)

lemma i32_to_dec_str_digits:
  assumes "0 \<le> sint v"
  shows "\<forall>c \<in> set (i32_to_dec_str v). is_digit c" "word_of_int (undec_pos (i32_to_dec_str v)) = v"
proof -
  have d: "i32_to_dec_str v = (if v = 0 then lit ''0'' else rev (dec_temp (sint v)))"
    using assms by (simp add: i32_to_dec_str_def)
  have "is_digit c" if "48 \<le> uint c \<and> uint c \<le> 57" for c :: u8
    using that by (simp add: is_digit_def word_le_def)
  then show "\<forall>c \<in> set (i32_to_dec_str v). is_digit c"
    using dec_temp_digits unfolding d by (auto simp: lit_def is_digit_def)
  show "word_of_int (undec_pos (i32_to_dec_str v)) = v"
    using undec_dec_temp [OF assms] unfolding d by (simp add: lit_def undec_pos_def)
qed

lemma sint_small:
  assumes "unat (x :: u32) < 2 ^ 31"
  shows "nat (sint x - 28) = unat x - 28"
proof -
  have u: "uint x = int (unat x)" by (rule uint_nat)
  have "unat x < 2147483648" using assms by simp
  then have "uint x < 2147483648" "- 2147483648 \<le> uint x" using u by linarith+
  then have "signed_take_bit 31 (uint x) = uint x" by (intro signed_take_bit_int_eq_self) simp_all
  then have "sint x = uint x" by (simp add: sint_uint)
  then show ?thesis using u by linarith
qed

lemma packet_volume_digits:
  assumes "first_tag pre (ds @ x # rest)" "\<forall>c \<in> set ds. is_digit c" "\<not> is_digit x"
    and "28 + length pre < unat pkt_len" "unat pkt_len < 2 ^ 31"
  shows "packet_volume (pre @ volume_tag @ ds @ x # rest) pkt_len = Inr (word_of_int (undec_pos ds))"
proof -
  have "28 < pkt_len" using assms(4) by (simp add: word_less_nat_alt)
  moreover have "length pre < nat (sint pkt_len - 28)" using assms(4) sint_small [OF assms(5)] by linarith
  ultimately show ?thesis
    using scan_tag_first [OF assms(1)] read_digits_undec [OF assms(2,3)] by (simp add: packet_volume_def)
qed

section \<open>Properties\<close>

text \<open>The next packet the card has delivered: its bytes from the FIX message on, and its length.\<close>

definition pending :: "net \<Rightarrow> bool" where
  "pending s \<longleftrightarrow> net_base s \<noteq> 0 \<and> last_used_idx s \<noteq> rx_used_idx s"

definition next_used :: "net \<Rightarrow> u32 \<times> u32" where
  "next_used s = rx_used_ring s ! (unat (last_used_idx s) mod 8)"

definition next_buffer :: "net \<Rightarrow> u16" where
  "next_buffer s = ucast (fst (next_used s))"

definition next_message :: "net \<Rightarrow> u8 list" where
  "next_message s = drop (256 * unat (next_buffer s) + 26) (rx_buffers s)"

lemma poll_pending:
  assumes "pending s" "terminated (next_message s)"
  shows "\<exists>s1 d1. virtio_net_poll_rx io L s d = res_bind (packet_volume (next_message s) (snd (next_used s)))
    (\<lambda>volume. Inr (volume, net_recycle L (next_buffer s) s1, d1))
    \<and> net_ops s1 = net_ops s @ [Invalidate (rx_used_at L + 2) 2,
        Invalidate (rx_used_at L + 4 + 8 * of_nat (unat (last_used_idx s) mod 8)) 8,
        Invalidate (buffers_at L + 256 * ucast (next_buffer s)) 256]
    \<and> s1\<lparr>net_ops := net_ops s\<rparr> = s"
  using assms
  by (auto simp: virtio_net_poll_rx_def pending_def next_used_def next_buffer_def next_message_def net_emit_def Let_def
      split: prod.splits)

lemma same_but_ops:
  assumes "s1\<lparr>net_ops := x\<rparr> = s"
  shows "last_used_idx s1 = last_used_idx s" "rx_avail_idx s1 = rx_avail_idx s" "rx_avail_ring s1 = rx_avail_ring s"
    "rx_desc s1 = rx_desc s" "net_base s1 = net_base s"
  using assms by auto

lemma recycle_fields:
  "last_used_idx (net_recycle L b s) = last_used_idx s + 1" "rx_avail_idx (net_recycle L b s) = rx_avail_idx s + 1"
  "rx_avail_ring (net_recycle L b s) = (rx_avail_ring s)[unat (rx_avail_idx s) mod 8 := b]"
  "net_base (net_recycle L b s) = net_base s" "rx_desc (net_recycle L b s) = rx_desc s"
  "rx_used_idx (net_recycle L b s) = rx_used_idx s" "rx_buffers (net_recycle L b s) = rx_buffers s"
  "last (net_ops (net_recycle L b s)) = Reg_Write (ucast (net_base s + 0x050)) 0"
  by (simp_all add: net_recycle_def net_emit_def net_write_def Let_def)

text \<open>
  C23: polling a card that has delivered a FIX packet returns the volume the sender printed behind the
  packet's first \<^verbatim>\<open>38=\<close>, and gives the packet's buffer back to the card.
\<close>

theorem net_poll_reads_volume:
  assumes "pending s" "terminated (next_message s)" "0 \<le> sint v"
    and "next_message s = pre @ volume_tag @ i32_to_dec_str v @ x # rest" "\<not> is_digit x"
    and "first_tag pre (i32_to_dec_str v @ x # rest)"
    and "28 + length pre < unat (snd (next_used s))" "unat (snd (next_used s)) < 2 ^ 31"
  shows "\<exists>s' d'. virtio_net_poll_rx io L s d = Inr (v, s', d')
    \<and> last_used_idx s' = last_used_idx s + 1 \<and> rx_avail_idx s' = rx_avail_idx s + 1
    \<and> rx_avail_ring s' = (rx_avail_ring s)[unat (rx_avail_idx s) mod 8 := next_buffer s]
    \<and> last (net_ops s') = Reg_Write (ucast (net_base s + 0x050)) 0"
proof -
  note v = i32_to_dec_str_digits [OF assms(3)]
  have "packet_volume (next_message s) (snd (next_used s)) = Inr v"
    using packet_volume_digits [OF assms(6) v(1) assms(5,7,8)] v(2) by (simp add: assms(4))
  moreover obtain s1 d1 where "virtio_net_poll_rx io L s d = res_bind (packet_volume (next_message s) (snd (next_used s)))
      (\<lambda>volume. Inr (volume, net_recycle L (next_buffer s) s1, d1))" and s1: "s1\<lparr>net_ops := net_ops s\<rparr> = s"
    using poll_pending [OF assms(1,2), of io L d] by blast
  moreover note same_but_ops [OF s1]
  ultimately show ?thesis by (auto simp: recycle_fields)
qed

text \<open>
  C38: the digits are read past the end of the packet: when the packet ends with its volume field and
  the buffer's next bytes, left there by an earlier packet, are digits, they count as digits of the
  volume.
\<close>

theorem net_volume_reads_stale_digits:
  assumes "pending s" "terminated (next_message s)" "0 \<le> sint v"
    and "unat (snd (next_used s)) = 26 + length (pre @ volume_tag @ ds)" "ds \<noteq> []"
    and "next_message s = pre @ volume_tag @ ds @ stale @ x # rest" "\<not> is_digit x"
    and "first_tag pre (ds @ stale @ x # rest)" "length pre < 2000" "ds @ stale = i32_to_dec_str v"
  shows "\<exists>s' d'. virtio_net_poll_rx io L s d = Inr (v, s', d')"
proof -
  have m: "next_message s = pre @ volume_tag @ i32_to_dec_str v @ x # rest" using assms(6,10) by simp
  have f: "first_tag pre (i32_to_dec_str v @ x # rest)" using assms(8) by (simp flip: assms(10))
  have "length ds \<le> 11" using length_i32_to_dec_str [of v] by (simp flip: assms(10))
  then have n: "28 + length pre < unat (snd (next_used s))" "unat (snd (next_used s)) < 2 ^ 31"
    using assms(4,5,9) by (auto simp: volume_tag_chars Suc_le_eq)
  have p: "packet_volume (next_message s) (snd (next_used s)) = Inr v"
    using packet_volume_digits [OF f i32_to_dec_str_digits(1) [OF assms(3)] assms(7) n] i32_to_dec_str_digits(2) [OF assms(3)]
    by (simp add: m)
  then show ?thesis using poll_pending [OF assms(1,2), of io L d] by auto
qed

text \<open>The card holds eight buffers it has not given back.\<close>

definition net_ok :: "net \<Rightarrow> bool" where
  "net_ok s \<longleftrightarrow> length (rx_avail_ring s) = 8 \<and> length (rx_desc s) = 8 \<and> rx_avail_idx s = last_used_idx s + 8"

lemma fill_queue_loop:
  assumes "n \<le> 8" "length (rx_desc s) = 8" "length (rx_avail_ring s) = 8"
  shows "let s' = fold (\<lambda>i s. s\<lparr>rx_desc := (rx_desc s)[i := D i], rx_avail_ring := (rx_avail_ring s)[i := of_nat i]\<rparr>) [0..<n] s
    in length (rx_desc s') = 8 \<and> length (rx_avail_ring s') = 8 \<and> last_used_idx s' = last_used_idx s \<and> net_base s' = net_base s
      \<and> (\<forall>i < 8. rx_desc s' ! i = (if i < n then D i else rx_desc s ! i)
           \<and> rx_avail_ring s' ! i = (if i < n then of_nat i else rx_avail_ring s ! i))"
  using assms(1)
proof (induction n)
  case (Suc n)
  then show ?case by (auto simp: Let_def nth_list_update less_Suc_eq)
qed (use assms in simp)

lemma net_emit_fields [simp]:
  "rx_desc (net_emit e s) = rx_desc s" "rx_avail_ring (net_emit e s) = rx_avail_ring s"
  "rx_avail_idx (net_emit e s) = rx_avail_idx s" "last_used_idx (net_emit e s) = last_used_idx s"
  "net_base (net_emit e s) = net_base s"
  by (simp_all add: net_emit_def)

lemma net_write_fields [simp]:
  "rx_desc (net_write a v s) = rx_desc s" "rx_avail_ring (net_write a v s) = rx_avail_ring s"
  "rx_avail_idx (net_write a v s) = rx_avail_idx s" "last_used_idx (net_write a v s) = last_used_idx s"
  "net_base (net_write a v s) = net_base s"
  by (simp_all add: net_write_def)

lemma net_fold_write_fields [simp]:
  "rx_desc (fold (\<lambda>(a, v). net_write a v) ws s) = rx_desc s"
  "rx_avail_ring (fold (\<lambda>(a, v). net_write a v) ws s) = rx_avail_ring s"
  "last_used_idx (fold (\<lambda>(a, v). net_write a v) ws s) = last_used_idx s"
  "net_base (fold (\<lambda>(a, v). net_write a v) ws s) = net_base s"
  by (induction ws arbitrary: s) (auto split: prod.splits)

lemma net_setup_fields [simp]:
  "rx_desc (net_negotiate reg v s) = rx_desc s" "rx_avail_ring (net_negotiate reg v s) = rx_avail_ring s"
  "last_used_idx (net_negotiate reg v s) = last_used_idx s" "net_base (net_negotiate reg v s) = net_base s"
  "rx_desc (net_queue_registers L v s) = rx_desc s" "rx_avail_ring (net_queue_registers L v s) = rx_avail_ring s"
  "last_used_idx (net_queue_registers L v s) = last_used_idx s" "net_base (net_queue_registers L v s) = net_base s"
  by (simp_all add: net_negotiate_def net_or_def net_queue_registers_def Let_def)

lemma net_fill_queue_fields:
  assumes "length (rx_desc s) = 8" "length (rx_avail_ring s) = 8"
  shows "length (rx_desc (net_fill_queue L s)) = 8" "length (rx_avail_ring (net_fill_queue L s)) = 8"
    "last_used_idx (net_fill_queue L s) = last_used_idx s" "rx_avail_idx (net_fill_queue L s) = 8"
    "i < 8 \<Longrightarrow> rx_desc (net_fill_queue L s) ! i = \<lparr>addr = buffers_at L + 256 * of_nat i, len = 256, flags = 2, next_desc = 0\<rparr>"
    "i < 8 \<Longrightarrow> rx_avail_ring (net_fill_queue L s) ! i = of_nat i"
  using fill_queue_loop [of 8 s "\<lambda>i. \<lparr>addr = buffers_at L + 256 * of_nat i, len = 256, flags = 2, next_desc = 0\<rparr>"] assms
  by (simp_all add: net_fill_queue_def Let_def del: upt_conv_Cons upt_rec)


lemma net_init_posts:
  assumes "find_card reg [0..<32] s = Some base" "base \<noteq> 0" "length (rx_desc s) = 8" "length (rx_avail_ring s) = 8"
    "last_used_idx s = 0"
  shows "net_ok (fst (virtio_net_init io reg L s d))
    \<and> (\<forall>i < 8. rx_desc (fst (virtio_net_init io reg L s d)) ! i
          = \<lparr>addr = buffers_at L + 256 * of_nat i, len = 256, flags = 2, next_desc = 0\<rparr>
        \<and> rx_avail_ring (fst (virtio_net_init io reg L s d)) ! i = of_nat i)"
  using assms net_fill_queue_fields
  by (auto simp: virtio_net_init_def net_ok_def net_or_def Let_def)

text \<open>
  Bringing up the card posts all eight buffers: every descriptor names its own 256 bytes of the
  buffer array, writable by the card, and the available ring offers each of them once.
\<close>

theorem net_init_posts_all_buffers:
  assumes "find_card reg [0..<32] s = Some base" "base \<noteq> 0" "length (rx_desc s) = 8" "length (rx_avail_ring s) = 8"
    "last_used_idx s = 0"
  shows "net_ok (fst (virtio_net_init io reg L s d))
    \<and> (\<forall>i < 8. rx_desc (fst (virtio_net_init io reg L s d)) ! i
          = \<lparr>addr = buffers_at L + 256 * of_nat i, len = 256, flags = 2, next_desc = 0\<rparr>
        \<and> rx_avail_ring (fst (virtio_net_init io reg L s d)) ! i = of_nat i)"
  by (rule net_init_posts [OF assms])

section \<open>Concrete packets\<close>

definition sample_net :: "u8 list \<Rightarrow> u32 \<Rightarrow> net" where
  "sample_net msg n = \<lparr>net_base = 0x0a000200,
     rx_desc = replicate 8 \<lparr>addr = 0, len = 256, flags = 2, next_desc = 0\<rparr>,
     rx_avail_idx = 8, rx_avail_ring = map of_nat [0..<8], rx_used_idx = 1, rx_used_ring = (0, n) # replicate 7 (0, 0),
     rx_buffers = replicate 26 0 @ msg @ 0 # replicate 1900 0, last_used_idx = 0, net_ops = []\<rparr>"

definition silent_io :: "unit io" where
  "silent_io = \<lparr>io_read = (\<lambda>_ d. Inr (None, d)), io_write = (\<lambda>_ _ d. Inr (True, d)), io_print = (\<lambda>_ d. d),
     io_timer = (\<lambda>d. (0, d)), io_key = (\<lambda>d. (0, d)), io_rx = (\<lambda>d. (0, d)), io_flush = Inr\<rparr>"

definition sample_net_layout :: net_layout where
  "sample_net_layout = \<lparr>vq_at = 0x40080000, buffers_at = 0x40082000\<rparr>"

lemma sample_net_facts:
  "pending (sample_net msg n)" "next_used (sample_net msg n) = (0, n)" "next_buffer (sample_net msg n) = 0"
  "next_message (sample_net msg n) = msg @ 0 # replicate 1900 0" "terminated (next_message (sample_net msg n))"
  "net_ok (sample_net msg n)"
  by (simp_all add: sample_net_def pending_def next_used_def next_buffer_def next_message_def net_ok_def)

lemma fix_pre_first:
  "first_tag (lit ''8=FIX|'') rest"
  by (simp add: first_tag_Cons lit_def volume_tag_def numeral_3_eq_3) (simp add: first_tag_def)

lemma fifty_seven: "i32_to_dec_str 57 = lit ''57''"
  by code_simp

theorem net_poll_reads_volume_witness:
  "\<exists>s' d'. virtio_net_poll_rx silent_io sample_net_layout (sample_net (lit ''8=FIX|38=57|'') 38) () = Inr (57, s', d')
    \<and> rx_avail_ring s' ! 0 = 0"
proof -
  have m: "next_message (sample_net (lit ''8=FIX|38=57|'') 38)
      = lit ''8=FIX|'' @ volume_tag @ i32_to_dec_str 57 @ of_char (CHR ''|'') # 0 # replicate 1900 0"
    by (simp add: sample_net_facts fifty_seven volume_tag_def lit_def)
  show ?thesis
    using net_poll_reads_volume [OF sample_net_facts(1,5) _ m _ fix_pre_first, of silent_io sample_net_layout "()"]
    by (auto simp: is_digit_def sample_net_facts lit_def) (simp add: sample_net_def)
qed

theorem net_volume_reads_stale_digits_witness:
  "\<exists>s' d'. virtio_net_poll_rx silent_io sample_net_layout (sample_net (lit ''8=FIX|38=57|'') 36) () = Inr (57, s', d')"
proof -
  have m: "next_message (sample_net (lit ''8=FIX|38=57|'') 36)
      = lit ''8=FIX|'' @ volume_tag @ lit ''5'' @ lit ''7'' @ of_char (CHR ''|'') # 0 # replicate 1900 0"
    by (simp add: sample_net_facts volume_tag_def lit_def)
  show ?thesis
    by (rule net_volume_reads_stale_digits [OF sample_net_facts(1,5) _ _ _ m _ fix_pre_first])
      (simp_all add: is_digit_def sample_net_facts fifty_seven volume_tag_def lit_def)
qed


theorem net_init_posts_all_buffers_witness:
  "net_ok (fst (virtio_net_init silent_io (\<lambda>_ a. if a = 0x0a000200 then 0x74726976 else if a = 0x0a000208 then 1 else 0)
     sample_net_layout ((sample_net [] 0)\<lparr>net_base := 0\<rparr>) ()))"
proof -
  have "find_card (\<lambda>_ a. if a = 0x0a000200 then 0x74726976 else if a = 0x0a000208 then 1 else 0) [0..<32]
      ((sample_net [] 0)\<lparr>net_base := 0\<rparr>) = Some 0x0a000200"
    by (simp add: upt_conv_Cons slot_base_def)
  from net_init_posts_all_buffers [OF this, of silent_io sample_net_layout "()"] show ?thesis by (simp add: sample_net_def)
qed

end
