(* ===== verification/Virtio_Lemmas.thy ===== *)
theory Virtio_Lemmas
  imports Virtio
begin

text \<open>
  Physical memory, the bump allocator and the queue fields: reading back what was stored, blocks of
  the arena that do not overlap, alignment.
\<close>

section \<open>Memory\<close>

lemma length_get_mem [simp]: "length (get_mem m a n) = n"
  by (simp add: get_mem_def)

lemma unat_add_of_nat:
  "unat (a :: u64) + n \<le> 2 ^ 64 \<Longrightarrow> i < n \<Longrightarrow> unat (a + of_nat i) = unat a + i"
  by (simp add: unat_word_ariths unat_of_nat take_bit_nat_eq_self)

lemma get_put_mem:
  assumes "unat a + length bs \<le> 2 ^ 64"
  shows "get_mem (put_mem m a bs) a (length bs) = bs"
proof (rule nth_equalityI)
  fix i assume "i < length (get_mem (put_mem m a bs) a (length bs))"
  then have i: "i < length bs" by simp
  with assms have "unat (of_nat i :: u64) = i" using unsigned_less [of a]
    by (simp add: unat_of_nat take_bit_nat_eq_self)
  with i show "get_mem (put_mem m a bs) a (length bs) ! i = bs ! i"
    by (simp add: get_mem_def put_mem_def)
qed simp

text \<open>Two blocks with no address in common.\<close>

definition apart :: "u64 \<Rightarrow> nat \<Rightarrow> u64 \<Rightarrow> nat \<Rightarrow> bool" where
  "apart a m b n \<longleftrightarrow> unat a + m \<le> unat b \<or> unat b + n \<le> unat a"

lemma put_mem_outside:
  assumes "apart a (length bs) b n" "unat a + length bs \<le> 2 ^ 64" "unat b + n \<le> 2 ^ 64" "i < n"
  shows "put_mem m a bs (b + of_nat i) = m (b + of_nat i)"
proof -
  have b: "unat (b + of_nat i) = unat b + i" using assms(3,4) by (rule unat_add_of_nat)
  show ?thesis
  proof (cases "unat a \<le> unat b + i")
    case True
    then have "unat (b + of_nat i - a) = unat b + i - unat a"
      by (simp add: unat_sub word_le_nat_alt b)
    then show ?thesis using assms True by (auto simp: put_mem_def apart_def)
  next
    case False
    then have "unat (b + of_nat i - a) = 2 ^ 64 + (unat b + i) - unat a"
      by (simp add: unat_sub_if' b)
    then show ?thesis using assms False by (auto simp: put_mem_def apart_def)
  qed
qed

lemma get_put_mem_other:
  assumes "apart a (length bs) b n" "unat a + length bs \<le> 2 ^ 64" "unat b + n \<le> 2 ^ 64"
  shows "get_mem (put_mem m a bs) b n = get_mem m b n"
  using put_mem_outside [OF assms] by (simp add: get_mem_def)

lemma zero_mem_put: "zero_mem m a n = put_mem m a (replicate (unat n) 0)"
  by (auto simp: zero_mem_def put_mem_def fun_eq_iff)

section \<open>Alignment\<close>

lemma unat_and_not_mask: "unat (w AND NOT (mask n)) = unat w - unat w mod 2 ^ n" for w :: u64
proof -
  have "take_bit n w + (w AND NOT (mask n)) = take_bit n w OR (w AND NOT (mask n))"
    by (rule disjunctive_add) (auto simp: bit_simps)
  also have "\<dots> = w" by (rule bit_word_eqI) (auto simp: bit_simps)
  finally have "w AND NOT (mask n) = w - take_bit n w" by (simp add: eq_diff_eq add.commute)
  moreover have "unat (take_bit n w) = unat w mod 2 ^ n"
    unfolding unsigned_take_bit_eq by (simp only: take_bit_eq_mod)
  moreover from this have "take_bit n w \<le> w" by (simp add: word_le_nat_alt)
  ultimately show ?thesis by (simp add: unat_sub)
qed

text \<open>Rounding up to a power of two: aligned, not below, less than one step above.\<close>

lemma align_up_props:
  assumes "unat align = 2 ^ k" "k < 32" "unat a + 2 ^ k \<le> 2 ^ 63"
  shows "unat a \<le> unat (align_up a align)" "unat (align_up a align) < unat a + 2 ^ k"
    "unat (align_up a align) mod 2 ^ k = 0"
proof -
  let ?n = "unat a"
  have al: "unat (ucast align :: u64) = 2 ^ k" using assms(1) by simp
  have mask: "ucast (align - 1) = (mask k :: u64)"
  proof -
    have "align \<noteq> 0" using assms(1) by auto
    then have "unat (align - 1) = 2 ^ k - 1" using assms(1) by (simp add: unat_minus_one)
    moreover have "unat (mask k :: u64) = 2 ^ k - 1"
      using assms(2) by (simp add: unat_eq_nat_uint uint_mask_eq min_def)
        (simp add: mask_eq_exp_minus_1 nat_diff_distrib nat_power_eq)
    ultimately show ?thesis by (simp add: word_unat_eq_iff)
  qed
  have sum: "unat (a + ucast align) = ?n + 2 ^ k"
    using assms(1,3) by (simp add: unat_word_ariths)
  then have "a + ucast align \<noteq> 0" by auto
  then have up: "unat (a + ucast align - 1) = ?n + 2 ^ k - 1"
    using sum unat_minus_one [of "a + ucast align"] by metis
  have val: "unat (align_up a align) = (if ?n mod 2 ^ k = 0 then ?n else ?n + 2 ^ k - 1 - (?n + 2 ^ k - 1) mod 2 ^ k)"
    unfolding align_up_def mask using up by (simp add: word_unat_eq_iff unat_mod assms(1) unat_and_not_mask)
  have rem: "(?n + 2 ^ k - 1) mod 2 ^ k < 2 ^ k" by simp
  have low: "(?n + 2 ^ k - 1) mod 2 ^ k = ?n mod 2 ^ k - 1" if "?n mod 2 ^ k \<noteq> 0"
  proof -
    have "?n + 2 ^ k - 1 = (?n mod 2 ^ k - 1) + (?n div 2 ^ k + 1) * 2 ^ k"
      using that div_mult_mod_eq [of ?n "2 ^ k"] unfolding add_mult_distrib by linarith
    moreover have "?n mod 2 ^ k < 2 ^ k" by simp
    then have "?n mod 2 ^ k - 1 < 2 ^ k" by linarith
    ultimately show ?thesis by (metis mod_less mod_mult_self1)
  qed
  have r: "?n mod 2 ^ k < 2 ^ k" by simp
  have "?n \<le> unat (align_up a align) \<and> unat (align_up a align) < ?n + 2 ^ k"
  proof (cases "?n mod 2 ^ k = 0")
    case False
    then have "unat (align_up a align) = ?n + 2 ^ k - 1 - (?n mod 2 ^ k - 1)" using val low by presburger
    then show ?thesis using r False by linarith
  next
    case True
    then have "unat (align_up a align) = ?n" using val by presburger
    then show ?thesis using r by linarith
  qed
  then show "?n \<le> unat (align_up a align)" "unat (align_up a align) < ?n + 2 ^ k" by blast+
  show "unat (align_up a align) mod 2 ^ k = 0"
    using val by (auto simp: minus_mod_eq_mult_div)
qed

end
