(* ===== verification/Virtio_Blk.thy ===== *)
theory Virtio_Blk
  imports Virtio_Lemmas Block_Device
begin

text \<open>
  The block driver keeps the block contract: against a device that serves the descriptor chains the
  way the virtio specification says (\<open>virtio_disk\<close>), \<^verbatim>\<open>virtio_blk_read_sector\<close> and
  \<^verbatim>\<open>virtio_blk_write_sector\<close> implement \<open>block_device\<close>, give the arena back and never spin.
  \<open>ideal_disk\<close> is such a device.
\<close>

section \<open>The device's side\<close>

text \<open>The newest available chain is a well-formed request of the block protocol.\<close>

definition blk_chain :: "virtq \<Rightarrow> memory \<Rightarrow> bool \<Rightarrow> u64 \<Rightarrow> u64 \<Rightarrow> u64 \<Rightarrow> bool" where
  "blk_chain q m write sector buffer status \<longleftrightarrow>
     (let x0 = desc q (unat (avail_ring q (unat (avail_idx q - 1) mod 256)));
          x1 = desc q (unat (next_desc x0)); x2 = desc q (unat (next_desc x1))
      in flags x0 = VIRTQ_DESC_F_NEXT \<and> len x0 = 16
         \<and> get_mem m (addr x0) 16 = blk_header (if write then 1 else 0) sector
         \<and> flags x1 = (if write then VIRTQ_DESC_F_NEXT else VIRTQ_DESC_F_NEXT OR VIRTQ_DESC_F_WRITE) \<and> len x1 = 512
         \<and> addr x1 = buffer \<and> flags x2 = VIRTQ_DESC_F_WRITE \<and> len x2 = 1 \<and> addr x2 = status)"

definition served_mem :: "nat \<Rightarrow> store \<Rightarrow> bool \<Rightarrow> u64 \<Rightarrow> u64 \<Rightarrow> u64 \<Rightarrow> memory \<Rightarrow> memory" where
  "served_mem cap S write sector buffer status m =
     put_mem (if \<not> write \<and> unat sector < cap then put_mem m buffer (S sector) else m)
       status [if unat sector < cap then 0 else 1]"

definition served_disk :: "nat \<Rightarrow> bool \<Rightarrow> u64 \<Rightarrow> u8 list \<Rightarrow> store \<Rightarrow> store" where
  "served_disk cap write sector bytes S = (if write \<and> unat sector < cap then S(sector := bytes) else S)"

locale virtio_disk =
  fixes service :: "'v service" and base :: u64 and disk :: "'v \<Rightarrow> store" and cap :: nat
  assumes base_nonzero: "base \<noteq> 0"
    and serves: "blk_chain q m write sector buffer status \<Longrightarrow> \<exists>polls ids v'.
      service base q m v = Some (polls, q\<lparr>used_idx := used_idx q + 1, used_id := ids\<rparr>,
        served_mem cap (disk v) write sector buffer status m, v')
      \<and> disk v' = served_disk cap write sector (get_mem m buffer 512) (disk v)"

section \<open>The driver's side\<close>

definition blk_ready :: "u64 \<Rightarrow> u64 \<Rightarrow> virtio \<Rightarrow> bool" where
  "blk_ready base buffer s \<longleftrightarrow> blk_mmio_base s = base \<and> used_idx (blk_q s) = blk_last_used_idx s
     \<and> unat buffer + 512 \<le> unat (dma_heap_curr s) \<and> unat (dma_heap_curr s) \<le> 2 ^ 62"

text \<open>The block service of the kernel, with the caller's sector buffer at a fixed address.\<close>

definition blk_io :: "'v service \<Rightarrow> u64 \<Rightarrow> (virtio \<times> 'v) io" where
  "blk_io service buffer = \<lparr>
     io_read = (\<lambda>sector sv. res_bind (virtio_blk_read_sector service sector buffer sv)
       (\<lambda>(done, s, v). Inr (if done then Some (get_mem (mem s) buffer 512) else None, s, v))),
     io_write = (\<lambda>sector b (s, v).
       virtio_blk_write_sector service sector buffer (s\<lparr>mem := put_mem (mem s) buffer b\<rparr>, v)),
     io_print = (\<lambda>b sv. sv), io_timer = (\<lambda>sv. (0, sv)), io_key = (\<lambda>sv. (0, sv)), io_rx = (\<lambda>sv. (0, sv)),
     io_flush = Inr\<rparr>"

lemma next_desc_index: "unat ((d + of_nat k) mod 256 :: u16) = (unat d + k) mod 256"
proof -
  have "unat (d + of_nat k) = (unat d + k) mod 65536"
    by (simp add: unat_word_ariths unat_of_nat take_bit_eq_mod mod_add_right_eq)
  moreover have "(unat d + k) mod 65536 mod 256 = (unat d + k) mod 256" by (rule mod_mod_cancel) simp
  ultimately show ?thesis by (simp add: unat_mod)
qed

lemma request_descs:
  "unat ((d + 1) mod 256 :: u16) = (unat d + 1) mod 256" "unat ((d + 1 + 1) mod 256 :: u16) = (unat d + 2) mod 256"
  using next_desc_index [of d 1] next_desc_index [of d 2] by (simp_all add: add.assoc)

lemma distinct_descs: "(n :: nat) mod 256 \<noteq> (n + 1) mod 256" "n mod 256 \<noteq> (n + 2) mod 256" "(n + 1) mod 256 \<noteq> (n + 2) mod 256"
  using mod_less_divisor [of 256 n] by (auto simp: mod_Suc split: if_splits)

lemma distinct_desc_words:
  fixes d :: u16
  shows "unat (d mod 256) \<noteq> unat ((d + 1) mod 256)" "unat (d mod 256) \<noteq> unat ((d + 1 + 1) mod 256)"
    "unat ((d + 1) mod 256) \<noteq> unat ((d + 1 + 1) mod 256)"
proof -
  have "unat (d mod 256) = unat d mod 256" by (simp add: unat_mod)
  with request_descs [of d] distinct_descs [of "unat d"]
  show "unat (d mod 256) \<noteq> unat ((d + 1) mod 256)" "unat (d mod 256) \<noteq> unat ((d + 1 + 1) mod 256)"
    "unat ((d + 1) mod 256) \<noteq> unat ((d + 1 + 1) mod 256)"
    by metis+
qed

text \<open>The blocks one request takes from the arena.\<close>

lemma request_blocks:
  assumes "unat h \<le> 2 ^ 62"
  shows "unat h \<le> unat (align_up h 16)" "unat (align_up h 16) < unat h + 16"
    "unat (align_up h 16 + 16) = unat (align_up h 16) + 16" "align_up x 1 = x"
proof -
  have "unat h \<le> unat (align_up h 16) \<and> unat (align_up h 16) < unat h + 16"
    using align_up_props [of 16 4 h] assms by simp
  then show "unat h \<le> unat (align_up h 16)" "unat (align_up h 16) < unat h + 16" by blast+
  then show "unat (align_up h 16 + 16) = unat (align_up h 16) + 16"
    using assms by (simp add: unat_word_ariths)
  show "align_up x 1 = x" by (simp add: align_up_def)
qed

lemma blk_alloc_eq:
  "blk_alloc write sector s = (let a = align_up (dma_heap_curr s) 16 in
     (a, a + 16, s\<lparr>dma_heap_curr := a + 17, mem := put_mem (put_mem (put_mem (zero_mem (mem s) a 16) a
        (blk_header (if write then 1 else 0) sector)) (a + 16) [0]) (a + 16) [0xFF]\<rparr>))"
  by (simp add: blk_alloc_def bump_allocate_def Let_def align_up_def [of _ 1] zero_mem_put)

lemma blk_announce_ops:
  "blk_announce write req buffer d0 q s = s\<lparr>ops := ops s @ Clean req 16 # (if write then [Clean buffer 512] else [])
     @ Clean (desc_at q d0) 48 # (if write then [Clean (avail_ring_at q (avail_idx q)) 2] else [])
     @ [Clean (avail_idx_at q) 2, Reg_Write (blk_mmio_base s + 0x050) 0]\<rparr>"
  by (simp add: blk_announce_def Let_def cache_flush_def reg_write_def emit_def)

lemma blk_request_eq:
  "blk_request write sector buffer s =
     (let (req, status, s1) = blk_alloc write sector s;
          d = global_desc_idx s;
          q = blk_descs write req buffer status (d mod 256) ((d + 1) mod 256) ((d + 1 + 1) mod 256) (blk_q s);
          q = set_avail (avail_idx q) (d mod 256) q;
          s2 = blk_announce write req buffer (d mod 256) q (s1\<lparr>global_desc_idx := d + 1 + 1 + 1\<rparr>)
      in (status, s2\<lparr>blk_q := q\<lparr>avail_idx := avail_idx q + 1\<rparr>\<rparr>))"
  by (simp add: blk_request_def blk_alloc_eq take_desc_def Let_def)

lemma length_blk_header [simp]: "length (blk_header t sector) = 16"
  by (simp add: blk_header_def bytes64_def)

lemma blk_alloc_mem:
  assumes "unat buffer + 512 \<le> unat (dma_heap_curr s)" "unat (dma_heap_curr s) \<le> 2 ^ 62"
    "blk_alloc write sector s = (req, status, s')"
  shows "get_mem (mem s') req 16 = blk_header (if write then 1 else 0) sector"
    "get_mem (mem s') buffer 512 = get_mem (mem s) buffer 512"
    "unat status = unat req + 16" "unat (dma_heap_curr s) \<le> unat req" "unat req < unat (dma_heap_curr s) + 16"
proof -
  note b = request_blocks [OF assms(2)]
  have req: "req = align_up (dma_heap_curr s) 16" "status = req + 16"
    and mem: "mem s' = put_mem (put_mem (put_mem (put_mem (mem s) req (replicate 16 0)) req
        (blk_header (if write then 1 else 0) sector)) status [0]) status [0xFF]"
    using assms(3) by (auto simp: blk_alloc_eq Let_def zero_mem_put)
  show place: "unat status = unat req + 16" "unat (dma_heap_curr s) \<le> unat req" "unat req < unat (dma_heap_curr s) + 16"
    using b(1-3) by (simp_all add: req)
  have fit: "unat req + 16 \<le> 2 ^ 64" "unat status + 1 \<le> 2 ^ 64" "unat buffer + 512 \<le> 2 ^ 64"
    using place assms(1,2) by auto
  have ap: "apart status 1 req 16" "apart status 1 buffer 512" "apart req 16 buffer 512"
    using place assms(1) by (auto simp: apart_def)
  have one: "get_mem (put_mem m status [v]) req 16 = get_mem m req 16"
    "get_mem (put_mem m status [v]) buffer 512 = get_mem m buffer 512" for m v
    using get_put_mem_other [of status "[v]" req 16 m] get_put_mem_other [of status "[v]" buffer 512 m] ap fit by simp_all
  have two: "get_mem (put_mem m req h) buffer 512 = get_mem m buffer 512" if "length h = 16" for m h
    using get_put_mem_other [of req h buffer 512 m] ap fit that by simp
  show "get_mem (mem s') req 16 = blk_header (if write then 1 else 0) sector"
    using get_put_mem [of req "blk_header (if write then 1 else 0) sector"] fit by (simp add: mem one)
  show "get_mem (mem s') buffer 512 = get_mem (mem s) buffer 512"
    by (simp add: mem one two)
qed

text \<open>The three descriptors are distinct, so each keeps what was put in it.\<close>

lemma blk_descs_chain:
  assumes "get_mem m req 16 = blk_header (if write then 1 else 0) sector"
    "unat d0 \<noteq> unat d1" "unat d0 \<noteq> unat d2" "unat d1 \<noteq> unat d2"
  shows "blk_chain (set_avail i d0 (blk_descs write req buffer status d0 d1 d2 q) \<lparr>avail_idx := i + 1\<rparr>)
    m write sector buffer status"
  using assms by (simp add: blk_chain_def blk_descs_def set_desc_def set_avail_def VIRTQ_SIZE_def)

lemma blk_request_effect:
  assumes s: "blk_request write sector buffer s = (status, s')"
    and h: "unat buffer + 512 \<le> unat (dma_heap_curr s)" "unat (dma_heap_curr s) \<le> 2 ^ 62"
  shows "blk_chain (blk_q s') (mem s') write sector buffer status"
    "get_mem (mem s') buffer 512 = get_mem (mem s) buffer 512"
    "blk_mmio_base s' = blk_mmio_base s" "blk_last_used_idx s' = blk_last_used_idx s"
    "used_idx (blk_q s') = used_idx (blk_q s)"
    "unat status + 1 \<le> 2 ^ 63" "unat (dma_heap_curr s) + 16 \<le> unat status"
proof -
  obtain req status1 s1 where al: "blk_alloc write sector s = (req, status1, s1)" by (cases "blk_alloc write sector s")
  note m = blk_alloc_mem [OF h al]
  let ?d = "global_desc_idx s"
  have st: "status = status1" and mem: "mem s' = mem s1"
    using s by (auto simp: blk_request_eq al blk_announce_ops Let_def)
  show "blk_mmio_base s' = blk_mmio_base s" "blk_last_used_idx s' = blk_last_used_idx s"
    "used_idx (blk_q s') = used_idx (blk_q s)"
    using s by (auto simp: blk_request_eq blk_alloc_eq blk_announce_ops blk_descs_def Let_def set_desc_def set_avail_def)
  show "unat status + 1 \<le> 2 ^ 63" "unat (dma_heap_curr s) + 16 \<le> unat status"
    using m(3-5) h by (auto simp: st)
  show "get_mem (mem s') buffer 512 = get_mem (mem s) buffer 512" by (simp add: mem m(2))
  have q: "blk_q s' = (let q = blk_descs write req buffer status (?d mod 256) ((?d + 1) mod 256) ((?d + 1 + 1) mod 256) (blk_q s)
      in set_avail (avail_idx q) (?d mod 256) q \<lparr>avail_idx := avail_idx q + 1\<rparr>)"
    using s al by (auto simp: blk_request_eq st Let_def set_avail_def blk_alloc_eq)
  show "blk_chain (blk_q s') (mem s') write sector buffer status"
    unfolding q mem Let_def by (intro blk_descs_chain m(1) distinct_desc_words)
qed

section \<open>The driver implements the block contract\<close>

context virtio_disk
begin

lemma transfer:
  assumes "blk_ready base buffer s" "length (disk v sector) = 512"
  shows "\<exists>s' v'. blk_transfer service write sector buffer (s, v) = Inr (unat sector < cap, s', v')
    \<and> blk_ready base buffer s' \<and> dma_heap_curr s' = dma_heap_curr s
    \<and> disk v' = served_disk cap write sector (get_mem (mem s) buffer 512) (disk v)
    \<and> (\<not> write \<and> unat sector < cap \<longrightarrow> get_mem (mem s') buffer 512 = disk v sector)"
proof -
  obtain status s1 where req: "blk_request write sector buffer s = (status, s1)"
    by (cases "blk_request write sector buffer s")
  have h: "unat buffer + 512 \<le> unat (dma_heap_curr s)" "unat (dma_heap_curr s) \<le> 2 ^ 62"
    using assms(1) by (auto simp: blk_ready_def)
  note eff = blk_request_effect [OF req h]
  obtain polls ids v' where serve: "service base (blk_q s1) (mem s1) v = Some (polls,
      (blk_q s1)\<lparr>used_idx := used_idx (blk_q s1) + 1, used_id := ids\<rparr>,
      served_mem cap (disk v) write sector buffer status (mem s1), v')"
    "disk v' = served_disk cap write sector (get_mem (mem s1) buffer 512) (disk v)"
    using serves [OF eff(1), of v] by blast
  let ?m = "served_mem cap (disk v) write sector buffer status (mem s1)"
  have ap: "apart status 1 buffer 512" "unat buffer + 512 \<le> 2 ^ 64" "unat status + 1 \<le> 2 ^ 64"
    using eff(6,7) h by (auto simp: apart_def)
  have st: "?m status = 0 \<longleftrightarrow> unat sector < cap"
    by (simp add: served_mem_def put_mem_def)
  have buf: "get_mem ?m buffer 512 = disk v sector" if "\<not> write" "unat sector < cap"
    using that get_put_mem_other [of status "[0]" buffer 512 "put_mem (mem s1) buffer (disk v sector)"]
      get_put_mem [of buffer "disk v sector" "mem s1"] ap assms(2) by (simp add: served_mem_def)
  have nz: "blk_mmio_base s \<noteq> 0" "used_idx (blk_q s1) = blk_last_used_idx s1" "blk_mmio_base s1 = base"
    using assms(1) base_nonzero eff(3-5) by (auto simp: blk_ready_def)
  show ?thesis
    using assms(1) nz eff(2) st buf serve
    by (auto simp: blk_transfer_def req Let_def await_def cache_invalidate_def emit_def blk_ready_def)
qed

definition driver_ok :: "u64 \<Rightarrow> virtio \<times> 'v \<Rightarrow> bool" where
  "driver_ok buffer = (\<lambda>(s, v). blk_ready base buffer s \<and> store_wf (disk v))"

lemma io_block_device: "block_device (blk_io service buffer) (driver_ok buffer) (\<lambda>(s, v). disk v) cap"
proof
  fix d :: "virtio \<times> 'v" and sector :: u64
  assume d: "driver_ok buffer d"
  obtain s v where sv: "d = (s, v)" by (cases d)
  with d obtain s' v' where "blk_transfer service False sector buffer (s, v) = Inr (unat sector < cap, s', v')"
    "blk_ready base buffer s'" "disk v' = disk v" "unat sector < cap \<longrightarrow> get_mem (mem s') buffer 512 = disk v sector"
    using transfer [of buffer s v sector False] by (auto simp: driver_ok_def served_disk_def)
  with d sv show "\<exists>d'. io_read (blk_io service buffer) sector d =
      Inr (if unat sector < cap then Some ((case d of (s, v) \<Rightarrow> disk v) sector) else None, d')
      \<and> driver_ok buffer d' \<and> (case d' of (s, v) \<Rightarrow> disk v) = (case d of (s, v) \<Rightarrow> disk v)"
    by (auto simp: blk_io_def virtio_blk_read_sector_def driver_ok_def)
next
  fix d :: "virtio \<times> 'v" and sector :: u64 and b :: "u8 list"
  assume d: "driver_ok buffer d" and b: "length b = 512"
  obtain s v where sv: "d = (s, v)" by (cases d)
  let ?s = "s\<lparr>mem := put_mem (mem s) buffer b\<rparr>"
  have ready: "blk_ready base buffer ?s" "length (disk v sector) = 512" "store_wf (disk v)"
    using d sv by (auto simp: driver_ok_def blk_ready_def)
  have "unat buffer + 512 \<le> 2 ^ 64" using ready(1) by (auto simp: blk_ready_def)
  then have "get_mem (mem ?s) buffer 512 = b" using get_put_mem [of buffer b "mem s"] b by simp
  then obtain s' v' where "blk_transfer service True sector buffer (?s, v) = Inr (unat sector < cap, s', v')"
    "blk_ready base buffer s'" "disk v' = (if unat sector < cap then (disk v)(sector := b) else disk v)"
    using transfer [OF ready(1,2), of True] by (auto simp: served_disk_def)
  with ready(3) b sv show "\<exists>d'. io_write (blk_io service buffer) sector b d = Inr (unat sector < cap, d')
      \<and> driver_ok buffer d' \<and> (case d' of (s, v) \<Rightarrow> disk v) =
        (if unat sector < cap then (case d of (s, v) \<Rightarrow> disk v)(sector := b) else (case d of (s, v) \<Rightarrow> disk v))"
    by (auto simp: blk_io_def virtio_blk_write_sector_def driver_ok_def)
qed (auto simp: blk_io_def driver_ok_def)

end

section \<open>A device that keeps the protocol\<close>

definition get64 :: "u8 list \<Rightarrow> nat \<Rightarrow> u64" where
  "get64 b i = ucast (get32 b i) OR push_bit 32 (ucast (get32 b (i + 4)))"

definition ideal_disk :: "nat \<Rightarrow> store service" where
  "ideal_disk cap base q m S =
     (let x0 = desc q (unat (avail_ring q (unat (avail_idx q - 1) mod 256)));
          x1 = desc q (unat (next_desc x0)); x2 = desc q (unat (next_desc x1));
          header = get_mem m (addr x0) 16; write = (get32 header 0 = 1); sector = get64 header 8
      in Some (0, q\<lparr>used_idx := used_idx q + 1\<rparr>, served_mem cap S write sector (addr x1) (addr x2) m,
           served_disk cap write sector (get_mem m (addr x1) 512) S))"

lemma get64_header: "get64 (blk_header t sector) 8 = sector"
proof -
  have lo: "get32 (blk_header t sector) 8 = ucast sector"
    using get32_put32 [of 8 "blk_header t sector" "ucast sector"]
    by (simp add: blk_header_def bytes64_def put32_def overwrite_def bytes32_def get32_def)
  have hi: "get32 (blk_header t sector) 12 = ucast (drop_bit 32 sector)"
    using get32_put32 [of 12 "blk_header t sector" "ucast (drop_bit 32 sector)"]
    by (simp add: blk_header_def bytes64_def put32_def overwrite_def bytes32_def get32_def)
  show ?thesis
    by (rule bit_word_eqI) (auto simp: get64_def lo hi bit_simps)
qed

lemma get32_header: "get32 (blk_header t sector) 0 = t"
  using get32_put32 [of 0 "blk_header t sector" t]
  by (simp add: blk_header_def bytes64_def put32_def overwrite_def bytes32_def get32_def)

interpretation ideal: virtio_disk "ideal_disk cap" "0x0a000000" "\<lambda>S. S" cap
proof
  fix q m w sector buffer status and S :: store
  assume "blk_chain q m w sector buffer status"
  then have "ideal_disk cap 0x0a000000 q m S = Some (0, q\<lparr>used_idx := used_idx q + 1\<rparr>,
      served_mem cap S w sector buffer status m, served_disk cap w sector (get_mem m buffer 512) S)"
    by (cases w) (simp_all add: ideal_disk_def blk_chain_def Let_def get64_header get32_header)
  moreover have "q\<lparr>used_idx := i\<rparr> = q\<lparr>used_idx := i, used_id := used_id q\<rparr>" for i by simp
  ultimately show "\<exists>polls ids v'. ideal_disk cap 0x0a000000 q m S = Some (polls, q\<lparr>used_idx := used_idx q + 1, used_id := ids\<rparr>,
      served_mem cap S w sector buffer status m, v') \<and> v' = served_disk cap w sector (get_mem m buffer 512) S"
    by metis
qed simp

section \<open>Properties\<close>

text \<open>
  C6: the block driver implements the block contract over any device that serves the virtio
  request chains: reads give the sector, writes store it, requests past the end fail and change
  nothing, no call spins, and the contract's invariant, which says the DMA arena pointer stays in
  range and every completion has been consumed, is kept.
\<close>

theorem virtio_blk_implements_block_device:
  assumes "virtio_disk service base disk cap"
  shows "block_device (blk_io service buffer) (virtio_disk.driver_ok base disk buffer) (\<lambda>(s, v). disk v) cap"
  by (rule virtio_disk.io_block_device [OF assms])

theorem virtio_blk_implements_block_device_witness:
  "block_device (blk_io (ideal_disk 200) 0x40200000) (virtio_disk.driver_ok 0x0a000000 (\<lambda>S. S) 0x40200000) (\<lambda>(s, v). v) 200"
  using virtio_blk_implements_block_device [OF ideal.virtio_disk_axioms, of 200 "0x40200000"] by simp

text \<open>
  Every block transfer gives the DMA arena back: the bump pointer is where it was before
  the call, on success and on failure.
\<close>

theorem blk_transfer_restores_arena:
  assumes "virtio_disk service base disk cap" "blk_ready base buffer s" "length (disk v sector) = 512"
  shows "\<exists>s' v'. blk_transfer service write sector buffer (s, v) = Inr (unat sector < cap, s', v')
    \<and> dma_heap_curr s' = dma_heap_curr s \<and> blk_ready base buffer s'"
  using virtio_disk.transfer [OF assms(1,2), of v sector "write"] assms(3) by blast

theorem blk_transfer_restores_arena_witness:
  "\<exists>s' v'. blk_transfer (ideal_disk 200) True 7 0x40200000
      (virtio_statics\<lparr>blk_mmio_base := 0x0a000000, dma_heap_curr := 0x50000000, blk_last_used_idx := 3,
         blk_q := (fresh_virtq 0x50000000)\<lparr>used_idx := 3\<rparr>\<rparr>, \<lambda>_. replicate 512 0) = Inr (True, s', v')
    \<and> dma_heap_curr s' = 0x50000000"
proof -
  let ?s = "virtio_statics\<lparr>blk_mmio_base := 0x0a000000, dma_heap_curr := 0x50000000, blk_last_used_idx := 3,
         blk_q := (fresh_virtq 0x50000000)\<lparr>used_idx := 3\<rparr>\<rparr>"
  have "blk_ready 0x0a000000 0x40200000 ?s" by (simp add: blk_ready_def)
  from blk_transfer_restores_arena [OF ideal.virtio_disk_axioms this, of "\<lambda>_. replicate 512 0" 7 200 True]
  show ?thesis by auto
qed

end
