(* ===== verification/Boot_Properties.thy ===== *)
theory Boot_Properties
  imports Boot Syscall_Properties Mmu_Properties Virtio_Net_Properties Virtio_Blk
begin

text \<open>
  What the serial driver promises over a line that drains, and what the machine looks like when the
  kernel drops to the user program.
\<close>

section \<open>The serial line\<close>

text \<open>
  A line: polling the flag register tells whether there is room for a character, at most \<open>bound\<close> polls
  in a row find the queue full, and a character written where there is room is sent after the others.
\<close>

locale uart_line =
  fixes u :: "'u uart" and ok :: "'u \<Rightarrow> bool" and room :: "'u \<Rightarrow> bool" and sent :: "'u \<Rightarrow> u32 list"
    and backlog :: "'u \<Rightarrow> nat" and bound :: nat
  assumes fr_law: "ok d \<Longrightarrow> UART0_FR u d = (fr, d') \<Longrightarrow> ok d' \<and> sent d' = sent d
      \<and> (if fr AND UART_FR_TXFF \<noteq> 0 then backlog d' < backlog d else room d')"
    and bound_law: "ok d \<Longrightarrow> backlog d \<le> bound"
    and write_law: "ok d \<Longrightarrow> room d \<Longrightarrow> ok (UART0_DR_write u v d) \<and> sent (UART0_DR_write u v d) = sent d @ [v]"
begin

lemma wait_ready:
  "ok d \<Longrightarrow> backlog d < fuel \<Longrightarrow> \<exists>d'. uart_wait u fuel d = Inr d' \<and> ok d' \<and> room d' \<and> sent d' = sent d"
proof (induction fuel arbitrary: d)
  case (Suc fuel)
  obtain fr d' where fr: "UART0_FR u d = (fr, d')" by fastforce
  note law = fr_law [OF Suc.prems(1) fr]
  show ?case
    using Suc.IH [of d'] Suc.prems(2) law fr by (cases "fr AND UART_FR_TXFF \<noteq> 0") auto
qed simp

lemma put_sends: "ok d \<Longrightarrow> bound < fuel \<Longrightarrow> \<exists>d'. uart_put u fuel c d = Inr d' \<and> ok d' \<and> sent d' = sent d @ [ucast c]"
  using wait_ready [of d fuel] bound_law [of d] write_law by (fastforce simp: uart_put_def)

lemma fold_put_sends:
  "ok d \<Longrightarrow> bound < fuel \<Longrightarrow> \<exists>d'. res_fold (uart_put u fuel) s d = Inr d' \<and> ok d' \<and> sent d' = sent d @ map ucast s"
proof (induction s arbitrary: d)
  case (Cons c s)
  obtain d1 where d1: "uart_put u fuel c d = Inr d1" "ok d1" "sent d1 = sent d @ [ucast c]"
    using put_sends [OF Cons.prems] by blast
  then show ?case using Cons.IH [OF d1(2) Cons.prems(2)] by simp
qed simp

end

text \<open>
  The PL011 as QEMU has it: a queue of sixteen characters that the line takes one of between two
  polls, what was put on the line, and the characters received.
\<close>

definition pl011 :: "(u32 list \<times> u32 list \<times> u8 list) uart" where
  "pl011 = \<lparr>UART0_FR = (\<lambda>(q, out, rx). ((if 16 \<le> length q then UART_FR_TXFF else 0) OR (if rx = [] then UART_FR_RXFE else 0), tl q, out, rx)),
     UART0_DR_read = (\<lambda>(q, out, rx). case rx of [] \<Rightarrow> (0, q, out, rx) | c # rx \<Rightarrow> (ucast c, q, out, rx)),
     UART0_DR_write = (\<lambda>v (q, out, rx). if length q < 16 then (q @ [v], out @ [v], rx) else (q, out, rx))\<rparr>"

lemma uart_flags:
  "UART_FR_TXFF = 32" "UART_FR_RXFE = 16"
  by (simp_all add: UART_FR_TXFF_def UART_FR_RXFE_def)

interpretation pl011: uart_line pl011 "\<lambda>(q, out, rx). length q \<le> 16" "\<lambda>(q, out, rx). length q < 16" "\<lambda>(q, out, rx). out"
  "\<lambda>(q, out, rx). if 16 \<le> length q then 1 else 0" 1
  by unfold_locales (auto simp: pl011_def uart_flags split: if_splits)

text \<open>What is received is what the kernel's drain finds.\<close>

lemma pl011_emits: "0 \<notin> set rx \<Longrightarrow> \<exists>q'. emits (uart_poll_rx pl011) (q, out, rx) rx (q', out, [])"
proof (induction rx arbitrary: q)
  case Nil
  have "uart_poll_rx pl011 (q, out, []) = (0, tl q, out, [])" by (simp add: uart_poll_rx_def pl011_def uart_flags)
  then show ?case by (blast intro: emits.quiet)
next
  case (Cons c rx)
  have byte: "(0xFF :: u32) = mask 8" by (simp add: mask_eq_exp_minus_1)
  have "(ucast (ucast c AND 0xFF :: u32) :: u8) = c" unfolding byte by (rule bit_word_eqI) (simp add: bit_simps)
  then have "uart_poll_rx pl011 (q, out, c # rx) = (c, tl q, out, rx)"
    by (auto simp: uart_poll_rx_def pl011_def uart_flags)
  then show ?case using Cons.IH [of "tl q"] Cons.prems by (auto intro: emits.more)
qed

text \<open>
  C26: printing never loses, reorders or adds a character and always returns: on a line whose queue
  drains within \<open>bound\<close> polls, \<^verbatim>\<open>uart_print\<close> sends exactly the characters of the string before its
  NUL, each of them when there was room for it.
\<close>

theorem uart_print_sends_string:
  assumes "uart_line u ok room sent backlog bound" "ok d" "bound < fuel" "terminated str"
  shows "\<exists>d'. uart_print u fuel str d = Inr d' \<and> ok d' \<and> sent d' = sent d @ map ucast (cstr str)"
  using uart_line.fold_put_sends [OF assms(1-3)] assms(4) by (simp add: uart_print_def)

theorem uart_print_sends_string_witness:
  "\<exists>q rx. uart_print pl011 2 (lit ''[BOOT] Executing ERET'' @ [0]) (replicate 16 0, [], []) = Inr (q, map of_char ''[BOOT] Executing ERET'', rx)"
proof -
  have t: "terminated (lit ''[BOOT] Executing ERET'' @ [0])" by (simp add: terminated_def)
  have "map ucast (cstr (lit ''[BOOT] Executing ERET'' @ [0])) = (map of_char ''[BOOT] Executing ERET'' :: u32 list)"
    by (simp add: lit_def cstr_def)
  moreover obtain q out rx where "uart_print pl011 2 (lit ''[BOOT] Executing ERET'' @ [0]) (replicate 16 0, [], []) = Inr (q, out, rx)"
    "out = map ucast (cstr (lit ''[BOOT] Executing ERET'' @ [0]))"
    using uart_print_sends_string [OF pl011.uart_line_axioms, of "(replicate 16 0, [], [])", OF _ _ t, of 2] by auto
  ultimately show ?thesis by metis
qed

section \<open>The machine at the drop to the user program\<close>

lemma print_field_all: "print_field io l v d = print_all io [lit l, uart_hex_string (ucast v), lit ''\<newline>''] d"
  by (simp add: print_field_def uart_print_hex_def)

lemma fs_fat32_init_effect:
  assumes "block_device io ok sec cap" "ok d" "0 < cap" "sec d 0 ! 510 = 0x55" "sec d 0 ! 511 = 0xAA"
  shows "\<exists>d'. fs_fat32_init io fs d = Inr (mount_bpb (sec d 0), d') \<and> ok d' \<and> sec d' = sec d"
proof -
  define d1 where "d1 = io_print io (lit ''[FS] Initializing FAT32 File System (Direct Mode)...\<newline>'') d"
  have d1: "ok d1" "sec d1 = sec d" using block_device.print_law [OF assms(1,2)] by (simp_all add: d1_def)
  then obtain d2 where d2: "io_read io 0 d1 = Inr (Some (sec d 0), d2)" "ok d2" "sec d2 = sec d"
    using block_device.read_law [OF assms(1) d1(1), of 0] assms(3) by auto
  show ?thesis
    using assms(4,5) d2 block_device.print_law [OF assms(1)] print_all_keeps [OF assms(1)]
    by (simp add: fs_fat32_init_def Let_def print_field_all flip: d1_def)
qed

lemma virtio_net_init_keeps:
  assumes "block_device io ok sec cap" "ok d"
  shows "ok (snd (virtio_net_init io reg L s d)) \<and> sec (snd (virtio_net_init io reg L s d)) = sec d"
  using assms(2) block_device.print_law [OF assms(1)]
  by (auto simp: virtio_net_init_def uart_print_hex_def Let_def split: option.split)

definition boot_banner :: "u8 list list" where
  "boot_banner =
     [lit ''\<newline>[BOOT] C Kernel Entry Point Reached.\<newline>'', lit ''[BOOT] Initializing MMU Tables...\<newline>'',
      lit ''[BOOT] MMU Online. Virtual Memory Active.\<newline>'', lit ''[BOOT] Probing VirtIO Devices...\<newline>'']"

text \<open>The framebuffers that probing maps.\<close>

fun framebuffers :: "hw_op list \<Rightarrow> (u64 \<times> u64) list" where
  "framebuffers [] = []"
| "framebuffers (Map_Framebuffer a n # es) = (a, n) # framebuffers es"
| "framebuffers (e # es) = framebuffers es"

lemma map_framebuffers_fold:
  "map_framebuffers L es m = fold (\<lambda>(a, n) m. mmu_map_framebuffer L a n m) (framebuffers es) m"
  by (induction es arbitrary: m rule: framebuffers.induct) (simp_all add: map_framebuffers_def)

lemma find_card_base: "find_card reg is s = Some base \<Longrightarrow> \<exists>i\<in>set is. base = slot_base i"
  by (induction "is") (auto split: if_splits)

lemma net_init_ok:
  assumes "net_base s = 0" "length (rx_desc s) = 8" "length (rx_avail_ring s) = 8" "last_used_idx s = 0"
    "net_base (fst (virtio_net_init io reg L s d)) \<noteq> 0"
  shows "net_ok (fst (virtio_net_init io reg L s d))"
proof (cases "find_card reg [0..<32] s")
  case None
  then show ?thesis using assms(1,5) by (simp add: virtio_net_init_def Let_def)
next
  case (Some base)
  have "base \<noteq> 0"
  proof
    assume "base = 0"
    then show False using Some assms(5) by (simp add: virtio_net_init_def Let_def)
  qed
  then show ?thesis using net_init_posts [OF Some _ assms(2-4), of io L d] by simp
qed

text \<open>What \<^verbatim>\<open>kernel_main\<close> leaves, part by part.\<close>

definition booted_tables :: "layout \<Rightarrow> virtio \<Rightarrow> virtio \<Rightarrow> mmu \<Rightarrow> mmu" where
  "booted_tables L s0 s1 t = map_framebuffers L (drop (length (ops s0)) (ops s1)) (mmu_init_tables L t)"

lemma kernel_main_runs:
  assumes "block_device io ok sec cap" "virtio_probe_and_init service reg (print_all io boot_banner sv) = Inr sv1" "ok sv1"
    "\<forall>sv. ok sv \<longrightarrow> ok (vm_init sv) \<and> sec (vm_init sv) = sec sv"
    "sec sv1 0 ! 510 = 0x55" "sec sv1 0 ! 511 = 0xAA" "0 < cap"
  obtains sv3 sv' where "kernel_main io service reg net_reg vm_init L NL entry stack m sv =
      Inr (m\<lparr>tables := booted_tables L (fst (print_all io boot_banner sv)) (fst sv1) (tables m),
             network := fst (virtio_net_init io net_reg NL (network m) sv1),
             kern := (kern m)\<lparr>vol := mount_bpb (sec sv1 0), watch := fst (watcher_init io (watch (kern m)) sv3)\<rparr>\<rparr>, sv')"
    "ok sv'" "sec sv' = sec sv1"
proof -
  obtain c sv2 where net: "virtio_net_init io net_reg NL (network m) sv1 = (c, sv2)" by (meson surj_pair)
  then have sv2: "ok sv2" "sec sv2 = sec sv1" using virtio_net_init_keeps [OF assms(1,3), of net_reg NL "network m"] by simp_all
  define sv3 where "sv3 = io_print io (lit ''[BOOT] VirtIO Initialization Complete.\<newline>'') sv2"
  have sv3: "ok sv3" "sec sv3 = sec sv1" using block_device.print_law [OF assms(1) sv2(1)] sv2(2) by (simp_all add: sv3_def)
  then obtain sv4 where fs: "fs_fat32_init io (vol (kern m)) sv3 = Inr (mount_bpb (sec sv1 0), sv4)" "ok sv4" "sec sv4 = sec sv1"
    using fs_fat32_init_effect [OF assms(1) sv3(1), of "vol (kern m)"] sv3(2) assms(5-7) by auto
  have vm: "ok (vm_init sv4)" "sec (vm_init sv4) = sec sv1"
    using assms(4) [rule_format, OF fs(2)] fs(3) by simp_all
  obtain w sv5 where w: "watcher_init io (watch (kern m)) (vm_init sv4) = (w, sv5)" by (meson surj_pair)
  have sv5: "ok sv5" "sec sv5 = sec sv1"
    using w block_device.print_law [OF assms(1) vm(1)] vm(2) by (auto simp: watcher_init_def)
  have banner: "print_all io [b1, b2] (print_all io [a1, a2] sv) = print_all io [a1, a2, b1, b2] sv" for a1 a2 b1 b2
    by simp
  have "\<exists>sv'. kernel_main io service reg net_reg vm_init L NL entry stack m sv =
      Inr (m\<lparr>tables := booted_tables L (fst (print_all io boot_banner sv)) (fst sv1) (tables m), network := c,
             kern := (kern m)\<lparr>vol := mount_bpb (sec sv1 0), watch := w\<rparr>\<rparr>, sv') \<and> ok sv' \<and> sec sv' = sec sv1"
    unfolding kernel_main_def Let_def banner boot_banner_def [symmetric] assms(2) res_bind.simps
    by (simp add: net fs w sv5 booted_tables_def block_device.print_law [OF assms(1)] flip: sv3_def)
  then show ?thesis using that [of "vm_init sv4"] net w by auto
qed


text \<open>A board with one device, a disk in the first slot, with a fresh volume on it.\<close>

definition disk_board :: "u64 \<Rightarrow> u32" where
  "disk_board a = (if a = 0x0a000000 then 0x74726976 else if a = 0x0a000004 then 1 else if a = 0x0a000008 then 2 else 0)"

definition boot_disk :: store where
  "boot_disk = tiny_disk(0 := tiny_boot)"

lemma disk_board_probe:
  "\<exists>s. virtio_probe_and_init (ideal_disk 200) disk_board (virtio_statics, boot_disk) = Inr (s, boot_disk)
    \<and> blk_ready 0x0a000000 0x40200000 s \<and> framebuffers (ops s) = []"
proof -
  have skip: "probe_slot (ideal_disk 200) disk_board i sv = Inr sv" if "i \<in> set [1..<32]" for i sv
  proof -
    have "unat (of_nat i * 0x200 :: u64) = i * 0x200"
      using that by (simp add: unat_word_ariths unat_of_nat take_bit_nat_eq_self)
    then have "(of_nat i * 0x200 :: u64) \<noteq> 0" using that by (metis unat_0 mult_eq_0_iff not_less_eq_eq One_nat_def atLeastLessThan_iff set_upt zero_le zero_neq_numeral)
    then have "disk_board (0x0a000000 + of_nat i * 0x200) \<noteq> 0x74726976" by (simp add: disk_board_def)
    then show ?thesis by (simp add: probe_slot_def Let_def split: prod.split)
  qed
  have rest: "probe_slots (ideal_disk 200) disk_board is sv = Inr sv" if "set is \<subseteq> set [1..<32]" for "is" sv
    using that by (induction "is" arbitrary: sv) (simp_all add: skip)
  have "probe_slots (ideal_disk 200) disk_board [Suc 0..<32] = Inr" by (rule ext, rule rest) simp
  then have "virtio_probe_and_init (ideal_disk 200) disk_board (virtio_statics, boot_disk)
      = probe_slot (ideal_disk 200) disk_board 0 (virtio_statics, boot_disk)"
    by (simp add: virtio_probe_and_init_def upt_rec [of 0])
  also have "\<dots> = Inr (virtio_blk_init disk_board 0x0a000000 1 virtio_statics, boot_disk)"
    by (simp add: probe_slot_def disk_board_def Let_def)
  finally show ?thesis
    by (simp add: virtio_blk_init_def setup_virtqueue_def reg_writes_def reg_write_def queue_registers_def bump_allocate_def
        align_up_def emit_def virtio_statics_def blk_ready_def Let_def fresh_virtq_def virtq_total_def virtq_desc_size_def
        virtq_avail_size_def virtq_used_size_def virtq_pad_def)
qed

definition cold_machine :: machine where
  "cold_machine = \<lparr>tables = no_tables, network = (sample_net [] 0)\<lparr>net_base := 0\<rparr>,
     kern = \<lparr>mail = empty_mailbox, watch = bss_watcher, vol = tiny_fs\<rparr>\<rparr>"

abbreviation board_io :: "(virtio \<times> store) io" where
  "board_io \<equiv> blk_io (ideal_disk 200) 0x40200000"

abbreviation board_ok :: "virtio \<times> store \<Rightarrow> bool" where
  "board_ok \<equiv> virtio_disk.driver_ok 0x0a000000 (\<lambda>S. S) 0x40200000"

lemma board_device: "block_device board_io board_ok (\<lambda>(s, v). v) 200"
  by (rule ideal.io_block_device)

lemma board_quiet: "print_all board_io ss sv = sv"
  by (induction ss arbitrary: sv) (simp_all add: blk_io_def)

lemma boot_disk_sectors: "boot_disk 0 = tiny_boot" "store_wf boot_disk"
  using tiny_ok tiny_boot_fields(9) by (simp_all add: boot_disk_def)

lemma board_probed:
  obtains s where "virtio_probe_and_init (ideal_disk 200) disk_board (print_all board_io boot_banner (virtio_statics, boot_disk)) = Inr (s, boot_disk)"
    "board_ok (s, boot_disk)" "framebuffers (ops s) = []"
  using disk_board_probe boot_disk_sectors(2) by (auto simp: board_quiet ideal.driver_ok_def)


end
