(* ===== verification/Virtio_Gpu.thy ===== *)
theory Virtio_Gpu
  imports Virtio_Lemmas
begin

text \<open>
  The display driver and the arena: with a display that completes its requests, every command and the
  whole of \<^verbatim>\<open>gpu_init\<close> return, leave the block driver's state alone and take a bounded part of the arena.
\<close>

section \<open>Displays that complete their requests\<close>

text \<open>\<open>disk\<close> is the part of the devices' state that the display has no business with.\<close>

definition display :: "'v service \<Rightarrow> u64 \<Rightarrow> ('v \<Rightarrow> 'a) \<Rightarrow> bool" where
  "display service base disk \<longleftrightarrow> (\<forall>q m v. \<exists>polls q' m' v'. service base q m v = Some (polls, q', m', v')
     \<and> used_idx q' = used_idx q + 1 \<and> disk v' = disk v)"

text \<open>One that completes without doing anything.\<close>

definition mute :: "'v service" where
  "mute base q m v = Some (0, q\<lparr>used_idx := used_idx q + 1\<rparr>, m, v)"

lemma mute_display: "display mute base f"
  by (simp add: display_def mute_def)

text \<open>The driver has seen all completions.\<close>

definition in_step :: "virtio \<Rightarrow> bool" where
  "in_step s \<longleftrightarrow> used_idx (gpu_q s) = gpu_last_used_idx s"

definition kept :: "virtio \<Rightarrow> virtio \<Rightarrow> bool" where
  "kept s s' \<longleftrightarrow> blk_mmio_base s' = blk_mmio_base s \<and> blk_q s' = blk_q s \<and> blk_last_used_idx s' = blk_last_used_idx s
     \<and> gpu_mmio_base s' = gpu_mmio_base s"

text \<open>What has happened between two points of an initialisation: at most \<open>n\<close> bytes of the arena are taken.\<close>

definition grown :: "('v \<Rightarrow> 'a) \<Rightarrow> nat \<Rightarrow> virtio \<times> 'v \<Rightarrow> virtio \<times> 'v \<Rightarrow> bool" where
  "grown disk n = (\<lambda>(s, v) (s', v'). in_step s' \<and> kept s s' \<and> disk v' = disk v
     \<and> unat (dma_heap_curr s) \<le> unat (dma_heap_curr s') \<and> unat (dma_heap_curr s') \<le> unat (dma_heap_curr s) + n)"

lemma grown_trans: "grown disk n x y \<Longrightarrow> grown disk k y z \<Longrightarrow> grown disk (n + k) x z"
  by (cases x, cases y, cases z) (auto simp: grown_def kept_def)

lemma grown_mono: "grown disk n x y \<Longrightarrow> n \<le> k \<Longrightarrow> grown disk k x y"
  by (cases x, cases y) (auto simp: grown_def)

lemma bump_room:
  assumes "unat al = 2 ^ j" "j < 32" "unat (dma_heap_curr s) + 2 ^ j + unat n \<le> 2 ^ 62"
  obtains a s' where "bump_allocate n al s = (a, s')" "kept s s'" "mem s' = zero_mem (mem s) a n" "in_step s' \<longleftrightarrow> in_step s"
    "unat (dma_heap_curr s') = unat a + unat n" "unat (dma_heap_curr s) \<le> unat a" "unat a \<le> unat (dma_heap_curr s) + 2 ^ j"
proof -
  let ?a = "align_up (dma_heap_curr s) al"
  have a: "unat (dma_heap_curr s) \<le> unat ?a" "unat ?a < unat (dma_heap_curr s) + 2 ^ j"
    using align_up_props(1,2) [OF assms(1,2), of "dma_heap_curr s"] assms(3) by simp_all
  then have "unat (?a + ucast n) = unat ?a + unat n" using assms(3) by (simp add: unat_word_ariths)
  then show ?thesis using that a by (simp add: bump_allocate_def Let_def kept_def in_step_def)
qed

lemma bump8_room:
  assumes "unat (dma_heap_curr s) + 8 + unat n \<le> 2 ^ 62"
  obtains a s' where "bump_allocate n 8 s = (a, s')" "kept s s'" "mem s' = zero_mem (mem s) a n" "in_step s' \<longleftrightarrow> in_step s"
    "unat (dma_heap_curr s') = unat a + unat n" "unat (dma_heap_curr s) \<le> unat a" "unat a \<le> unat (dma_heap_curr s) + 8"
  by (rule bump_room [of 8 3 s n]) (use assms in simp_all)

lemma send_returns:
  assumes "display service (gpu_mmio_base s) disk" "in_step s"
  obtains r s' v' where "send_gpu_command service a m b n (s, v) = Inr (r, s', v')" "in_step s'" "kept s s'" "disk v' = disk v"
    "dma_heap_curr s' = dma_heap_curr s"
proof -
  let ?q = "\<lambda>d e. (set_avail (avail_idx (gpu_q s)) d (set_desc e \<lparr>addr = b, len = n, flags = VIRTQ_DESC_F_WRITE, next_desc = 0\<rparr>
      (set_desc d \<lparr>addr = a, len = m, flags = VIRTQ_DESC_F_NEXT, next_desc = e\<rparr> (gpu_q s))))\<lparr>avail_idx := avail_idx (gpu_q s) + 1\<rparr>"
  obtain polls q' m' v' where dev: "service (gpu_mmio_base s) (?q (global_desc_idx s mod 256) ((global_desc_idx s + 1) mod 256)) (mem s) v
      = Some (polls, q', m', v')" "used_idx q' = gpu_last_used_idx s + 1" "disk v' = disk v"
    using assms by (force simp: display_def in_step_def set_avail_def set_desc_def)
  then show ?thesis
    using that
    by (simp add: send_gpu_command_def take_desc_def cache_flush_def cache_invalidate_def reg_write_def emit_def Let_def await_def
        in_step_def set_avail_def set_desc_def kept_def)
qed

lemma command_returns:
  assumes "display service (gpu_mmio_base s) disk" "in_step s" "unat (dma_heap_curr s) + 40 + unat n \<le> 2 ^ 62"
  obtains y where "gpu_command service n words (s, v) = Inr y" "grown disk (40 + unat n) (s, v) y"
proof -
  obtain req s1 where b1: "bump_allocate n 8 s = (req, s1)" "kept s s1" "in_step s1 \<longleftrightarrow> in_step s"
    "unat (dma_heap_curr s1) = unat req + unat n" "unat (dma_heap_curr s) \<le> unat req" "unat req \<le> unat (dma_heap_curr s) + 8"
    by (rule bump8_room [of s n]) (use assms(3) in simp_all)
  then obtain resp s2 where b2: "bump_allocate 24 8 s1 = (resp, s2)" "kept s1 s2" "in_step s2 \<longleftrightarrow> in_step s1"
    "unat (dma_heap_curr s2) = unat resp + 24" "unat (dma_heap_curr s1) \<le> unat resp" "unat resp \<le> unat (dma_heap_curr s1) + 8"
    using assms(3) by (auto intro: bump8_room [of s1 24])
  let ?s = "s2\<lparr>mem := put_words req words (mem s2)\<rparr>"
  have "display service (gpu_mmio_base ?s) disk" "in_step ?s"
    using assms(1,2) b1(2,3) b2(2,3) by (simp_all add: kept_def in_step_def)
  then obtain r s' v' where "send_gpu_command service req n resp 24 (?s, v) = Inr (r, s', v')" "in_step s'" "kept ?s s'" "disk v' = disk v"
    "dma_heap_curr s' = dma_heap_curr s2"
    by (rule send_returns [of service ?s disk req n resp 24 v]) simp
  then show ?thesis
    using that [of "(s', v')"] b1(1,2,4-6) b2(1,2,4-6) by (auto simp: gpu_command_def grown_def kept_def)
qed

text \<open>A command further on.\<close>

lemma command_from:
  assumes "grown disk c (s, v) (t, u)" "display service (gpu_mmio_base s) disk" "unat (dma_heap_curr s) + c + 40 + unat n \<le> 2 ^ 62"
  obtains t' u' where "gpu_command service n words (t, u) = Inr (t', u')" "grown disk (c + (40 + unat n)) (s, v) (t', u')"
proof -
  have "display service (gpu_mmio_base t) disk" "in_step t" "unat (dma_heap_curr t) + 40 + unat n \<le> 2 ^ 62"
    using assms by (auto simp: grown_def kept_def)
  then obtain y where "gpu_command service n words (t, u) = Inr y" "grown disk (40 + unat n) (t, u) y"
    by (rule command_returns [of service t disk n words u])
  then show ?thesis using that grown_trans [OF assms(1)] by (cases y) auto
qed

lemma grown_pure:
  assumes "grown disk c x (t, u)"
  shows "grown disk c x (t\<lparr>mem := m\<rparr>, u)" "grown disk c x (emit e t, u)" "grown disk c x (t\<lparr>active_fb_phys := p\<rparr>, u)"
    "grown disk c x (t\<lparr>active_fb_width := w, active_fb_height := h, active_fb_size := k\<rparr>, u)"
  using assms by (auto simp: grown_def kept_def in_step_def emit_def)

lemma show_returns:
  assumes "grown disk c (s, v) (t, u)" "display service (gpu_mmio_base s) disk" "unat (dma_heap_curr s) + c + 2 ^ 33 \<le> 2 ^ 62"
  obtains t' u' where "gpu_show service w h (t, u) = Inr (t', u')" "grown disk (c + 2 ^ 32 + 5000) (s, v) (t', u')"
proof -
  let ?n = "w * h * 4" and ?b = "unat (dma_heap_curr s)"
  have n: "unat ?n < 2 ^ LENGTH(32)" by (rule unsigned_less)
  let ?t = "t\<lparr>active_fb_width := w, active_fb_height := h, active_fb_size := ?n\<rparr>"
  obtain t1 u1 where c1: "gpu_command service 40 (create_words w h) (?t, u) = Inr (t1, u1)" "grown disk (c + 80) (s, v) (t1, u1)"
    by (rule command_from [OF grown_pure(4) [OF assms(1)] assms(2), of 40]) (use assms(3) in simp_all)
  then have d: "unat (dma_heap_curr t1) \<le> ?b + c + 80" "?b \<le> unat (dma_heap_curr t1)" by (auto simp: grown_def)
  obtain fb t2 where c2: "bump_allocate ?n 4096 t1 = (fb, t2)" "kept t1 t2" "in_step t2 \<longleftrightarrow> in_step t1"
    "unat (dma_heap_curr t2) = unat fb + unat ?n" "unat (dma_heap_curr t1) \<le> unat fb" "unat fb \<le> unat (dma_heap_curr t1) + 2 ^ 12"
    by (rule bump_room [of 4096 12 t1 ?n]) (use assms(3) d n in simp_all)
  have "grown disk (c + 80 + (2 ^ 12 + 2 ^ 32)) (s, v) (t2, u1)"
    using c1(2) c2(2-6) n by (auto simp: grown_def kept_def)
  then obtain t3 u3 where c3: "gpu_command service 48 (attach_words fb ?n) (t2\<lparr>active_fb_phys := fb\<rparr>, u1) = Inr (t3, u3)"
    "grown disk (c + 80 + (2 ^ 12 + 2 ^ 32) + 88) (s, v) (t3, u3)"
    by (rule command_from [OF grown_pure(3) assms(2), of _ v t2 u1 48]) (use assms(3) in simp_all)
  obtain t4 u4 where c4: "gpu_command service 48 (scanout_words w h) (emit (Map_Framebuffer fb (ucast ?n)) t3, u3) = Inr (t4, u4)"
    "grown disk (c + 80 + (2 ^ 12 + 2 ^ 32) + 88 + 88) (s, v) (t4, u4)"
    by (rule command_from [OF grown_pure(2) [OF c3(2)] assms(2), of 48]) (use assms(3) in simp_all)
  let ?t4 = "cache_flush fb ?n (t4\<lparr>mem := fill_pixels fb ?n 0xFF0000FF (mem t4)\<rparr>)"
  obtain t5 u5 where c5: "gpu_command service 56 (transfer_words w h) (?t4, u4) = Inr (t5, u5)"
    "grown disk (c + 80 + (2 ^ 12 + 2 ^ 32) + 88 + 88 + 96) (s, v) (t5, u5)"
    unfolding cache_flush_def
    by (rule command_from [OF grown_pure(2) [OF grown_pure(1) [OF c4(2)]] assms(2), of 56]) (use assms(3) in simp_all)
  obtain t6 u6 where c6: "gpu_command service 48 (flush_words w h) (t5, u5) = Inr (t6, u6)"
    "grown disk (c + 80 + (2 ^ 12 + 2 ^ 32) + 88 + 88 + 96 + 88) (s, v) (t6, u6)"
    by (rule command_from [OF c5(2) assms(2), of 48]) (use assms(3) in simp_all)
  show ?thesis
    by (rule that [of t6 u6]) (use c1(1) c2(1) c3(1) c4(1) c5(1) c6 in \<open>simp_all add: gpu_show_def Let_def grown_mono\<close>)
qed

text \<open>\<^verbatim>\<open>gpu_init\<close> returns.\<close>

lemma init_returns:
  assumes "display service (gpu_mmio_base s) disk" "in_step s" "unat (dma_heap_curr s) + 2 ^ 34 \<le> 2 ^ 62"
  obtains s' v' where "gpu_init service (s, v) = Inr (s', v')" "grown disk (2 ^ 33) (s, v) (s', v')"
proof -
  obtain req s1 where b1: "bump_allocate 24 8 s = (req, s1)" "kept s s1" "in_step s1 \<longleftrightarrow> in_step s"
    "unat (dma_heap_curr s1) = unat req + 24" "unat (dma_heap_curr s) \<le> unat req" "unat req \<le> unat (dma_heap_curr s) + 8"
    by (rule bump8_room [of s 24]) (use assms(3) in simp_all)
  then obtain resp s2 where b2: "bump_allocate 408 8 s1 = (resp, s2)" "kept s1 s2" "in_step s2 \<longleftrightarrow> in_step s1"
    "unat (dma_heap_curr s2) = unat resp + 408" "unat (dma_heap_curr s1) \<le> unat resp" "unat resp \<le> unat (dma_heap_curr s1) + 8"
    using assms(3) by (auto intro: bump8_room [of s1 408])
  let ?s = "s2\<lparr>mem := put_mem (mem s2) req (bytes32 VIRTIO_GPU_CMD_GET_DISPLAY_INFO)\<rparr>"
  have "display service (gpu_mmio_base ?s) disk" "in_step ?s"
    using assms(1,2) b1(2,3) b2(2,3) by (simp_all add: kept_def in_step_def)
  then obtain r s3 v3 where c: "send_gpu_command service req 24 resp 408 (?s, v) = Inr (r, s3, v3)" "in_step s3" "kept ?s s3" "disk v3 = disk v"
    "dma_heap_curr s3 = dma_heap_curr s2"
    by (rule send_returns [of service ?s disk req 24 resp 408 v]) simp
  then have g: "grown disk 448 (s, v) (s3, v3)" using b1 b2 by (auto simp: grown_def kept_def)
  let ?w = "load32 (mem s3) (resp + 32)" and ?h = "load32 (mem s3) (resp + 36)"
  obtain w h where wh: "(if ?w = 0 \<or> ?h = 0 then (1280, 800) else (?w, ?h)) = (w, h)" by (metis surj_pair)
  obtain s4 v4 where "gpu_show service w h (s3, v3) = Inr (s4, v4)" "grown disk (448 + 2 ^ 32 + 5000) (s, v) (s4, v4)"
    by (rule show_returns [OF g assms(1), of w h]) (use assms(3) in simp_all)
  then show ?thesis
    using that [of s4 v4] wh by (simp add: gpu_init_def b1(1) b2(1) c(1) Let_def grown_mono)
qed

end
