(* ===== verification/Virtio_Probe.thy ===== *)
theory Virtio_Probe
  imports Virtio_Gpu Virtio_Blk
begin

text \<open>
  Probing a whole board: 32 slots with at most one block device and at most one display, whatever else
  they hold.
\<close>

section \<open>Boards\<close>

definition mmio_slot :: "nat \<Rightarrow> u64" where
  "mmio_slot i = VIRTIO_MMIO_BASE + of_nat i * VIRTIO_MMIO_SLOT_SIZE"

text \<open>The device number the driver goes by; 0 for an empty slot.\<close>

definition device_in :: "(u64 \<Rightarrow> u32) \<Rightarrow> nat \<Rightarrow> u32" where
  "device_in reg i = (if reg (mmio_slot i) = VIRTIO_MAGIC then reg (mmio_slot i + 0x008) else 0)"

text \<open>
  What the slots in \<open>done\<close> have left: the block driver waits for its first completion at the slot of the
  block device, and the arena has room for the rest.
\<close>

definition probed :: "('v \<Rightarrow> 'a) \<Rightarrow> nat \<Rightarrow> nat \<Rightarrow> virtio \<times> 'v \<Rightarrow> nat set \<Rightarrow> virtio \<times> 'v \<Rightarrow> bool" where
  "probed disk j g = (\<lambda>(s0, v0) don (s, v). disk v = disk v0 \<and> blk_last_used_idx s = 0 \<and> (g \<notin> don \<longrightarrow> gpu_last_used_idx s = 0)
     \<and> (j \<in> don \<longrightarrow> blk_mmio_base s = mmio_slot j \<and> used_idx (blk_q s) = 0)
     \<and> unat (dma_heap_curr s0) \<le> unat (dma_heap_curr s)
     \<and> unat (dma_heap_curr s) \<le> unat (dma_heap_curr s0) + card don * 2 ^ 34)"

lemma reg_writes_ops: "reg_writes rs s = s\<lparr>ops := ops s @ map (\<lambda>(a, v). Reg_Write a v) rs\<rparr>"
  unfolding reg_writes_def by (induction rs arbitrary: s) (auto simp: reg_write_def emit_def)

lemmas tells = reg_writes_ops reg_write_def cache_flush_def emit_def

lemma begin_device_ops: "\<exists>es. begin_device reg base s = s\<lparr>ops := ops s @ es\<rparr>"
  by (auto simp: begin_device_def reg_writes_ops Let_def)

lemma setup_virtqueue_effect:
  assumes "unat (dma_heap_curr s) + 2 ^ 14 \<le> 2 ^ 62"
  obtains es m a where "setup_virtqueue base version s = (fresh_virtq a, s\<lparr>dma_heap_curr := a + ucast virtq_total, mem := m, ops := ops s @ es\<rparr>)"
    "unat (dma_heap_curr s) \<le> unat a" "unat (a + ucast virtq_total) \<le> unat (dma_heap_curr s) + 2 ^ 14"
    "unat a \<le> unat (a + ucast virtq_total)"
proof -
  have t: "unat virtq_total = 10246"
    by (simp add: virtq_total_def virtq_desc_size_def virtq_avail_size_def virtq_pad_def virtq_used_size_def)
  let ?a = "align_up (dma_heap_curr s) 4096"
  have a: "unat (dma_heap_curr s) \<le> unat ?a" "unat ?a < unat (dma_heap_curr s) + 4096"
    using align_up_props(1,2) [of 4096 12 "dma_heap_curr s"] assms by simp_all
  then have "unat (?a + ucast virtq_total) = unat ?a + 10246" using assms t by (simp add: unat_word_ariths)
  then show ?thesis
    using that [of ?a] a by (simp add: setup_virtqueue_def bump_allocate_def reg_writes_ops Let_def)
qed

lemma probe_skips:
  assumes "device_in reg i \<notin> {2, 16, 18}"
  shows "probe_slot service reg i sv = Inr sv"
  using assms by (cases sv) (auto simp: probe_slot_def device_in_def mmio_slot_def Let_def split: if_splits)

lemma probe_blk:
  assumes "probed disk j g sv0 don (s, v)" "device_in reg j = 2" "finite don" "j \<notin> don" "unat (dma_heap_curr s) + 2 ^ 14 \<le> 2 ^ 62"
  shows "\<exists>y. probe_slot service reg j (s, v) = Inr y \<and> probed disk j g sv0 (insert j don) y"
proof -
  have dev: "reg (mmio_slot j) = VIRTIO_MAGIC" "reg (mmio_slot j + 0x008) = 2" using assms(2) by (auto simp: device_in_def split: if_splits)
  let ?s = "reg_writes [(mmio_slot j + VIRTIO_REG_STATUS, 0), (mmio_slot j + VIRTIO_REG_STATUS, VIRTIO_STATUS_ACKNOWLEDGE OR VIRTIO_STATUS_DRIVER)]
    (s\<lparr>blk_mmio_base := mmio_slot j\<rparr>)"
  have "unat (dma_heap_curr ?s) + 2 ^ 14 \<le> 2 ^ 62" using assms(5) by (simp add: reg_writes_ops)
  then obtain es m a where q: "setup_virtqueue (mmio_slot j) (reg (mmio_slot j + 0x004)) ?s = (fresh_virtq a, ?s\<lparr>dma_heap_curr := a + ucast virtq_total, mem := m, ops := ops ?s @ es\<rparr>)"
    "unat (dma_heap_curr ?s) \<le> unat a" "unat (a + ucast virtq_total) \<le> unat (dma_heap_curr ?s) + 2 ^ 14" "unat a \<le> unat (a + ucast virtq_total)"
    by (rule setup_virtqueue_effect)
  show ?thesis
    using assms(1,3,4) dev q
    by (cases sv0) (auto simp: probe_slot_def virtio_blk_init_def Let_def mmio_slot_def [symmetric] tells probed_def fresh_virtq_def)
qed

lemma input_device_effect:
  assumes "unat (dma_heap_curr s) + 2 ^ 15 \<le> 2 ^ 62"
  shows "blk_mmio_base (input_device_init reg base s) = blk_mmio_base s" "blk_q (input_device_init reg base s) = blk_q s"
    "blk_last_used_idx (input_device_init reg base s) = blk_last_used_idx s"
    "gpu_last_used_idx (input_device_init reg base s) = gpu_last_used_idx s"
    "unat (dma_heap_curr s) \<le> unat (dma_heap_curr (input_device_init reg base s))"
    "unat (dma_heap_curr (input_device_init reg base s)) \<le> unat (dma_heap_curr s) + 2 ^ 15"
proof -
  obtain es1 where b: "begin_device reg base (s\<lparr>input_mmio_base := base\<rparr>) = s\<lparr>input_mmio_base := base, ops := ops s @ es1\<rparr>"
    using begin_device_ops [of reg base "s\<lparr>input_mmio_base := base\<rparr>"] by auto
  let ?s = "s\<lparr>input_mmio_base := base, ops := ops s @ es1\<rparr>"
  have "unat (dma_heap_curr ?s) + 2 ^ 14 \<le> 2 ^ 62" using assms by simp
  then obtain es m a where q: "setup_virtqueue base (reg (base + 0x004)) ?s = (fresh_virtq a, ?s\<lparr>dma_heap_curr := a + ucast virtq_total, mem := m, ops := ops ?s @ es\<rparr>)"
    "unat (dma_heap_curr ?s) \<le> unat a" "unat (a + ucast virtq_total) \<le> unat (dma_heap_curr ?s) + 2 ^ 14" "unat a \<le> unat (a + ucast virtq_total)"
    by (rule setup_virtqueue_effect)
  let ?s2 = "?s\<lparr>dma_heap_curr := a + ucast virtq_total, mem := m, ops := ops ?s @ es\<rparr>"
  obtain e s3 where e: "bump_allocate (8 * 256) 8 ?s2 = (e, s3)" "unat (dma_heap_curr s3) = unat e + 2048" "unat (dma_heap_curr ?s2) \<le> unat e"
      "unat e \<le> unat (dma_heap_curr ?s2) + 8"
    by (rule bump8_room [of ?s2 "8 * 256"]) (use assms q in simp_all)
  have s3: "blk_mmio_base s3 = blk_mmio_base s" "blk_q s3 = blk_q s" "blk_last_used_idx s3 = blk_last_used_idx s" "gpu_last_used_idx s3 = gpu_last_used_idx s"
    using e(1) by (auto simp: bump_allocate_def Let_def)
  note defs = input_device_init_def b q(1) e(1) [simplified] Let_def tells
  show "blk_mmio_base (input_device_init reg base s) = blk_mmio_base s" "blk_q (input_device_init reg base s) = blk_q s"
    "blk_last_used_idx (input_device_init reg base s) = blk_last_used_idx s"
    "gpu_last_used_idx (input_device_init reg base s) = gpu_last_used_idx s"
    "unat (dma_heap_curr s) \<le> unat (dma_heap_curr (input_device_init reg base s))"
    "unat (dma_heap_curr (input_device_init reg base s)) \<le> unat (dma_heap_curr s) + 2 ^ 15"
    using s3 e(2-4) q(2-4) by (simp_all add: defs)
qed

lemma probe_input:
  assumes "probed disk j g sv0 don (s, v)" "device_in reg i = 18" "finite don" "i \<notin> don" "i \<noteq> j" "unat (dma_heap_curr s) + 2 ^ 15 \<le> 2 ^ 62"
  shows "\<exists>y. probe_slot service reg i (s, v) = Inr y \<and> probed disk j g sv0 (insert i don) y"
proof -
  have "reg (mmio_slot i) = VIRTIO_MAGIC" "reg (mmio_slot i + 0x008) = 18" using assms(2) by (auto simp: device_in_def split: if_splits)
  then have run: "probe_slot service reg i (s, v) = Inr (input_device_init reg (mmio_slot i) s, v)"
    by (simp add: probe_slot_def mmio_slot_def [symmetric] Let_def)
  show ?thesis
    unfolding run using assms(1,3-5) input_device_effect [OF assms(6), of reg "mmio_slot i"]
    by (cases sv0) (auto simp: probed_def)
qed

lemma probe_gpu:
  assumes "probed disk j g sv0 don (s, v)" "device_in reg g = 16" "finite don" "g \<notin> don" "g \<noteq> j" "unat (dma_heap_curr s) + 2 ^ 35 \<le> 2 ^ 62"
    "display service (mmio_slot g) disk"
  shows "\<exists>y. probe_slot service reg g (s, v) = Inr y \<and> probed disk j g sv0 (insert g don) y"
proof -
  let ?base = "mmio_slot g"
  have dev: "reg ?base = VIRTIO_MAGIC" "reg (?base + 0x008) = 16" using assms(2) by (auto simp: device_in_def split: if_splits)
  obtain es1 where b: "begin_device reg ?base (s\<lparr>gpu_mmio_base := ?base\<rparr>) = s\<lparr>gpu_mmio_base := ?base, ops := ops s @ es1\<rparr>"
    using begin_device_ops [of reg ?base "s\<lparr>gpu_mmio_base := ?base\<rparr>"] by auto
  let ?s = "s\<lparr>gpu_mmio_base := ?base, ops := ops s @ es1\<rparr>"
  have "unat (dma_heap_curr ?s) + 2 ^ 14 \<le> 2 ^ 62" using assms(6) by simp
  then obtain es m a where q: "setup_virtqueue ?base (reg (?base + 0x004)) ?s = (fresh_virtq a, ?s\<lparr>dma_heap_curr := a + ucast virtq_total, mem := m, ops := ops ?s @ es\<rparr>)"
    "unat (dma_heap_curr ?s) \<le> unat a" "unat (a + ucast virtq_total) \<le> unat (dma_heap_curr ?s) + 2 ^ 14" "unat a \<le> unat (a + ucast virtq_total)"
    by (rule setup_virtqueue_effect)
  let ?s2 = "reg_write (?base + VIRTIO_REG_STATUS) (reg (?base + VIRTIO_REG_STATUS) OR VIRTIO_STATUS_DRIVER_OK)
    (?s\<lparr>dma_heap_curr := a + ucast virtq_total, mem := m, ops := ops ?s @ es, gpu_q := fresh_virtq a\<rparr>)"
  have "gpu_last_used_idx s = 0" using assms(1,4) by (cases sv0) (auto simp: probed_def)
  then have "display service (gpu_mmio_base ?s2) disk" "in_step ?s2" "unat (dma_heap_curr ?s2) + 2 ^ 34 \<le> 2 ^ 62"
    using assms(6,7) q by (simp_all add: tells in_step_def fresh_virtq_def)
  then obtain s' v' where init: "gpu_init service (?s2, v) = Inr (s', v')" "grown disk (2 ^ 33) (?s2, v) (s', v')"
    by (rule init_returns [of service ?s2 disk v])
  then show ?thesis
    using assms(1,3-5) dev q b
    by (cases sv0) (auto simp: probe_slot_def gpu_device_init_def Let_def mmio_slot_def [symmetric] probed_def grown_def kept_def tells)
qed

section \<open>The whole board\<close>

text \<open>At most one block device, in slot \<open>j\<close>, and at most one display, in slot \<open>g\<close>; any number of the rest.\<close>

definition board :: "(u64 \<Rightarrow> u32) \<Rightarrow> nat \<Rightarrow> nat \<Rightarrow> bool" where
  "board reg j g \<longleftrightarrow> j < 32 \<and> device_in reg j = 2 \<and> (\<forall>i<32. (device_in reg i = 2 \<longrightarrow> i = j) \<and> (device_in reg i = 16 \<longrightarrow> i = g))"

lemma boardD:
  assumes "board reg j g"
  shows "j < 32" "device_in reg j = 2" "i < 32 \<Longrightarrow> device_in reg i = 2 \<Longrightarrow> i = j" "i < 32 \<Longrightarrow> device_in reg i = 16 \<Longrightarrow> i = g"
  using assms unfolding board_def by blast+

lemma probe_slots_board:
  assumes "board reg j g" "device_in reg g = 16 \<longrightarrow> display service (mmio_slot g) disk" "unat (dma_heap_curr (fst sv0)) + 2 ^ 40 \<le> 2 ^ 62"
  shows "set is \<subseteq> {..<32} \<Longrightarrow> distinct is \<Longrightarrow> don \<subseteq> {..<32} \<Longrightarrow> don \<inter> set is = {} \<Longrightarrow> probed disk j g sv0 don x
    \<Longrightarrow> \<exists>y. probe_slots service reg is x = Inr y \<and> probed disk j g sv0 (don \<union> set is) y"
proof (induction "is" arbitrary: don x)
  case (Cons i "is")
  obtain s v where x: "x = (s, v)" by (cases x)
  have fin: "finite don" "i \<notin> don" "i < 32" using Cons.prems by (auto intro: finite_subset)
  have "card don \<le> 32" using card_mono [OF _ Cons.prems(3)] by simp
  then have room: "unat (dma_heap_curr s) + 2 ^ 35 \<le> 2 ^ 62"
    using Cons.prems(5) assms(3) x by (cases sv0) (auto simp: probed_def)
  have "\<exists>y. probe_slot service reg i x = Inr y \<and> probed disk j g sv0 (insert i don) y"
  proof -
    consider "device_in reg i = 2" | "device_in reg i = 16" | "device_in reg i = 18" | "device_in reg i \<notin> {2, 16, 18}" by blast
    then show ?thesis
    proof cases
      case 1
      then have "i = j" by (rule boardD(3) [OF assms(1) fin(3)])
      then show ?thesis using probe_blk [of disk j g sv0 don s v reg service] Cons.prems(5) 1 fin(1,2) room x by simp
    next
      case 2
      then have "i = g" by (rule boardD(4) [OF assms(1) fin(3)])
      moreover have "i \<noteq> j" using 2 boardD(2) [OF assms(1)] by auto
      ultimately show ?thesis using probe_gpu [of disk j g sv0 don s v reg service] Cons.prems(5) 2 fin(1,2) room x assms(2) by simp
    next
      case 3
      then have "i \<noteq> j" using boardD(2) [OF assms(1)] by auto
      then show ?thesis using probe_input [of disk j g sv0 don s v reg i service] Cons.prems(5) 3 fin(1,2) room x by simp
    next
      case 4
      then have "i \<noteq> j" using boardD(2) [OF assms(1)] by auto
      then have "probed disk j g sv0 (insert i don) x"
        using Cons.prems(5) fin(1,2) x by (cases sv0) (auto simp: probed_def)
      with probe_skips [OF 4, of service x] show ?thesis by blast
    qed
  qed
  then obtain y where y: "probe_slot service reg i x = Inr y" "probed disk j g sv0 (insert i don) y" by blast
  from Cons.IH [OF _ _ _ _ y(2)] Cons.prems fin(3) show ?case by (auto simp: y(1))
qed simp

lemma probe_board:
  assumes "board reg j g" "device_in reg g = 16 \<longrightarrow> display service (mmio_slot g) disk" "unat (dma_heap_curr s) + 2 ^ 40 \<le> 2 ^ 62"
    "blk_last_used_idx s = 0" "gpu_last_used_idx s = 0" "unat buffer + 512 \<le> unat (dma_heap_curr s)"
  obtains s' v' where "virtio_probe_and_init service reg (s, v) = Inr (s', v')" "blk_ready (mmio_slot j) buffer s'" "disk v' = disk v"
proof -
  have "probed disk j g (s, v) {} (s, v)" using assms(4,5) by (simp add: probed_def)
  then obtain s' v' where y: "virtio_probe_and_init service reg (s, v) = Inr (s', v')" "probed disk j g (s, v) {..<32} (s', v')"
    using probe_slots_board [OF assms(1,2), of "(s, v)" "[0..<32]" "{}"] assms(3)
    by (fastforce simp: virtio_probe_and_init_def atLeast0LessThan)
  then show ?thesis
    using that assms(1,3,6) by (auto simp: probed_def board_def blk_ready_def)
qed


text \<open>A desktop: a disk in the first slot and a display in the second.\<close>

definition desktop :: "u64 \<Rightarrow> u32" where
  "desktop a = (if a = mmio_slot 0 \<or> a = mmio_slot 1 then VIRTIO_MAGIC else if a = mmio_slot 0 + 8 then 2
     else if a = mmio_slot 1 + 8 then 16 else 0)"

definition desktop_devices :: "store service" where
  "desktop_devices base = (if base = mmio_slot 1 then mute base else ideal_disk 200 base)"

lemma desktop_board: "board desktop 0 1"
proof -
  have u: "unat (mmio_slot i) = 0x0a000000 + i * 0x200" if "i < 32" for i
    using that by (simp add: mmio_slot_def unat_word_ariths unat_of_nat take_bit_nat_eq_self)
  have "device_in desktop i = 0" if "i < 32" "i \<noteq> 0" "i \<noteq> 1" for i
  proof -
    have "mmio_slot i \<noteq> mmio_slot k" if "k < 2" for k
      using u [of i] u [of k] that \<open>i < 32\<close> \<open>i \<noteq> 0\<close> \<open>i \<noteq> 1\<close> by (auto simp: less_Suc_eq numeral_2_eq_2)
    from this [of 0] this [of 1] have "mmio_slot i \<noteq> mmio_slot 0" "mmio_slot i \<noteq> mmio_slot 1" by simp_all
    moreover have "mmio_slot i \<noteq> mmio_slot 0 + 8" "mmio_slot i \<noteq> mmio_slot 1 + 8"
      using u [OF \<open>i < 32\<close>] by (auto simp: mmio_slot_def) presburger+
    ultimately show ?thesis by (simp add: device_in_def desktop_def)
  qed
  moreover have "device_in desktop 0 = 2" "device_in desktop 1 = 16" by (simp_all add: device_in_def desktop_def mmio_slot_def)
  ultimately have "device_in desktop i = (if i = 0 then 2 else if i = 1 then 16 else 0)" if "i < 32" for i using that by simp
  then show ?thesis by (simp add: board_def)
qed


end
