(* ===== verification/Cold_Start.thy ===== *)
theory Cold_Start
  imports Shell_Session Boot_Properties Virtio_Probe
begin

text \<open>
  From power-on to a file on the screen: \<^verbatim>\<open>kernel_main\<close> probes the board and brings the machine up,
  \<^verbatim>\<open>shell_main\<close> draws its greeting, and the first commands work on the volume that was mounted.
\<close>

definition greeting :: "u8 list" where
  "greeting = msg_init @ msg_fb @ msg_wait @ msg_prompt"

lemma greeting_nul: "0 \<notin> set msg_init" "0 \<notin> set msg_fb" "0 \<notin> set msg_wait" "0 \<notin> set msg_prompt"
  by (simp_all add: msg_init_def msg_fb_def msg_wait_def msg_prompt_def lit_def)

lemma term_print_shows:
  assumes "shows_grid C R c g" "0 \<notin> set s"
  obtains c' where "term_print s c = Inr c'" "shows_grid C R c' (print_grid C R s g)"
  using print_shows [OF assms(1), of s] assms(2) by (auto simp: term_print_def cstr_id)

lemma shell_boot_greets:
  assumes "idle io" "0 < n" "1024000 \<le> length fb"
  obtains s where "shell_boot (kernel_sys stale io vm n) stale fb (k, d) = Inr (s, k, d)"
    "editing 80 50 [] (print_grid 80 50 greeting (clear_grid 80 50)) s"
proof -
  let ?c = "\<lparr>framebuffer = fb, screen_width = 1280, screen_height = 800, cursor_x = 0, cursor_y = 0\<rparr>"
  have "screen_fits 80 50 ?c" using assms(3) by (simp add: screen_fits_def)
  then obtain c0 where c0: "term_clear_screen ?c = Inr c0" "shows_grid 80 50 c0 (clear_grid 80 50)"
    using clear_shows by blast
  obtain c1 where c1: "term_print msg_init c0 = Inr c1" "shows_grid 80 50 c1 (print_grid 80 50 msg_init (clear_grid 80 50))"
    by (rule term_print_shows [OF c0(2) greeting_nul(1)])
  obtain c2 where c2: "term_print msg_fb c1 = Inr c2"
    "shows_grid 80 50 c2 (print_grid 80 50 msg_fb (print_grid 80 50 msg_init (clear_grid 80 50)))"
    by (rule term_print_shows [OF c1(2) greeting_nul(2)])
  obtain c3 where c3: "term_print msg_wait c2 = Inr c3"
    "shows_grid 80 50 c3 (print_grid 80 50 msg_wait (print_grid 80 50 msg_fb (print_grid 80 50 msg_init (clear_grid 80 50))))"
    by (rule term_print_shows [OF c2(2) greeting_nul(3)])
  obtain c4 where c4: "term_print msg_prompt c3 = Inr c4" "shows_grid 80 50 c4 (print_grid 80 50 greeting (clear_grid 80 50))"
    by (rule term_print_shows [OF c3(2) greeting_nul(4)]) (simp add: greeting_def print_grid_append)
  show ?thesis
    using that [of "\<lparr>ctx = c4, cmd_buffer = local_array stale 256, cmd_idx = 0\<rparr>"] c0(1) c1(1) c2(1) c3(1) c4
      idle_calls(2) [OF assms(1,2)]
    by (simp add: shell_boot_def Let_def editing_def line_def local_array_def)
qed

text \<open>
  The general form: when probing comes back with a working block device that holds a sound volume, the
  kernel boots into the shell, the shell greets, \<^verbatim>\<open>s.write <name> <text>\<close> for a free name shows that the
  write is committed and \<^verbatim>\<open>s.read <name>\<close> after it shows the text.
\<close>

lemma probed_start_to_file_on_screen:
  assumes "block_device io ok sec cap" "idle io"
    "virtio_probe_and_init service reg (print_all io boot_banner sv) = Inr sv1" "ok sv1"
    "\<forall>sv. ok sv \<longrightarrow> ok (vm_init sv) \<and> sec (vm_init sv) = sec sv"
    "sec sv1 0 ! 510 = 0x55" "sec sv1 0 ! 511 = 0xAA" "volume_wf fs cap (sec sv1)" "fs = mount_bpb (sec sv1 0)"
    "mailbox_wf (mail (kern m))" "contents (mail (kern m)) = []"
    "1024000 \<le> length fb" "0 < n" "0 < fuel"
    "usable_name (format_fat_name name)" "0 \<notin> set name" "32 \<notin> set name" "0 \<notin> set data"
    "length name + 1 + length data \<le> 254"
    "\<not> name_taken fs (sec sv1) (format_fat_name name)" "free_cluster_of fs (sec sv1) \<noteq> None" "free_slot_of fs (sec sv1) \<noteq> None"
  shows "\<exists>m' sv' s c1 k1 d1 c2 k2 d2 g.
    kernel_main io service reg net_reg vm_init L NL entry stack m sv = Inr (m', sv')
    \<and> shell_boot (kernel_sys stale io vm n) stale fb (kern m', sv') = Inr (s, kern m', sv')
    \<and> shows_grid 80 50 (ctx s) g \<and> g = print_grid 80 50 greeting (clear_grid 80 50)
    \<and> run_command (kernel_sys stale io vm n) stale fuel (lit ''s.write '' @ name @ 32 # data) (ctx s) (kern m', sv') = Inr (c1, k1, d1)
    \<and> run_command (kernel_sys stale io vm n) stale fuel (lit ''s.read '' @ name) c1 (k1, d1) = Inr (c2, k2, d2)
    \<and> shows_grid 80 50 c2 (print_grid 80 50 (lit ''Write committed to disk.\<newline>'' @ data @ [10]) g)"
proof -
  have "0 < cap" using assms(8) by (auto simp: volume_wf_def geometry_def)
  then obtain sv3 sv' where run: "kernel_main io service reg net_reg vm_init L NL entry stack m sv =
      Inr (m\<lparr>tables := booted_tables L (fst (print_all io boot_banner sv)) (fst sv1) (tables m),
             network := fst (virtio_net_init io net_reg NL (network m) sv1),
             kern := (kern m)\<lparr>vol := mount_bpb (sec sv1 0), watch := fst (watcher_init io (watch (kern m)) sv3)\<rparr>\<rparr>, sv')"
    "ok sv'" "sec sv' = sec sv1"
    using kernel_main_runs [OF assms(1,3-7)] by metis
  let ?k = "(kern m)\<lparr>vol := mount_bpb (sec sv1 0), watch := fst (watcher_init io (watch (kern m)) sv3)\<rparr>"
  let ?g = "print_grid 80 50 greeting (clear_grid 80 50)"
  obtain s where s: "shell_boot (kernel_sys stale io vm n) stale fb (?k, sv') = Inr (s, ?k, sv')" "editing 80 50 [] ?g s"
    by (rule shell_boot_greets [OF assms(2,13,12)])
  have g: "shows_grid 80 50 (ctx s) ?g" using s(2) by (simp add: editing_def)
  have vol: "vol ?k = fs" "volume_wf (vol ?k) cap (sec sv')" "mail ?k = mail (kern m)" using assms(8,9) run(3) by simp_all
  obtain c1 k1 d1 c2 k2 d2 where
    "run_command (kernel_sys stale io vm n) stale fuel (lit ''s.write '' @ name @ 32 # data) (ctx s) (?k, sv') = Inr (c1, k1, d1)"
    "run_command (kernel_sys stale io vm n) stale fuel (lit ''s.read '' @ name) c1 (k1, d1) = Inr (c2, k2, d2)"
    "shows_grid 80 50 c2 (print_grid 80 50 (data @ [10]) (print_grid 80 50 (lit ''Write committed to disk.\<newline>'') ?g))"
    using write_then_read_session [OF assms(1,2,13,14) run(2) vol(2) _ _ g assms(15-19), of stale vm] vol(1,3) assms(10,11,20-22) run(3)
    by auto
  note r = this
  let ?m = "m\<lparr>tables := booted_tables L (fst (print_all io boot_banner sv)) (fst sv1) (tables m),
    network := fst (virtio_net_init io net_reg NL (network m) sv1), kern := ?k\<rparr>"
  show ?thesis
    unfolding run(1)
    by (rule exI [of _ ?m], rule exI [of _ sv'], rule exI [of _ s], rule exI [of _ c1], rule exI [of _ k1], rule exI [of _ d1],
        rule exI [of _ c2], rule exI [of _ k2], rule exI [of _ d2], rule exI [of _ ?g])
      (use s(1) g r in \<open>simp add: print_grid_append\<close>)
qed

section \<open>Any board\<close>

lemma blk_io_quiet: "print_all (blk_io service buffer) ss sv = sv"
  by (induction ss arbitrary: sv) (simp_all add: blk_io_def)

lemma blk_io_idle: "idle (blk_io service buffer)"
  by (simp add: idle_def blk_io_def)


text \<open>A desktop whose disk has a fresh volume.\<close>

lemma desktop_disk: "virtio_disk desktop_devices (mmio_slot 0) (\<lambda>S. S) 200"
proof -
  have s: "mmio_slot 0 = 0x0a000000" "mmio_slot 0 \<noteq> mmio_slot 1" by (simp_all add: mmio_slot_def)
  then have "desktop_devices (mmio_slot 0) = ideal_disk 200 0x0a000000" by (simp add: desktop_devices_def)
  then show ?thesis using ideal.virtio_disk_axioms [of 200] s(1) by (simp add: virtio_disk_def)
qed

lemma boot_volume:
  "volume_wf (mount_bpb tiny_boot) 200 boot_disk" "\<not> name_taken (mount_bpb tiny_boot) boot_disk t"
  "free_cluster_of (mount_bpb tiny_boot) boot_disk \<noteq> None" "free_slot_of (mount_bpb tiny_boot) boot_disk \<noteq> None"
proof -
  let ?fs = "mount_bpb tiny_boot"
  have fs: "fat_sector ?fs = 1" "root_sector ?fs = 2" "root_dir_cluster ?fs = 2"
    by (simp_all add: fat_sector_def root_sector_def cluster_to_sector_def mount_bpb_def tiny_boot_fields Let_def)
  have disk: "boot_disk 1 = tiny_disk 1" "boot_disk 2 = replicate 512 0"
    by (simp_all add: boot_disk_def)
  have "geometry ?fs 200"
    using mount_layout [of tiny_boot 200 2] tiny_boot_fields by (simp add: boot_sector_fits_def data_cluster_def)
  moreover have "directory_wf ?fs (boot_disk 1) (boot_disk 2)"
    using fat_entry_tiny [of 2] fs(3) by (simp add: directory_wf_def live_def dir_name0_def disk del: tiny_sectors)
  ultimately show "volume_wf ?fs 200 boot_disk" using boot_disk_sectors(2) fs by (simp add: volume_wf_def)
  show "\<not> name_taken ?fs boot_disk t" "free_slot_of ?fs boot_disk \<noteq> None"
    by (simp_all add: name_taken_def free_slot_of_def fs disk upt_conv_Cons dir_name0_def)
  show "free_cluster_of ?fs boot_disk \<noteq> None"
    using fat_indices_tiny by (simp add: free_cluster_of_def fs disk del: tiny_sectors)
qed


end
