(* ===== verification/Ledger_File.thy ===== *)
theory Ledger_File
  imports Syscall_Properties
begin

text \<open>
  The ledger from the event ring to the disk: what a flush request leaves in \<^verbatim>\<open>LEDGER.LOG\<close>, and what a
  program that reads the file is told.
\<close>

section \<open>The ledger file\<close>

definition ledger_name :: "u8 list" where
  "ledger_name = format_fat_name (lit ''LEDGER.LOG'')"

text \<open>
  The file has this text in its only cluster, or there is no such file yet, and room for one.
\<close>

definition ledger_holds :: "fat_fs \<Rightarrow> nat \<Rightarrow> store \<Rightarrow> u8 list \<Rightarrow> bool" where
  "ledger_holds fs cap S old \<longleftrightarrow> volume_wf fs cap S
     \<and> (if name_taken fs S ledger_name
        then single_cluster fs S ledger_name
          \<and> (\<exists>f. file_of fs S ledger_name = Some f \<and> unat (fst f) = length old \<and> file_bytes f = old)
        else free_cluster_of fs S \<noteq> None \<and> free_slot_of fs S \<noteq> None \<and> old = [])"

definition others_kept :: "fat_fs \<Rightarrow> store \<Rightarrow> store \<Rightarrow> bool" where
  "others_kept fs S S' \<longleftrightarrow> (\<forall>t. usable_name t \<and> t \<noteq> ledger_name \<longrightarrow> file_of fs S' t = file_of fs S t)"

lemma others_kept_refl: "others_kept fs S S"
  by (simp add: others_kept_def)

lemma others_kept_trans: "others_kept fs S S' \<Longrightarrow> others_kept fs S' S'' \<Longrightarrow> others_kept fs S S''"
  by (simp add: others_kept_def)

text \<open>A file that has just been written has one cluster.\<close>

lemma written_single_cluster:
  fixes n :: u32 and data :: "u8 list"
  assumes wf: "volume_wf fs cap S" and c: "free_cluster_of fs S = Some c" and i: "free_slot_of fs S = Some i"
    and t: "usable_name t" and new: "\<not> name_taken fs S t"
  defines "S' \<equiv> add_entry fs i c t n (claim_cluster fs c data n S)"
  shows "single_cluster fs S' t" "name_taken fs S' t" "file_of fs S' t = Some (n, data_sector_bytes n data)"
proof -
  let ?b = "S (root_sector fs)"
  have b: "length ?b = 512" "length t = 11" "t ! 0 \<noteq> 0" "t ! 0 \<noteq> 0xE5"
    using t volume_wfD(4) [OF wf] by (simp_all add: usable_name_def)
  have root: "S' (root_sector fs) = overwrite ?b (32 * i) (new_entry t (of_nat c) n)"
    unfolding S'_def by (rule stored_sectors(1) [OF wf c])
  then have found: "find_entry (S' (root_sector fs)) t [0..<16] = Some i"
    using find_entry_stored_same [OF b free_slot_data(4) [OF i]] new by (simp add: name_taken_def)
  then show "name_taken fs S' t" by (simp add: name_taken_def)
  show "file_of fs S' t = Some (n, data_sector_bytes n data)"
    unfolding S'_def by (rule stored_new_file [OF wf c i t]) (rule found [unfolded S'_def])
  have cl: "dir_cluster (S' (root_sector fs)) i = of_nat c"
    using stored_cluster(1) [OF b(1,2) free_slot_data(1) [OF i] free_slot_data(1) [OF i], of "of_nat c" n] by (simp add: root)
  note free = free_cluster_data [OF wf c]
  have "fat_entry (S' (fat_sector fs)) c = 0x0FFFFFFF"
    unfolding S'_def stored_sectors(3) [OF wf c] using claimed_fat_entry [OF wf c free(3)] by simp
  then show "single_cluster fs S' t"
    using found cl free(1,2) by (auto simp: single_cluster_def Let_def data_cluster_def)
qed

lemma ledger_usable: "usable_name ledger_name"
  using usable_lit(2) by (simp add: ledger_name_def)

lemma ledger_append_ram:
  assumes "ledger_holds fs cap S old" "length old < 512" "length old + length s \<le> 512"
  shows "\<exists>S'. ledger_append (ram_io cap) fs (lit ''LEDGER.LOG'') s S = Inr S' \<and> ledger_holds fs cap S' (old @ s) \<and> others_kept fs S S'"
proof -
  let ?n = "of_nat (length s) :: u32"
  have n: "unat ?n = length s" using assms(3) by (simp add: unat_of_nat take_bit_nat_eq_self)
  have wf: "volume_wf fs cap S" using assms(1) by (simp add: ledger_holds_def)
  note u = usable_lit(2) and nm = ledger_name_def [symmetric]
  show ?thesis
  proof (cases "name_taken fs S ledger_name")
    case False
    then obtain c i where new: "free_cluster_of fs S = Some c" "free_slot_of fs S = Some i" "old = []"
      using assms(1) by (auto simp: ledger_holds_def)
    have fit: "min (unat ?n) 512 \<le> length s" by (simp add: n)
    let ?S = "add_entry fs i c ledger_name ?n (claim_cluster fs c s ?n S)"
    note single = written_single_cluster [OF wf new(1,2) ledger_usable False, of ?n s]
    have run: "fs_append_file_content (ram_io cap) fs (lit ''LEDGER.LOG'') s ?n S = Inr ?S"
      using append_ram_new [OF wf u] False write_ram [OF wf fit] new(1,2) by (simp add: nm)
    have "fs_write_file_content (ram_io cap) fs (lit ''LEDGER.LOG'') s ?n S = Inr ?S"
      using run append_ram_new [OF wf u] False by (simp add: nm)
    with write_ram_effect [OF wf fit u] have eff: "volume_wf fs cap ?S"
      "\<forall>t. usable_name t \<longrightarrow> file_of fs ?S t = write_effect fs S ledger_name (?n, data_sector_bytes ?n s) t"
      unfolding nm by auto
    have "file_bytes (?n, data_sector_bytes ?n s) = s" using assms(3) n by (simp add: file_bytes_sector)
    then have "ledger_holds fs cap ?S (old @ s)" using eff(1) single n new(3) by (simp add: ledger_holds_def)
    moreover have "others_kept fs S ?S" using eff(2) by (auto simp: others_kept_def write_effect_def)
    ultimately show ?thesis using run by (auto simp: ledger_append_def)
  next
    case True
    then obtain f where f: "single_cluster fs S ledger_name" "file_of fs S ledger_name = Some f" "unat (fst f) = length old" "file_bytes f = old"
      using assms(1) unfolding ledger_holds_def if_P [OF True] by blast
    have len: "length (snd f) = 512"
      using f(2) volume_wfD(4) [OF wf] by (auto simp: file_of_def Let_def split: option.splits if_splits)
    have fit: "unat (fst f) + unat ?n \<le> 512" "unat (fst f) < 512" "unat ?n \<le> length s" using assms(2,3) f(3) n by simp_all
    note e = append_effect_bytes [OF fit len]
    have size: "unat (fst f + ?n) = length old + length s"
      using fit(1) f(3) n unat_add_lem [THEN iffD1, of "fst f" ?n] by simp
    have "unat (append_count (fst f) ?n) \<le> length s" using fit(3) by (simp add: e(1))
    from append_ram_effect [OF wf u, unfolded nm, OF f(1,2) this]
    obtain S' where S': "fs_append_file_content (ram_io cap) fs (lit ''LEDGER.LOG'') s ?n S = Inr S'" "volume_wf fs cap S'"
      "single_cluster fs S' ledger_name"
      "\<forall>t. usable_name t \<longrightarrow> file_of fs S' t = ((file_of fs S)(ledger_name \<mapsto> append_effect ?n s f)) t" by blast
    then have fileD: "file_of fs S' ledger_name = Some (append_effect ?n s f)" using ledger_usable by simp
    then have "name_taken fs S' ledger_name" by (auto simp: name_taken_def file_of_def Let_def split: option.splits)
    then have "ledger_holds fs cap S' (old @ s)"
      using S'(2,3) fileD e(2,3) size n f(4) by (simp add: ledger_holds_def)
    moreover have "others_kept fs S S'" using S'(4) by (simp add: others_kept_def)
    ultimately show ?thesis using S'(1) by (auto simp: ledger_append_def)
  qed
qed

lemma ledger_append_device:
  assumes "block_device io ok sec cap" "ok d" "ledger_holds fs cap (sec d) old" "length old < 512" "length old + length s \<le> 512"
  obtains d' where "ledger_append io fs (lit ''LEDGER.LOG'') s d = Inr d'" "ok d'" "ledger_holds fs cap (sec d') (old @ s)"
    "others_kept fs (sec d) (sec d')"
  using ledger_append_ram [OF assms(3-5)] append_device [OF assms(1,2)] unfolding ledger_append_def by metis

section \<open>A flush\<close>

definition ledger_text :: "u8 list list \<Rightarrow> u8 list" where
  "ledger_text ls = concat (map (\<lambda>s. s @ [10]) ls)"

lemma newline_lit: "lit ''\<newline>'' = [10]"
  by (simp add: lit_def)

lemma persist_all_extends:
  assumes "block_device io ok sec cap"
  shows "ok d \<Longrightarrow> ledger_holds fs cap (sec d) old \<Longrightarrow> length old + length (ledger_text ls) \<le> 512
    \<Longrightarrow> \<exists>d'. persist_all (ledger_append io fs) ls d = Inr d' \<and> ok d' \<and> ledger_holds fs cap (sec d') (old @ ledger_text ls)
      \<and> others_kept fs (sec d) (sec d')"
proof (induction ls arbitrary: d old)
  case Nil
  then show ?case by (simp add: ledger_text_def others_kept_refl)
next
  case (Cons s ls)
  have room: "length old + length s + 1 + length (ledger_text ls) \<le> 512" using Cons.prems(3) by (simp add: ledger_text_def)
  obtain d1 where d1: "ledger_append io fs (lit ''LEDGER.LOG'') s d = Inr d1" "ok d1" "ledger_holds fs cap (sec d1) (old @ s)"
    "others_kept fs (sec d) (sec d1)"
    by (rule ledger_append_device [OF assms Cons.prems(1,2), of s]) (use room in simp_all)
  obtain d2 where d2: "ledger_append io fs (lit ''LEDGER.LOG'') (lit ''\<newline>'') d1 = Inr d2" "ok d2"
    "ledger_holds fs cap (sec d2) ((old @ s) @ lit ''\<newline>'')" "others_kept fs (sec d1) (sec d2)"
    by (rule ledger_append_device [OF assms d1(2,3), of "lit ''\<newline>''"]) (use room in simp_all)
  have "length ((old @ s) @ lit ''\<newline>'') + length (ledger_text ls) \<le> 512" using room by (simp add: newline_lit)
  from Cons.IH [OF d2(2,3) this] d1(1,4) d2(1,4) show ?case
    by (auto simp: newline_lit ledger_text_def intro: others_kept_trans)
qed

lemma watcher_sync_extends:
  assumes "block_device io ok sec cap" "ok d" "watcher_wf w" "ledger_holds fs cap (sec d) old"
    "length old + length (ledger_text (ledger_lines (map event_view (unsynced w)))) \<le> 512"
  obtains w' d' where "watcher_sync_to_disk io (ledger_append io fs) w d = Inr (w', d')" "ok d'" "watcher_wf w'" "unsynced w' = []"
    "ledger_holds fs cap (sec d') (old @ ledger_text (ledger_lines (map event_view (unsynced w))))" "others_kept fs (sec d) (sec d')"
proof (cases "unsynced w = []")
  case True
  then show ?thesis
    using that assms(3,4) block_device.print_law [OF assms(1)] assms(2)
    by (simp add: sync_to_disk_unsynced [OF assms(3)] ledger_text_def others_kept_refl Let_def)
next
  case False
  let ?d = "io_print io (lit ''[WATCHER] Flushing Ledger to LEDGER.LOG...\<newline>'') d" and ?ls = "ledger_lines (map event_view (unsynced w))"
  have d: "ok ?d" "sec ?d = sec d" using block_device.print_law [OF assms(1,2)] by simp_all
  then have "ledger_holds fs cap (sec ?d) old" using assms(4) by simp
  from persist_all_extends [OF assms(1), of ?d fs old ?ls, OF d(1) this assms(5)]
  obtain d1 where d1: "persist_all (ledger_append io fs) ?ls ?d = Inr d1" "ok d1" "ledger_holds fs cap (sec d1) (old @ ledger_text ?ls)"
    "others_kept fs (sec d) (sec d1)" using d(2) by auto
  have "watcher_wf (w\<lparr>sync_cursor := head w\<rparr>)" using assms(3) by (simp add: watcher_wf_def)
  moreover from this have "unsynced (w\<lparr>sync_cursor := head w\<rparr>) = []" by (simp add: unsynced_Nil_iff)
  ultimately show ?thesis
    using that False d1 block_device.print_law [OF assms(1)]
    by (simp add: sync_to_disk_unsynced [OF assms(3)] Let_def)
qed

lemma ledger_lines_nul: "s \<in> set (ledger_lines (map entry_view es)) \<Longrightarrow> 0 \<notin> set s"
proof (induction es)
  case (Cons e es)
  then show ?case using copied_props(2) by (cases e) (auto split: if_splits)
qed simp

lemma ledger_text_nul: "0 \<notin> set (ledger_text (ledger_lines (map entry_view es)))"
  using ledger_lines_nul [of _ es] by (auto simp: ledger_text_def)

lemma ledger_read:
  assumes "ledger_holds fs cap S old" "old \<noteq> []" "0 \<notin> set old" "length old \<le> 254"
  shows "read_text (file_of fs S ledger_name) = old"
proof -
  obtain f where "file_of fs S ledger_name = Some f" "file_bytes f = old"
    using assms(1,2) unfolding ledger_holds_def by (auto split: if_splits)
  then show ?thesis using assms(3,4) by (simp add: read_text_def cstr_id)
qed


definition one_commit :: "log_entry list" where
  "one_commit = [(9, EVENT_TYPE_LEDGER_COMMIT, 0, Some (ledger_context 0xCAFE (- 12) @ [0]))]"


end
