(* ===== verification/Loader.thy ===== *)
theory Loader
  imports Virtio Uart Ipc
begin

text \<open>
  \<^verbatim>\<open>kernel/loader.c\<close>, \<^verbatim>\<open>include/os_loader.h\<close> and \<^verbatim>\<open>kernel/gic.c\<close>: the module regions, the kernel's
  panic, and the routines the kernel keeps without a body. The register writes of \<^verbatim>\<open>gic_init\<close> are
  recorded like the drivers'.
\<close>

section \<open>Module regions\<close>

record module_region =
  module_id :: u32
  code_base :: u64
  code_size :: u64
  stack_base :: u64
  stack_size :: u64

record loader =
  module_regions :: "module_region list"
  loaded_module_count :: u32
  current_module :: module_region

definition loader_statics :: loader where
  "loader_statics = \<lparr>
     module_regions = replicate 8 \<lparr>module_id = 0, code_base = 0, code_size = 0, stack_base = 0, stack_size = 0\<rparr>,
     loaded_module_count = 0,
     current_module = \<lparr>module_id = SYS_MOD_KERNEL, code_base = 0x40000000, code_size = 0x80000, stack_base = 0, stack_size = 0\<rparr>\<rparr>"

definition loader_init :: "loader \<Rightarrow> loader" where
  "loader_init l = l"

definition get_region_for_current_module :: "loader \<Rightarrow> u32" where
  "get_region_for_current_module l = module_id (current_module l)"

text \<open>Every pointer passes (the source marks the check as deferred), and every send succeeds.\<close>

definition is_valid_el0_pointer :: "u64 \<Rightarrow> u64 \<Rightarrow> i32" where
  "is_valid_el0_pointer ptr size' = 1"

definition ipc_send :: "u32 \<Rightarrow> os_message \<Rightarrow> i32" where
  "ipc_send sender msg = 0"

definition try_dispatch_next :: "u64 list \<Rightarrow> u64 list" where
  "try_dispatch_next regs = regs"

section \<open>Panic\<close>

text \<open>What is printed before the machine waits for interrupts for good; the result is the state it halts in.\<close>

definition kpanic_output :: "u8 list \<Rightarrow> u8 list list" where
  "kpanic_output msg = [lit ''\<newline>[ KERNEL PANIC ] '', msg, lit ''\<newline>System Halted.\<newline>'']"

definition kpanic :: "'d io \<Rightarrow> u8 list \<Rightarrow> 'd \<Rightarrow> 'd" where
  "kpanic io msg d = print_all io (kpanic_output msg) d"

section \<open>Interrupt controller\<close>

definition GICD_BASE :: u64 where "GICD_BASE = 0x08000000"
definition GICC_BASE :: u64 where "GICC_BASE = 0x08010000"

definition gic_init :: "virtio \<Rightarrow> virtio" where
  "gic_init = reg_writes [(GICD_BASE, 1), (GICC_BASE + 0x0004, 0xFFFF), (GICC_BASE, 1)]"

definition timer_init :: "'d \<Rightarrow> 'd" where
  "timer_init d = d"

definition irq_handler :: "u64 list \<Rightarrow> u64 list" where
  "irq_handler regs = regs"

end
