(* ===== verification/Virtio_Early.thy ===== *)
theory Virtio_Early
  imports Loader
begin

text \<open>
  \<^verbatim>\<open>virtio.c\<close> in the root directory: the display driver that \<^verbatim>\<open>kernel/virtio.c\<close> grew out of. The Makefile
  does not compile it. Its statics have the names of the later driver's, and the state is the same
  record; what it prints is a list of bytes. It checks what the device answers and halts in
  \<^verbatim>\<open>kpanic\<close> when an answer is not the expected one.
\<close>

section \<open>Runs that may halt\<close>

datatype stop = Halts "u8 list" virtio | Waits

type_synonym 'a run = "stop + 'a"

definition early_kpanic :: "string \<Rightarrow> u8 list \<times> virtio \<times> 'v \<Rightarrow> 'a run" where
  "early_kpanic msg = (\<lambda>(out, s, v). Inl (Halts (out @ concat (kpanic_output (lit msg))) s))"

definition waiting :: "'a res \<Rightarrow> 'a run" where
  "waiting r = (case r of Inl e \<Rightarrow> Inl Waits | Inr x \<Rightarrow> Inr x)"

definition early_print :: "u8 list \<Rightarrow> u8 list \<times> virtio \<times> 'v \<Rightarrow> u8 list \<times> virtio \<times> 'v" where
  "early_print str = (\<lambda>(out, s, v). (out @ str, s, v))"

section \<open>Cache maintenance\<close>

text \<open>
  The loops \<^verbatim>\<open>for (a = start & ~63; a < stop; a += 64)\<close> around one instruction each, recorded as an
  operation on the byte of its address; an instruction works on the line of that byte.
\<close>

definition clean_range :: "u64 \<Rightarrow> u64 \<Rightarrow> virtio \<Rightarrow> virtio" where
  "clean_range start stop = fold (\<lambda>a. emit (Clean a 1)) (line_range start stop)"

definition invalidate_range :: "u64 \<Rightarrow> u64 \<Rightarrow> virtio \<Rightarrow> virtio" where
  "invalidate_range start stop = fold (\<lambda>a. emit (Invalidate a 1)) (line_range start stop)"

section \<open>Commands\<close>

definition early_announce :: "u64 \<Rightarrow> u32 \<Rightarrow> u16 \<Rightarrow> u16 \<Rightarrow> virtq \<Rightarrow> virtio \<Rightarrow> virtio" where
  "early_announce request request_size d0 d1 q s =
     (let s = clean_range request (request + ucast request_size) s;
          s = clean_range (desc_at q d0) (desc_at q d1 + 16) s;
          s = clean_range (avail_ring_at q (avail_idx q)) (avail_idx_at q + 2) s;
          s = emit (Clean (avail_idx_at q AND NOT 63) 1) s
      in reg_write (gpu_mmio_base s + VIRTIO_REG_QUEUE_NOTIFY) 0 s)"

definition early_send_gpu_command ::
  "'v service \<Rightarrow> u64 \<Rightarrow> u32 \<Rightarrow> u64 \<Rightarrow> u32 \<Rightarrow> u8 list \<times> virtio \<times> 'v \<Rightarrow> (u32 \<times> u8 list \<times> virtio \<times> 'v) run" where
  "early_send_gpu_command service request request_size response response_size = (\<lambda>(out, s, v).
     let (d0, s) = take_desc s;
         (d1, s) = take_desc s;
         q = set_desc d0 \<lparr>addr = request, len = request_size, flags = VIRTQ_DESC_F_NEXT, next_desc = d1\<rparr> (gpu_q s);
         q = set_desc d1 \<lparr>addr = response, len = response_size, flags = VIRTQ_DESC_F_WRITE, next_desc = 0\<rparr> q;
         q = set_avail (avail_idx q) d0 q;
         s = early_announce request request_size d0 d1 q s;
         q = q\<lparr>avail_idx := avail_idx q + 1\<rparr>;
         s = s\<lparr>gpu_q := q\<rparr>
     in res_bind (waiting (await service (gpu_mmio_base s) (gpu_last_used_idx s) q s v)) (\<lambda>(q, s, v).
          let s = s\<lparr>gpu_q := q, gpu_last_used_idx := gpu_last_used_idx s + 1\<rparr>;
              s = invalidate_range response (response + ucast response_size) s
          in Inr (load32 (mem s) response, out, s, v)))"

text \<open>\<^verbatim>\<open>if (resp_type != expected) { uart_print(what); uart_print_hex(resp_type); kpanic(...); }\<close>\<close>

definition expect :: "u32 \<Rightarrow> string \<Rightarrow> u32 \<times> u8 list \<times> virtio \<times> 'v \<Rightarrow> (u8 list \<times> virtio \<times> 'v) run" where
  "expect expected what = (\<lambda>(resp_type, x).
     if resp_type \<noteq> expected
     then early_kpanic ''Handshake aborted'' (early_print (uart_hex_string (ucast resp_type)) (early_print (lit what) x))
     else Inr x)"

definition early_command ::
  "'v service \<Rightarrow> u32 \<Rightarrow> (nat \<times> u32) list \<Rightarrow> string \<Rightarrow> u8 list \<times> virtio \<times> 'v \<Rightarrow> (u8 list \<times> virtio \<times> 'v) run" where
  "early_command service size' words what = (\<lambda>(out, s, v).
     let (req, s) = bump_allocate size' 8 s;
         (resp, s) = bump_allocate 24 8 s;
         s = s\<lparr>mem := put_words req words (mem s)\<rparr>
     in res_bind (early_send_gpu_command service req size' resp 24 (out, s, v)) (expect VIRTIO_GPU_RESP_OK_NODATA what))"

section \<open>The handshake\<close>

text \<open>From the point where the size of the display is known.\<close>

definition early_gpu_show :: "'v service \<Rightarrow> u32 \<Rightarrow> u32 \<Rightarrow> u8 list \<times> virtio \<times> 'v \<Rightarrow> (u8 list \<times> virtio \<times> 'v) run" where
  "early_gpu_show service w h x =
     (let fb_size = w * h * 4
      in res_bind (early_command service 40 (create_words w h) ''GPU: CREATE failed: ''
             (early_print (lit ''[GPU] Display Info OK. Binding Resolution...\<newline>'') x)) (\<lambda>(out, s, v).
         let (fb, s) = bump_allocate fb_size 4096 s
         in res_bind (early_command service 48 (attach_words fb fb_size) ''GPU: ATTACH failed: '' (out, s, v)) (\<lambda>(out, s, v).
            let s = emit (Map_Framebuffer fb (ucast fb_size)) s
            in res_bind (early_command service 48 (scanout_words w h) ''GPU: SCANOUT failed: '' (out, s, v)) (\<lambda>(out, s, v).
               let s = s\<lparr>mem := fill_pixels fb fb_size 0xFF0000FF (mem s)\<rparr>;
                   s = clean_range fb (fb + ucast fb_size) s
               in res_bind (early_command service 56 (transfer_words w h) ''GPU: TRANSFER failed: '' (out, s, v))
                    (early_command service 48 (flush_words w h) ''GPU: FLUSH failed: '')))))"

text \<open>The second default size is never taken.\<close>

definition early_gpu_init :: "'v service \<Rightarrow> u8 list \<times> virtio \<times> 'v \<Rightarrow> (u8 list \<times> virtio \<times> 'v) run" where
  "early_gpu_init service x =
     (let (out, s, v) = early_print (lit ''[GPU] Commencing VirtIO Handshake...\<newline>'') x;
         (req_info, s) = bump_allocate 24 8 s;
         (resp_info, s) = bump_allocate 408 8 s;
         s = s\<lparr>mem := put_mem (mem s) req_info (bytes32 VIRTIO_GPU_CMD_GET_DISPLAY_INFO)\<rparr>
     in res_bind (early_send_gpu_command service req_info 24 resp_info 408 (out, s, v)) (\<lambda>r.
        res_bind (expect VIRTIO_GPU_RESP_OK_DISPLAY_INFO ''GPU: GET_DISPLAY_INFO failed: '' r) (\<lambda>(out, s, v).
        let w = load32 (mem s) (resp_info + 32);
            h = load32 (mem s) (resp_info + 36);
            (w, h) = (if w = 0 \<or> h = 0 then (1280, 800) else (w, h));
            (w, h) = (if w = 0 \<or> h = 0 then (1024, 768) else (w, h))
        in res_bind (early_gpu_show service w h (out, s, v)) (\<lambda>x.
           Inr (early_print (lit ''[GPU] Handshake Complete! Screen should be active.\<newline>'') x)))))"

section \<open>Probing\<close>

definition early_legacy :: "(u64 \<Rightarrow> u32) \<Rightarrow> u64 \<Rightarrow> u8 list \<times> virtio \<times> 'v \<Rightarrow> (u8 list \<times> virtio \<times> 'v) run" where
  "early_legacy reg base x =
     (let (out, s, v) = early_print (lit ''[GPU] Hardware reported: Legacy Version 1\<newline>'') x;
          s = reg_writes [(base + 0x028, 4096), (base + VIRTIO_REG_QUEUE_SEL, 0)] s
      in if reg (base + 0x034) < 256 then early_kpanic ''GPU: queue too small for VIRTQ_SIZE\<newline>'' (out, s, v)
         else Inr (out, reg_writes [(base + VIRTIO_REG_QUEUE_NUM, 256), (base + 0x03C, 4096),
           (base + 0x040, ucast (desc_addr (gpu_q s) div 4096)),
           (base + VIRTIO_REG_STATUS, VIRTIO_STATUS_ACKNOWLEDGE OR VIRTIO_STATUS_DRIVER OR VIRTIO_STATUS_DRIVER_OK)] s, v))"

definition early_modern :: "(u64 \<Rightarrow> u32) \<Rightarrow> u64 \<Rightarrow> u8 list \<times> virtio \<times> 'v \<Rightarrow> (u8 list \<times> virtio \<times> 'v) run" where
  "early_modern reg base x =
     (let (out, s, v) = early_print (lit ''[GPU] Hardware reported: Modern Version 2\<newline>'') x;
          s = reg_writes [(base + 0x024, 0), (base + 0x020, 0), (base + 0x024, 1), (base + 0x020, 1),
                (base + VIRTIO_REG_STATUS, VIRTIO_STATUS_ACKNOWLEDGE OR VIRTIO_STATUS_DRIVER OR VIRTIO_STATUS_FEATURES_OK)] s
      in if reg (base + VIRTIO_REG_STATUS) AND VIRTIO_STATUS_FEATURES_OK = 0
         then early_kpanic ''GPU: device rejected feature negotiation\<newline>'' (out, s, v)
         else let s = reg_write (base + VIRTIO_REG_QUEUE_SEL) 0 s
              in if reg (base + 0x034) < 256 then early_kpanic ''GPU: queue too small for VIRTQ_SIZE\<newline>'' (out, s, v)
                 else let q = gpu_q s
                      in Inr (out, reg_writes [(base + VIRTIO_REG_QUEUE_NUM, 256),
                           (base + VIRTIO_REG_QUEUE_DESC_LOW, ucast (desc_addr q AND 0xFFFFFFFF)),
                           (base + VIRTIO_REG_QUEUE_DESC_HIGH, ucast (drop_bit 32 (desc_addr q))),
                           (base + VIRTIO_REG_QUEUE_AVAIL_LOW, ucast (avail_addr q AND 0xFFFFFFFF)),
                           (base + VIRTIO_REG_QUEUE_AVAIL_HIGH, ucast (drop_bit 32 (avail_addr q))),
                           (base + VIRTIO_REG_QUEUE_USED_LOW, ucast (used_addr q AND 0xFFFFFFFF)),
                           (base + VIRTIO_REG_QUEUE_USED_HIGH, ucast (drop_bit 32 (used_addr q))),
                           (base + VIRTIO_REG_QUEUE_READY, 1),
                           (base + VIRTIO_REG_STATUS,
                             VIRTIO_STATUS_ACKNOWLEDGE OR VIRTIO_STATUS_DRIVER OR VIRTIO_STATUS_FEATURES_OK OR VIRTIO_STATUS_DRIVER_OK)] s, v))"

definition early_gpu_device :: "'v service \<Rightarrow> (u64 \<Rightarrow> u32) \<Rightarrow> u64 \<Rightarrow> u8 list \<times> virtio \<times> 'v \<Rightarrow> (u8 list \<times> virtio \<times> 'v) run" where
  "early_gpu_device service reg base x =
     (let (out, s, v) = early_print (lit ''[KERNEL] VirtIO GPU found\<newline>'') x;
          s = s\<lparr>gpu_mmio_base := base\<rparr>;
          s = reg_writes [(base + VIRTIO_REG_STATUS, 0), (base + VIRTIO_REG_STATUS, VIRTIO_STATUS_ACKNOWLEDGE OR VIRTIO_STATUS_DRIVER)] s;
          (queue_base, s) = bump_allocate virtq_total 4096 s;
          s = s\<lparr>gpu_q := fresh_virtq queue_base\<rparr>
      in res_bind (if reg (base + 0x004) = 1 then early_legacy reg base (out, s, v) else early_modern reg base (out, s, v))
           (early_gpu_init service))"

definition early_probe_slot :: "'v service \<Rightarrow> (u64 \<Rightarrow> u32) \<Rightarrow> nat \<Rightarrow> u8 list \<times> virtio \<times> 'v \<Rightarrow> (u8 list \<times> virtio \<times> 'v) run" where
  "early_probe_slot service reg i x =
     (let base = VIRTIO_MMIO_BASE + of_nat i * VIRTIO_MMIO_SLOT_SIZE; devid = reg (base + 0x008)
      in if reg base = VIRTIO_MAGIC \<and> devid \<noteq> 0
         then if devid = VIRTIO_DEV_INPUT then Inr (early_print (lit ''[KERNEL] VirtIO Input found\<newline>'') x)
              else if devid = VIRTIO_DEV_GPU then early_gpu_device service reg base x
              else Inr x
         else Inr x)"

fun early_probe_slots :: "'v service \<Rightarrow> (u64 \<Rightarrow> u32) \<Rightarrow> nat list \<Rightarrow> u8 list \<times> virtio \<times> 'v \<Rightarrow> (u8 list \<times> virtio \<times> 'v) run" where
  "early_probe_slots service reg [] x = Inr x"
| "early_probe_slots service reg (i # is) x = res_bind (early_probe_slot service reg i x) (early_probe_slots service reg is)"

definition early_virtio_probe_and_init :: "'v service \<Rightarrow> (u64 \<Rightarrow> u32) \<Rightarrow> u8 list \<times> virtio \<times> 'v \<Rightarrow> (u8 list \<times> virtio \<times> 'v) run" where
  "early_virtio_probe_and_init service reg x =
     res_bind (early_probe_slots service reg [0..<VIRTIO_MMIO_SLOT_COUNT] (early_print (lit ''[KERNEL] VirtIO probe: scanning 32 slots...\<newline>'') x)) (\<lambda>x.
     Inr (early_print (lit ''[KERNEL] VirtIO probe complete\<newline>'') x))"

text \<open>The block read is a stub that leaves the buffer alone.\<close>

definition early_blk_read_sector :: "u64 \<Rightarrow> u64 \<Rightarrow> u8 list \<times> virtio \<times> 'v \<Rightarrow> u8 list \<times> virtio \<times> 'v" where
  "early_blk_read_sector sector buffer = early_print (lit ''[ VIRTIO ] Warning: Block read called (currently stubbed).\<newline>'')"

end
