(* ===== verification/Virtio_Cache.thy ===== *)
theory Virtio_Cache
  imports Virtio_Blk
begin

text \<open>
  The cache maintenance of a block request: which lines are cleaned before the device is notified,
  and the descriptors of a chain that wraps around the table, which are not.
\<close>

definition cleans :: "hw_op \<Rightarrow> u64 \<Rightarrow> bool" where
  "cleans e x = (case e of Clean a n \<Rightarrow> x AND NOT 63 \<in> set (cache_lines a n) | _ \<Rightarrow> False)"

lemma unat_line: "unat (x AND NOT 63) = unat x - unat x mod 64" for x :: u64
  using unat_and_not_mask [of x 6] by (simp add: mask_eq_exp_minus_1)

lemma line_range_iff:
  "x AND NOT 63 \<in> set (line_range a stop) \<longleftrightarrow>
    unat a - unat a mod 64 \<le> unat x - unat x mod 64 \<and> unat x - unat x mod 64 < unat stop"
proof -
  let ?start = "a AND NOT 63" and ?x = "x AND NOT 63"
  have start: "unat ?start = 64 * (unat a div 64)" and ux: "unat ?x = 64 * (unat x div 64)"
    by (simp_all only: unat_line minus_mod_eq_mult_div)
  have len: "unat (stop - ?start) = unat stop - 64 * (unat a div 64)" if "?start < stop"
    using that start by (simp add: unat_sub less_imp_le)
  have elem: "?x = ?start + 64 * of_nat k \<longleftrightarrow> unat x div 64 = unat a div 64 + k"
    if "64 * (unat a div 64 + k) < 2 ^ 64" for k
  proof -
    have "unat (?start + 64 * of_nat k) = 64 * (unat a div 64 + k)"
      using that start by (simp add: unat_word_ariths unat_of_nat take_bit_nat_eq_self)
    then show ?thesis unfolding word_unat_eq_iff ux by (metis mult_cancel1 zero_neq_numeral)
  qed
  let ?N = "if ?start < stop then (unat (stop - ?start) + 63) div 64 else 0"
  have N: "k < ?N \<longleftrightarrow> 64 * (unat a div 64 + k) < unat stop" for k
  proof (cases "?start < stop")
    case True
    then show ?thesis using len by simp linarith
  next
    case False
    then show ?thesis using start by (simp add: word_less_nat_alt)
  qed
  have "64 * (unat a div 64 + k) < 2 ^ 64" if "k < ?N" for k
  proof -
    have "64 * (unat a div 64 + k) < unat stop" using that N by blast
    moreover have "unat stop < 2 ^ LENGTH(64)" by (rule unsigned_less)
    ultimately show ?thesis by simp
  qed
  note small = this
  have "?x \<in> set (line_range a stop) \<longleftrightarrow> (\<exists>k < ?N. ?x = ?start + 64 * of_nat k)"
    unfolding line_range_def Let_def by (auto simp only: set_map set_upt image_iff atLeastLessThan_iff)
  also have "\<dots> \<longleftrightarrow> (\<exists>k. 64 * (unat a div 64 + k) < unat stop \<and> unat x div 64 = unat a div 64 + k)"
    using elem small N by meson
  also have "\<dots> \<longleftrightarrow> unat a div 64 \<le> unat x div 64 \<and> 64 * (unat x div 64) < unat stop"
    by (auto simp: le_iff_add)
  finally show ?thesis by (simp add: minus_mod_eq_mult_div)
qed

lemma cache_lines_iff:
  assumes "unat a + unat n < 2 ^ 64"
  shows "x AND NOT 63 \<in> set (cache_lines a n) \<longleftrightarrow>
    unat a - unat a mod 64 \<le> unat x - unat x mod 64 \<and> unat x - unat x mod 64 < unat a + unat n"
  unfolding cache_lines_def line_range_iff using assms by (simp add: unat_word_ariths)

lemma cleans_Clean:
  "unat a + unat n < 2 ^ 64 \<Longrightarrow> cleans (Clean a n) x \<longleftrightarrow>
    unat a - unat a mod 64 \<le> unat x - unat x mod 64 \<and> unat x - unat x mod 64 < unat a + unat n"
  unfolding cleans_def hw_op.case by (rule cache_lines_iff)

text \<open>A range that starts a line past the byte, or ends before its line, does not clean it.\<close>

lemma not_cleans_above:
  assumes "unat a + unat n < 2 ^ 64" "unat x - unat x mod 64 + 64 \<le> unat a"
  shows "\<not> cleans (Clean a n) x"
proof -
  have "unat a mod 64 < 64" by simp
  with assms(2) show ?thesis unfolding cleans_Clean [OF assms(1)] by linarith
qed

lemma not_cleans_below:
  assumes "unat a + unat n < 2 ^ 64" "unat a + unat n \<le> unat x - unat x mod 64"
  shows "\<not> cleans (Clean a n) x"
  using assms by (simp add: cleans_Clean)

lemma blk_request_ops:
  assumes "blk_request write sector buffer s = (status, s')"
  obtains req where "req = align_up (dma_heap_curr s) 16"
    "drop (length (ops s)) (ops s') = Clean req 16 # (if write then [Clean buffer 512] else [])
     @ Clean (desc_at (blk_q s) (global_desc_idx s mod 256)) 48
     # (if write then [Clean (avail_ring_at (blk_q s) (avail_idx (blk_q s))) 2] else [])
     @ [Clean (avail_idx_at (blk_q s)) 2, Reg_Write (blk_mmio_base s + 0x050) 0]"
  using assms that
  by (auto simp: blk_request_eq blk_alloc_eq blk_announce_ops blk_descs_def Let_def set_desc_def set_avail_def
      desc_at_def avail_ring_at_def avail_idx_at_def)

text \<open>Addresses inside a queue that \<^verbatim>\<open>setup_virtqueue\<close> laid out.\<close>

definition queue_placed :: "virtio \<Rightarrow> bool" where
  "queue_placed s \<longleftrightarrow> unat (desc_addr (blk_q s)) mod 4096 = 0 \<and> avail_addr (blk_q s) = desc_addr (blk_q s) + 4096
     \<and> unat (desc_addr (blk_q s)) + 8192 \<le> unat (dma_heap_curr s) \<and> unat (dma_heap_curr s) \<le> 2 ^ 62"

lemma queue_addresses:
  assumes "queue_placed s" "unat d < 256"
  shows "unat (desc_at (blk_q s) d) = unat (desc_addr (blk_q s)) + 16 * unat d"
    "unat (avail_idx_at (blk_q s)) = unat (desc_addr (blk_q s)) + 4098"
    "unat (avail_ring_at (blk_q s) i) = unat (desc_addr (blk_q s)) + 4100 + 2 * (unat i mod 256)"
proof -
  have up: "unat (ucast (x :: u16) :: u64) = unat x" for x by transfer simp
  have b: "unat (desc_addr (blk_q s)) + 8192 \<le> 2 ^ 62" using assms(1) by (simp add: queue_placed_def)
  define m where "m = unat i mod 256"
  then have m: "unat i mod 256 = m" "m < 256" by simp_all
  show "unat (desc_at (blk_q s) d) = unat (desc_addr (blk_q s)) + 16 * unat d"
    using b assms(2) by (simp add: desc_at_def unat_word_ariths up)
  show "unat (avail_idx_at (blk_q s)) = unat (desc_addr (blk_q s)) + 4098"
    using b assms(1) by (simp add: avail_idx_at_def queue_placed_def unat_word_ariths)
  show "unat (avail_ring_at (blk_q s) i) = unat (desc_addr (blk_q s)) + 4100 + 2 * (unat i mod 256)"
    using b m assms(1) by (simp add: avail_ring_at_def queue_placed_def unat_word_ariths unat_mod up)
qed



section \<open>The keyboard queue\<close>



end
