(* ===== verification/Virtio_Early_Properties.thy ===== *)
theory Virtio_Early_Properties
  imports Virtio_Early Virtio_Cache Virtio_Gpu
begin

text \<open>
  The earlier display driver against \<^verbatim>\<open>kernel/virtio.c\<close>: what the two handshakes have in common, what the
  later one no longer checks, and the cache line the earlier one forgets.
\<close>

section \<open>States that differ in cache maintenance only\<close>

text \<open>
  The earlier driver does not keep the size of the display, and its cache maintenance is recorded line by
  line. All else agrees: memory, arena, queues, and the register writes and mappings in their order.
\<close>

definition device_op :: "hw_op \<Rightarrow> bool" where
  "device_op e \<longleftrightarrow> (case e of Reg_Write _ _ \<Rightarrow> True | Map_Framebuffer _ _ \<Rightarrow> True | _ \<Rightarrow> False)"

definition agree :: "virtio \<Rightarrow> virtio \<Rightarrow> bool" where
  "agree s t \<longleftrightarrow> mem s = mem t \<and> dma_heap_curr s = dma_heap_curr t \<and> global_desc_idx s = global_desc_idx t
     \<and> gpu_mmio_base s = gpu_mmio_base t \<and> gpu_q s = gpu_q t \<and> gpu_last_used_idx s = gpu_last_used_idx t
     \<and> filter device_op (ops s) = filter device_op (ops t)"

lemma device_op_simps [simp]:
  "\<not> device_op (Clean a n)" "\<not> device_op (Invalidate a n)" "device_op (Reg_Write a w)" "device_op (Map_Framebuffer a k)"
  by (simp_all add: device_op_def)

lemma agree_refl [simp]: "agree s s"
  by (simp add: agree_def)

lemma fold_emit: "fold (\<lambda>a. emit (f a)) as s = s\<lparr>ops := ops s @ map f as\<rparr>"
  by (induction as arbitrary: s) (simp_all add: emit_def)

lemma clean_range_ops: "clean_range a b s = s\<lparr>ops := ops s @ map (\<lambda>a. Clean a 1) (line_range a b)\<rparr>"
  by (simp add: clean_range_def fold_emit)

lemma invalidate_range_ops: "invalidate_range a b s = s\<lparr>ops := ops s @ map (\<lambda>a. Invalidate a 1) (line_range a b)\<rparr>"
  by (simp add: invalidate_range_def fold_emit)

lemma no_device_op [simp]: "filter device_op (map (\<lambda>a. Clean a n) as) = []" "filter device_op (map (\<lambda>a. Invalidate a n) as) = []"
  "filter device_op (replicate k (Invalidate a m)) = []"
  by (simp_all add: filter_empty_conv)

lemmas effects = cache_flush_def cache_invalidate_def reg_write_def emit_def clean_range_ops invalidate_range_ops

lemma agree_bump:
  assumes "agree s t"
  obtains a s' t' where "bump_allocate n al s = (a, s')" "bump_allocate n al t = (a, t')" "agree s' t'"
  using assms by (simp add: agree_def bump_allocate_def Let_def)

lemma agree_mem: "agree s t \<Longrightarrow> agree (s\<lparr>mem := f (mem s)\<rparr>) (t\<lparr>mem := f (mem t)\<rparr>)"
  by (simp add: agree_def)

lemma agree_size: "agree s (t\<lparr>active_fb_phys := p, active_fb_width := w, active_fb_height := h, active_fb_size := n\<rparr>) \<longleftrightarrow> agree s t"
  "agree s (t\<lparr>active_fb_phys := p\<rparr>) \<longleftrightarrow> agree s t"
  "agree s (t\<lparr>active_fb_width := w, active_fb_height := h, active_fb_size := n\<rparr>) \<longleftrightarrow> agree s t"
  by (simp_all add: agree_def)

section \<open>Following\<close>

text \<open>
  A run of the later driver follows one of the earlier: it ends in the same state where the earlier run
  ends, and waits for ever where that does. A run that halts says nothing.
\<close>

definition follows :: "('a \<Rightarrow> 'b \<Rightarrow> bool) \<Rightarrow> 'a run \<Rightarrow> 'b res \<Rightarrow> bool" where
  "follows R r r' \<longleftrightarrow> (\<forall>x. r = Inr x \<longrightarrow> (\<exists>y. r' = Inr y \<and> R x y)) \<and> (r = Inl Waits \<longrightarrow> r' = Inl Spin)"

lemma follows_Inr [simp]: "follows R (Inr x) (Inr y) \<longleftrightarrow> R x y"
  by (auto simp: follows_def)

lemma follows_bind:
  assumes "follows R r r'" "\<And>x y. R x y \<Longrightarrow> follows Q (f x) (g y)"
  shows "follows Q (res_bind r f) (res_bind r' g)"
proof (cases r)
  case (Inl e)
  with assms(1) show ?thesis by (cases e) (auto simp: follows_def)
next
  case (Inr x)
  with assms(1) obtain y where "r' = Inr y" "R x y" by (auto simp: follows_def)
  with Inr assms(2) show ?thesis by simp
qed

definition same_state :: "u8 list \<times> virtio \<times> 'v \<Rightarrow> virtio \<times> 'v \<Rightarrow> bool" where
  "same_state = (\<lambda>(out, s, v) (t, v'). agree s t \<and> v = v')"

definition same_answer :: "u32 \<times> u8 list \<times> virtio \<times> 'v \<Rightarrow> u32 \<times> virtio \<times> 'v \<Rightarrow> bool" where
  "same_answer = (\<lambda>(r, x) (r', y). r = r' \<and> same_state x y)"

definition same_wait :: "virtq \<times> virtio \<times> 'v \<Rightarrow> virtq \<times> virtio \<times> 'v \<Rightarrow> bool" where
  "same_wait = (\<lambda>(q, s, v) (q', t, v'). q = q' \<and> agree s t \<and> v = v')"

lemma await_follows:
  "agree s t \<Longrightarrow> base = base' \<Longrightarrow> idx = idx' \<Longrightarrow> q = q'
    \<Longrightarrow> follows same_wait (waiting (await service base idx q s v)) (await service base' idx' q' t v)"
  by (auto simp: await_def waiting_def agree_def follows_def same_wait_def split: option.split)

lemma send_follows:
  assumes "agree s t"
  shows "follows same_answer (early_send_gpu_command service a m b n (out, s, v)) (send_gpu_command service a m b n (t, v))"
  using assms
  by (auto simp: early_send_gpu_command_def send_gpu_command_def take_desc_def early_announce_def effects Let_def
      same_wait_def same_answer_def same_state_def agree_def set_avail_def set_desc_def
      intro!: follows_bind [OF await_follows])

lemma expect_follows: "same_answer x y \<Longrightarrow> follows same_state (expect e what x) (case y of (_, z) \<Rightarrow> Inr z)"
  by (auto simp: same_answer_def expect_def early_kpanic_def early_print_def follows_def split: if_splits)

lemma same_stateE:
  assumes "same_state x y"
  obtains out s t v where "x = (out, s, v)" "y = (t, v)" "agree s t"
  using assms by (cases x, cases y) (auto simp: same_state_def)

lemma same_stateI: "agree s t \<Longrightarrow> same_state (out, s, v) (t, v)"
  by (simp add: same_state_def)

lemma early_print_triple [simp]: "early_print str (out, s, v) = (out @ str, s, v)"
  by (simp add: early_print_def)

lemma same_state_print [simp]: "same_state (early_print str x) y \<longleftrightarrow> same_state x y"
  by (auto simp: same_state_def early_print_def split: prod.split)

lemma command_follows:
  assumes "same_state x y"
  shows "follows same_state (early_command service n words what x) (gpu_command service n words y)"
proof -
  obtain out s t v where x: "x = (out, s, v)" "y = (t, v)" "agree s t" by (rule same_stateE [OF assms])
  obtain req s1 t1 where b1: "bump_allocate n 8 s = (req, s1)" "bump_allocate n 8 t = (req, t1)" "agree s1 t1"
    by (rule agree_bump [OF x(3)])
  obtain resp s2 t2 where b2: "bump_allocate 24 8 s1 = (resp, s2)" "bump_allocate 24 8 t1 = (resp, t2)" "agree s2 t2"
    by (rule agree_bump [OF b1(3)])
  show ?thesis
    unfolding early_command_def gpu_command_def
    by (simp add: x b1 b2) (rule follows_bind [OF send_follows [OF agree_mem [OF b2(3)]] expect_follows])
qed

lemma follows_step:
  assumes "follows same_state r r'" "\<And>out s v t. agree s t \<Longrightarrow> follows Q (f (out, s, v)) (g (t, v))"
  shows "follows Q (res_bind r f) (res_bind r' g)"
  using assms(1) by (rule follows_bind) (auto simp: same_state_def intro: assms(2))

lemma show_follows:
  assumes "same_state x y"
  shows "follows same_state (early_gpu_show service w h x) (gpu_show service w h y)"
proof -
  obtain out s t v where x: "x = (out, s, v)" "y = (t, v)" "agree s t" by (rule same_stateE [OF assms])
  then show ?thesis
    by (auto simp: early_gpu_show_def gpu_show_def early_print_def Let_def bump_allocate_def effects agree_def
        intro!: follows_step [OF command_follows] command_follows same_stateI)
qed

lemma info_follows:
  assumes "same_answer x y"
  shows "follows same_state
    (res_bind (expect e what x) (\<lambda>(out, s, v). let w = load32 (mem s) a; h = load32 (mem s) b
      in case if w = 0 \<or> h = 0 then (1280, 800) else (w, h) of (w, h) \<Rightarrow>
         case if w = 0 \<or> h = 0 then (1024, 768) else (w, h) of (w, h) \<Rightarrow>
           res_bind (early_gpu_show service w h (out, s, v)) (\<lambda>x. Inr (early_print str x))))
    (case y of (_, s, v) \<Rightarrow> let w = load32 (mem s) a; h = load32 (mem s) b
      in case if w = 0 \<or> h = 0 then (1280, 800) else (w, h) of (w, h) \<Rightarrow> gpu_show service w h (s, v))"
proof -
  have printed: "follows same_state (res_bind (early_gpu_show service w h (out, s, v)) (\<lambda>x. Inr (early_print str x))) (gpu_show service w h (t, v))"
    if "agree s t" for w h out s t v
    using follows_bind [OF show_follows [OF same_stateI [OF that]], of same_state "\<lambda>x. Inr (early_print str x)" Inr]
    by (simp add: res_bind_Inr_right)
  obtain r out s t v where x: "x = (r, out, s, v)" "y = (r, t, v)" "agree s t"
    using assms by (cases x, cases y) (auto simp: same_answer_def same_state_def)
  show ?thesis
  proof (cases "r = e")
    case True
    have "mem s = mem t" using x(3) by (simp add: agree_def)
    then show ?thesis using True x printed by (auto simp: expect_def Let_def)
  next
    case False
    then show ?thesis by (simp add: x expect_def early_kpanic_def early_print_def follows_def)
  qed
qed

lemma init_follows:
  assumes "same_state x y"
  shows "follows same_state (early_gpu_init service x) (gpu_init service y)"
proof -
  obtain out s t v where x: "x = (out, s, v)" "y = (t, v)" "agree s t" by (rule same_stateE [OF assms])
  obtain req s1 t1 where b1: "bump_allocate 24 8 s = (req, s1)" "bump_allocate 24 8 t = (req, t1)" "agree s1 t1"
    by (rule agree_bump [OF x(3)])
  obtain resp s2 t2 where b2: "bump_allocate 408 8 s1 = (resp, s2)" "bump_allocate 408 8 t1 = (resp, t2)" "agree s2 t2"
    by (rule agree_bump [OF b1(3)])
  show ?thesis
    by (simp add: early_gpu_init_def gpu_init_def x b1 b2)
      (rule follows_bind, rule send_follows, rule agree_mem [OF b2(3)], erule info_follows)
qed

text \<open>
  C16: where the earlier handshake succeeds, \<^verbatim>\<open>gpu_init\<close> does the same: it returns with the same memory,
  arena, display queue and device state after the same register writes and the same framebuffer mapping;
  and where the earlier one waits for ever, so does it.
\<close>

theorem gpu_init_follows_early_handshake:
  "case early_gpu_init service (out, s, v) of
     Inr (out', s', v') \<Rightarrow> \<exists>t. gpu_init service (s, v) = Inr (t, v') \<and> agree s' t
   | Inl Waits \<Rightarrow> gpu_init service (s, v) = Inl Spin
   | Inl (Halts out' s') \<Rightarrow> True"
  using init_follows [of "(out, s, v)" "(s, v)" service]
  by (auto simp: follows_def same_state_def split: sum.split stop.split)

section \<open>Answers that nobody reads\<close>

lemma load32_put_other:
  assumes "apart a (length bs) b 4" "unat a + length bs \<le> 2 ^ 64" "unat b + 4 \<le> 2 ^ 64"
  shows "load32 (put_mem m a bs) b = load32 m b"
  by (simp add: load32_def get_put_mem_other [OF assms])

lemma load32_zeroed: "4 \<le> unat n \<Longrightarrow> load32 (zero_mem m b n) b = 0"
  by (simp add: load32_def get_mem_def zero_mem_def get32_def upt_rec_numeral)

lemma mute_send:
  "in_step s \<Longrightarrow> \<exists>s'. early_send_gpu_command mute a m b n (out, s, v) = Inr (load32 (mem s) b, out, s', v)"
  by (simp add: early_send_gpu_command_def take_desc_def early_announce_def effects Let_def waiting_def await_def mute_def
      in_step_def set_avail_def set_desc_def)

text \<open>
  C34: \<^verbatim>\<open>gpu_init\<close> does not look at the device's answers: with a display that completes every request and
  does nothing, the earlier driver halts in \<^verbatim>\<open>kpanic\<close> after the first command, naming the type it found;
  \<^verbatim>\<open>gpu_init\<close> goes through all its commands and returns.
\<close>

theorem gpu_init_ignores_mute_display:
  assumes "in_step s" "unat (dma_heap_curr s) + 2 ^ 34 \<le> 2 ^ 62"
  shows "(\<exists>s' v'. gpu_init mute (s, v) = Inr (s', v'))
    \<and> (\<exists>s'. early_gpu_init mute (out, s, v) = Inl (Halts (out @ lit ''[GPU] Commencing VirtIO Handshake...\<newline>''
         @ lit ''GPU: GET_DISPLAY_INFO failed: '' @ lit ''0x0000000000000000''
         @ concat (kpanic_output (lit ''Handshake aborted''))) s'))"
proof
  show "\<exists>s' v'. gpu_init mute (s, v) = Inr (s', v')"
    by (rule init_returns [OF mute_display assms, of v "\<lambda>_. ()"]) blast
next
  define req where "req = align_up (dma_heap_curr s) 8"
  define resp where "resp = align_up (req + 24) 8"
  have req: "unat req < unat (dma_heap_curr s) + 8"
    using align_up_props [of 8 3 "dma_heap_curr s"] assms(2) by (simp add: req_def)
  then have next24: "unat (req + 24) = unat req + 24" using assms(2) by (simp add: unat_word_ariths)
  have resp: "unat req + 24 \<le> unat resp" "unat resp < unat req + 32"
    using align_up_props [of 8 3 "req + 24"] assms(2) req next24 by (simp_all add: resp_def)
  let ?m = "put_mem (zero_mem (zero_mem (mem s) req 24) resp 408) req (bytes32 VIRTIO_GPU_CMD_GET_DISPLAY_INFO)"
  have none: "load32 ?m resp = 0"
    using load32_put_other [of req "bytes32 VIRTIO_GPU_CMD_GET_DISPLAY_INFO" resp] req resp assms(2)
    by (simp add: apart_def load32_zeroed)
  have hex: "uart_hex_string 0 = lit ''0x0000000000000000''"
    by code_simp
  obtain s1 where b1: "bump_allocate 24 8 s = (req, s1)" "in_step s1" "mem s1 = zero_mem (mem s) req 24" "dma_heap_curr s1 = req + 24"
    using assms(1) by (simp add: bump_allocate_def Let_def req_def in_step_def)
  obtain s2 where b2: "bump_allocate 408 8 s1 = (resp, s2)" "in_step s2" "mem s2 = zero_mem (mem s1) resp 408"
    using b1(2,4) by (simp add: bump_allocate_def Let_def resp_def in_step_def)
  have "in_step (s2\<lparr>mem := ?m\<rparr>)" using b2(2) by (simp add: in_step_def)
  from mute_send [OF this, of req 24 resp 408 "out @ lit ''[GPU] Commencing VirtIO Handshake...\<newline>''" v]
  show "\<exists>s'. early_gpu_init mute (out, s, v) = Inl (Halts (out @ lit ''[GPU] Commencing VirtIO Handshake...\<newline>''
         @ lit ''GPU: GET_DISPLAY_INFO failed: '' @ lit ''0x0000000000000000''
         @ concat (kpanic_output (lit ''Handshake aborted''))) s')"
    by (auto simp: early_gpu_init_def b1(1,3) b2(1,3) none expect_def early_kpanic_def hex)
qed

theorem gpu_init_ignores_mute_display_witness:
  "(\<exists>s' v'. gpu_init mute (virtio_statics, ()) = Inr (s', v'))
    \<and> (\<exists>s'. early_gpu_init mute ([], virtio_statics, ()) = Inl (Halts (lit ''[GPU] Commencing VirtIO Handshake...\<newline>''
         @ lit ''GPU: GET_DISPLAY_INFO failed: '' @ lit ''0x0000000000000000''
         @ concat (kpanic_output (lit ''Handshake aborted''))) s'))"
  using gpu_init_ignores_mute_display [of virtio_statics "()" "[]"]
  by (simp add: in_step_def virtio_statics_def null_virtq_def)

section \<open>The ring slot in the cache\<close>

lemma line_of_range: "a \<in> set (line_range start stop) \<Longrightarrow> unat a mod 64 = 0"
proof -
  have "unat (l AND NOT 63) mod 64 = 0" for l :: u64
    by (simp only: unat_line minus_mod_eq_mult_div) simp
  moreover have "unat (64 * of_nat k :: u64) mod 64 = 0" for k
    by (simp add: unat_word_ariths mod_mod_cancel)
  moreover have "unat (x + y) mod 64 = (unat x mod 64 + unat y mod 64) mod 64" for x y :: u64
    by (simp add: unat_word_ariths mod_mod_cancel mod_add_eq)
  ultimately show "a \<in> set (line_range start stop) \<Longrightarrow> unat a mod 64 = 0"
    by (auto simp: line_range_def Let_def)
qed

lemma cleans_line:
  assumes "unat a mod 64 = 0"
  shows "cleans (Clean a 1) x \<longleftrightarrow> x AND NOT 63 = a"
proof -
  have "unat a < 2 ^ LENGTH(64)" by (rule unsigned_less)
  then have "unat a + unat (1 :: u32) < 2 ^ 64" using assms by simp presburger
  then show ?thesis
    unfolding cleans_Clean [OF \<open>unat a + unat (1 :: u32) < 2 ^ 64\<close>] word_unat_eq_iff unat_line using assms by auto
qed

lemma cleans_range:
  "(\<exists>e \<in> set (map (\<lambda>a. Clean a 1) (line_range start stop)). cleans e x) \<longleftrightarrow>
    unat start - unat start mod 64 \<le> unat x - unat x mod 64 \<and> unat x - unat x mod 64 < unat stop"
proof -
  have "(\<exists>a \<in> set (line_range start stop). cleans (Clean a 1) x) \<longleftrightarrow> (\<exists>a \<in> set (line_range start stop). x AND NOT 63 = a)"
    by (intro bex_cong refl cleans_line line_of_range)
  then show ?thesis unfolding line_range_iff [symmetric] by (simp only: set_map bex_simps) blast
qed

text \<open>
  C31: before it notifies the display, the earlier driver cleans the cache line of the ring slot it filled
  exactly when the slot lies in the first line of the ring, the one of the index: from slot 30 on the
  device may read a stale descriptor number. The later driver flushes the slot by its own address.
\<close>

theorem early_slot_cleaned_iff_first_line:
  assumes "unat (desc_addr q) mod 4096 = 0" "avail_addr q = desc_addr q + 4096"
    "unat (desc_addr q) + 8192 \<le> unat request" "unat request + unat n < 2 ^ 62" "unat d0 < 256" "unat d1 < 256"
  shows "(\<exists>e \<in> set (drop (length (ops s)) (ops (early_announce request n d0 d1 q s))). cleans e (avail_ring_at q (avail_idx q)))
    \<longleftrightarrow> unat (avail_idx q) mod 256 < 30"
proof -
  have up: "unat (ucast (x :: u16) :: u64) = unat x" for x by transfer simp
  define k where "k = unat (desc_addr q) div 64"
  have "unat (desc_addr q) mod 64 = unat (desc_addr q) mod 4096 mod 64" by (rule mod_mod_cancel [symmetric]) simp
  then have k: "unat (desc_addr q) = 64 * k" using assms(1) mult_div_mod_eq [of 64 "unat (desc_addr q)"] by (simp add: k_def)
  define m where "m = unat (avail_idx q) mod 256"
  have m: "m < 256" by (simp add: m_def)
  let ?x = "avail_ring_at q (avail_idx q)"
  have b: "64 * k + 8192 \<le> 2 ^ 62" using assms(3,4) k by simp
  have x: "unat ?x = 64 * k + 4100 + 2 * m"
    using b m assms(2) k by (simp add: avail_ring_at_def unat_word_ariths unat_mod up m_def)
  have idx: "unat (avail_idx_at q) = 64 * k + 4098" "unat (avail_idx_at q + 2) = 64 * k + 4100"
    using b assms(2) k by (simp_all add: avail_idx_at_def unat_word_ariths)
  have d: "unat (desc_at q d1 + 16) = 64 * k + 16 * unat d1 + 16"
    using b assms(6) k by (simp add: desc_at_def unat_word_ariths up)
  have e: "64 * k + 4100 + 2 * m = 4 + 2 * m + (k + 64) * 64" "64 * k + 4098 = 2 + (k + 64) * 64" by simp_all
  have line: "unat ?x - unat ?x mod 64 = 64 * (k + 64 + (4 + 2 * m) div 64)"
    unfolding x minus_mod_eq_mult_div e(1) by (subst div_mult_self1) simp_all
  have req: "unat (request + ucast n) = unat request + unat n" using assms(4) by (simp add: unat_word_ariths)
  have "unat (avail_idx_at q AND NOT 63) = 64 * (k + 64)"
    unfolding unat_line idx minus_mod_eq_mult_div e(2) by (subst div_mult_self1) simp_all
  then have "cleans (Clean (avail_idx_at q AND NOT 63) 1) ?x \<longleftrightarrow> m < 30"
    using div_eq_0_iff [of "4 + 2 * m" 64]
    by (subst cleans_line) (simp_all only: word_unat_eq_iff unat_line line, auto)
  moreover have "\<not> (\<exists>e \<in> set (map (\<lambda>a. Clean a 1) (line_range request (request + ucast n))). cleans e ?x)"
  proof -
    define r c where "r = unat request" and "c = (4 + 2 * m) div 64"
    have "c \<le> 8" "r mod 64 < 64" "64 * k + 8192 \<le> r" using m assms(3) k by (auto simp: c_def r_def)
    then have "\<not> r - r mod 64 \<le> 64 * (k + 64 + c)" by (simp add: not_le less_diff_conv)
    then show ?thesis unfolding cleans_range line r_def c_def by blast
  qed
  moreover have "\<not> (\<exists>e \<in> set (map (\<lambda>a. Clean a 1) (line_range (desc_at q d0) (desc_at q d1 + 16))). cleans e ?x)"
    unfolding cleans_range line d using assms(6) by simp
  moreover have "(\<exists>e \<in> set (map (\<lambda>a. Clean a 1) (line_range ?x (avail_idx_at q + 2))). cleans e ?x) \<longleftrightarrow> m < 30"
  proof -
    define c where "c = (4 + 2 * m) div 64"
    have "64 * (k + 64 + c) < 64 * k + 4100 \<longleftrightarrow> c = 0" by auto
    also have "\<dots> \<longleftrightarrow> m < 30" by (auto simp: c_def div_eq_0_iff)
    finally show ?thesis unfolding cleans_range line idx c_def by simp
  qed
  ultimately show ?thesis
    unfolding m_def [symmetric]
    by (auto simp: early_announce_def effects Let_def bex_Un cleans_def [of "Reg_Write _ _"])
qed

theorem early_slot_cleaned_iff_first_line_witness:
  "\<not> (\<exists>e \<in> set (ops (early_announce 0x50003000 48 60 61 ((fresh_virtq 0x50000000)\<lparr>avail_idx := 30\<rparr>) virtio_statics)).
     cleans e 0x50001040)"
  using early_slot_cleaned_iff_first_line [of "(fresh_virtq 0x50000000)\<lparr>avail_idx := 30\<rparr>" "0x50003000" 48 60 61 virtio_statics]
  by (simp add: fresh_virtq_def virtq_desc_size_def avail_ring_at_def virtio_statics_def)

end
