(* ===== verification/Struct_Layouts.thy ===== *)
theory Struct_Layouts
  imports Virtio_Lemmas
begin

text \<open>
  The packed structures of \<^verbatim>\<open>include/os_virtio.h\<close> as lists of fields with their sizes, and the bytes of a
  structure with given field values. The drivers fill their requests word by word or byte by byte; the
  lemmas say that the result is the structure.
\<close>

section \<open>Packed structures\<close>

type_synonym fields = "(string \<times> nat) list"

definition size_of :: "fields \<Rightarrow> nat" where
  "size_of fs = sum_list (map snd fs)"

definition offset_of :: "fields \<Rightarrow> string \<Rightarrow> nat" where
  "offset_of fs name = size_of (takeWhile (\<lambda>(n, _). n \<noteq> name) fs)"

definition inside :: "string \<Rightarrow> fields \<Rightarrow> fields" where
  "inside p fs = map (\<lambda>(n, k). (p @ ''.'' @ n, k)) fs"

definition encode :: "fields \<Rightarrow> (string \<Rightarrow> u64) \<Rightarrow> u8 list" where
  "encode fs val = concat (map (\<lambda>(n, k). take k (bytes64 (val n))) fs)"

definition virtio_blk_req :: fields where
  "virtio_blk_req = [(''type'', 4), (''reserved'', 4), (''sector'', 8)]"

definition virtio_input_event :: fields where
  "virtio_input_event = [(''type'', 2), (''code'', 2), (''value'', 4)]"

definition virtio_gpu_ctrl_hdr :: fields where
  "virtio_gpu_ctrl_hdr = [(''type'', 4), (''flags'', 4), (''fence_id'', 8), (''ctx_id'', 4), (''padding'', 4)]"

definition virtio_gpu_rect :: fields where
  "virtio_gpu_rect = [(''x'', 4), (''y'', 4), (''width'', 4), (''height'', 4)]"

definition virtio_gpu_resp_display_info :: fields where
  "virtio_gpu_resp_display_info = inside ''hdr'' virtio_gpu_ctrl_hdr
     @ concat (replicate 16 (inside ''pmodes'' (inside ''r'' virtio_gpu_rect @ [(''enabled'', 4), (''flags'', 4)])))"

definition virtio_gpu_resource_create_2d :: fields where
  "virtio_gpu_resource_create_2d = inside ''hdr'' virtio_gpu_ctrl_hdr
     @ [(''resource_id'', 4), (''format'', 4), (''width'', 4), (''height'', 4)]"

definition virtio_gpu_set_scanout :: fields where
  "virtio_gpu_set_scanout = inside ''hdr'' virtio_gpu_ctrl_hdr @ inside ''r'' virtio_gpu_rect @ [(''scanout_id'', 4), (''resource_id'', 4)]"

definition virtio_gpu_transfer_to_host_2d :: fields where
  "virtio_gpu_transfer_to_host_2d = inside ''hdr'' virtio_gpu_ctrl_hdr @ inside ''r'' virtio_gpu_rect
     @ [(''offset'', 8), (''resource_id'', 4), (''padding'', 4)]"

definition virtio_gpu_resource_flush :: fields where
  "virtio_gpu_resource_flush = inside ''hdr'' virtio_gpu_ctrl_hdr @ inside ''r'' virtio_gpu_rect @ [(''resource_id'', 4), (''padding'', 4)]"

definition virtio_gpu_mem_entry :: fields where
  "virtio_gpu_mem_entry = [(''addr'', 8), (''length'', 4), (''padding'', 4)]"

definition virtio_gpu_resource_attach_backing :: fields where
  "virtio_gpu_resource_attach_backing = inside ''hdr'' virtio_gpu_ctrl_hdr @ [(''resource_id'', 4), (''nr_entries'', 4)]"

section \<open>Blocks of words in memory\<close>

lemma put_mem_at:
  assumes "unat a + N \<le> 2 ^ 64" "i + length bs \<le> N" "j < N"
  shows "put_mem m (a + of_nat i) bs (a + of_nat j) = (if i \<le> j \<and> j < i + length bs then bs ! (j - i) else m (a + of_nat j))"
proof -
  have a: "unat (a + of_nat j) = unat a + j" using assms(1,3) by (rule unat_add_of_nat)
  show ?thesis
  proof (cases "bs = []")
    case True
    then show ?thesis by (auto simp: put_mem_def)
  next
    case False
    then have "i < N" using assms(2) by (cases bs) simp_all
    then have b: "unat (a + of_nat i) = unat a + i" using assms(1) by (intro unat_add_of_nat)
    have "unat (a + of_nat j - (a + of_nat i)) = (if i \<le> j then j - i else 2 ^ 64 + j - i)"
      unfolding unat_sub_if' a b using assms(1,3) \<open>i < N\<close> by auto
    then show ?thesis using assms(1,2) by (auto simp: put_mem_def)
  qed
qed

lemma length_word_bytes [simp]: "length (concat (map bytes32 l)) = 4 * length l"
  by (induction l) simp_all

lemma nth_word_bytes: "j < 4 * length l \<Longrightarrow> concat (map bytes32 l) ! j = bytes32 (l ! (j div 4)) ! (j mod 4)"
proof (induction l arbitrary: j)
  case (Cons w l)
  show ?case
  proof (cases "j < 4")
    case True
    then show ?thesis by (simp add: nth_append)
  next
    case False
    then obtain i where "j = i + 4" using le_add_diff_inverse2 [of 4 j] by (metis not_less)
    moreover from this have "j div 4 = Suc (i div 4)" "j mod 4 = i mod 4" by simp_all
    ultimately show ?thesis using Cons.IH [of i] Cons.prems by (simp add: nth_append)
  qed
qed simp

lemma put_word_read:
  assumes "get_mem m a (4 * length l) = concat (map bytes32 l)" "i < length l" "unat a + 4 * length l \<le> 2 ^ 64"
  shows "get_mem (put_mem m (a + 4 * of_nat i) (bytes32 w)) a (4 * length l) = concat (map bytes32 (l[i := w]))"
proof (rule nth_equalityI)
  fix j assume "j < length (get_mem (put_mem m (a + 4 * of_nat i) (bytes32 w)) a (4 * length l))"
  then have j: "j < 4 * length l" by simp
  have old: "m (a + of_nat j) = bytes32 (l ! (j div 4)) ! (j mod 4)"
    using arg_cong [OF assms(1), of "\<lambda>b. b ! j"] j by (simp add: get_mem_def nth_word_bytes)
  have "4 * i \<le> j \<and> j < 4 * i + 4 \<longleftrightarrow> j div 4 = i" "j div 4 = i \<Longrightarrow> j - 4 * i = j mod 4"
    using minus_mult_div_eq_mod [of j 4] by auto
  then show "get_mem (put_mem m (a + 4 * of_nat i) (bytes32 w)) a (4 * length l) ! j = concat (map bytes32 (l[i := w])) ! j"
    using put_mem_at [OF assms(3), of "4 * i" "bytes32 w" j m] j assms(2) old
    by (auto simp: get_mem_def nth_word_bytes nth_list_update)
qed simp

definition set_words :: "(nat \<times> u32) list \<Rightarrow> u32 list \<Rightarrow> u32 list" where
  "set_words = fold (\<lambda>(i, w) l. l[i := w])"

lemma put_words_read:
  assumes "unat a + 4 * k \<le> 2 ^ 64"
  shows "get_mem m a (4 * k) = concat (map bytes32 l) \<Longrightarrow> length l = k \<Longrightarrow> \<forall>(i, w) \<in> set ws. i < k
    \<Longrightarrow> get_mem (put_words a ws m) a (4 * k) = concat (map bytes32 (set_words ws l))"
proof (induction ws arbitrary: m l)
  case Nil
  then show ?case by (simp add: put_words_def set_words_def)
next
  case (Cons x ws)
  obtain i w where x: "x = (i, w)" by (cases x)
  have "get_mem (put_mem m (a + 4 * of_nat i) (bytes32 w)) a (4 * k) = concat (map bytes32 (l[i := w]))"
    using put_word_read [of m a l i w] Cons.prems assms x by auto
  from Cons.IH [OF this] Cons.prems x show ?case
    by (simp add: put_words_def set_words_def)
qed

definition zeroed :: "memory \<Rightarrow> u64 \<Rightarrow> nat \<Rightarrow> bool" where
  "zeroed m a n \<longleftrightarrow> get_mem m a n = replicate n 0"

lemma zeroed_less: "zeroed m a n \<Longrightarrow> k \<le> n \<Longrightarrow> zeroed m a k"
  by (auto simp: zeroed_def list_eq_iff_nth_eq get_mem_def)

lemma zeroed_zero_mem: "unat a + unat n \<le> 2 ^ 64 \<Longrightarrow> zeroed (zero_mem m a n) a (unat n)"
  using get_put_mem [of a "replicate (unat n) 0" m] by (simp add: zeroed_def zero_mem_put)

lemma zeroed_zero_mem_other:
  "zeroed m b k \<Longrightarrow> apart a (unat n) b k \<Longrightarrow> unat a + unat n \<le> 2 ^ 64 \<Longrightarrow> unat b + k \<le> 2 ^ 64 \<Longrightarrow> zeroed (zero_mem m a n) b k"
  using get_put_mem_other [of a "replicate (unat n) 0" b k m] by (simp add: zeroed_def zero_mem_put)

lemma zero_bytes: "concat (map bytes32 (replicate k 0)) = replicate (4 * k) 0"
proof (induction k)
  case (Suc k)
  have "bytes32 0 = replicate 4 0" by (simp add: bytes32_def eval_nat_numeral)
  with Suc show ?case by (simp add: replicate_add [symmetric])
qed simp

lemma request_words:
  assumes "unat a + 4 * k \<le> 2 ^ 64" "zeroed m a n" "4 * k \<le> n" "\<forall>(i, w) \<in> set ws. i < k"
  shows "get_mem (put_words a ws m) a (4 * k) = concat (map bytes32 (set_words ws (replicate k 0)))"
  using zeroed_less [OF assms(2,3)] assms(1,4) by (intro put_words_read) (simp_all add: zeroed_def zero_bytes del: map_replicate)

text \<open>Fields of four and of eight bytes, and updates of a list of words.\<close>

lemma field_bytes: "take 4 (bytes64 v) = bytes32 (ucast v)" "take 8 (bytes64 v) = bytes32 (ucast (v AND 0xFFFFFFFF)) @ bytes32 (ucast (drop_bit 32 v))"
proof -
  have "(ucast (v AND mask 32) :: u32) = ucast v" by (rule bit_word_eqI) (auto simp: bit_simps)
  then show "take 8 (bytes64 v) = bytes32 (ucast (v AND 0xFFFFFFFF)) @ bytes32 (ucast (drop_bit 32 v))"
    by (simp add: bytes64_def mask_eq_exp_minus_1)
qed (simp add: bytes64_def)

lemma u32_back: "ucast (ucast (w :: u32) :: u64) = w"
  by (rule bit_word_eqI) (auto simp: bit_simps)

lemma update_numeral: "(x # xs)[numeral v := y] = x # xs[pred_numeral v := y]"
  by (simp add: numeral_eq_Suc)

lemma zero_words: "replicate 10 (0 :: u32) = [0, 0, 0, 0, 0, 0, 0, 0, 0, 0]"
  "replicate 12 (0 :: u32) = [0, 0, 0, 0, 0, 0, 0, 0, 0, 0, 0, 0]"
  "replicate 14 (0 :: u32) = [0, 0, 0, 0, 0, 0, 0, 0, 0, 0, 0, 0, 0, 0]"
  by (simp_all add: eval_nat_numeral)

text \<open>The header of a block request, and where an input event has its fields.\<close>

lemma blk_header_struct: "blk_header t sector = encode virtio_blk_req ((\<lambda>_. 0)(''type'' := ucast t, ''sector'' := sector))"
proof -
  have "(ucast (v AND mask 32) :: u32) = ucast v" for v :: u64 by (rule bit_word_eqI) (auto simp: bit_simps)
  then show ?thesis
    by (simp add: blk_header_def encode_def virtio_blk_req_def field_bytes u32_back bytes64_def mask_eq_exp_minus_1)
qed

lemma input_event_fields: "offset_of virtio_input_event ''code'' = 2" "offset_of virtio_input_event ''value'' = 4" "size_of virtio_input_event = 8"
  by (simp_all add: offset_of_def size_of_def virtio_input_event_def)

lemmas struct_defs = encode_def inside_def size_of_def offset_of_def virtio_gpu_ctrl_hdr_def virtio_gpu_rect_def
  virtio_gpu_resource_create_2d_def virtio_gpu_resource_attach_backing_def virtio_gpu_mem_entry_def virtio_gpu_set_scanout_def
  virtio_gpu_transfer_to_host_2d_def virtio_gpu_resource_flush_def virtio_gpu_resp_display_info_def



end
