(* ===== verification/Virtio_Handshake.thy ===== *)
theory Virtio_Handshake
  imports Virtio_Early_Properties Struct_Layouts
begin

text \<open>
  Both display drivers with a display that answers as it should: the handshakes complete and agree.
\<close>

section \<open>A display that answers properly\<close>

definition answer :: "u32 \<Rightarrow> u32" where
  "answer t = (if t = VIRTIO_GPU_CMD_GET_DISPLAY_INFO then VIRTIO_GPU_RESP_OK_DISPLAY_INFO else VIRTIO_GPU_RESP_OK_NODATA)"

text \<open>It finds the request behind the newest ring slot and writes the type of its answer where the chain says.\<close>

definition obliging :: "'v service" where
  "obliging base q m v =
     (let d = desc q (unat (avail_ring q (unat (avail_idx q - 1) mod VIRTQ_SIZE)))
      in Some (1, q\<lparr>used_idx := used_idx q + 1\<rparr>,
           put_mem m (addr (desc q (unat (next_desc d)))) (bytes32 (answer (load32 m (addr d)))), v))"

lemma get32_bytes32: "get32 (bytes32 w) 0 = w"
  using get32_put32 [of 0 "bytes32 w" w] by (simp add: put32_def overwrite_def)

lemma load32_put: "unat a + 4 \<le> 2 ^ 64 \<Longrightarrow> load32 (put_mem m a (bytes32 w)) a = w"
  using get_put_mem [of a "bytes32 w" m] by (simp add: load32_def get32_bytes32)

lemma obliging_send:
  assumes "in_step s" "unat b + 4 \<le> 2 ^ 64"
  shows "\<exists>s'. early_send_gpu_command obliging a m b n (out, s, v) = Inr (answer (load32 (mem s) a), out, s', v)
    \<and> in_step s' \<and> dma_heap_curr s' = dma_heap_curr s"
proof -
  let ?g = "global_desc_idx s"
  have g: "unat (?g mod 256) = unat ?g mod 256" "unat ((?g + 1) mod 256) = (unat ?g + 1) mod 256"
    using next_desc_index [of ?g 0] next_desc_index [of ?g 1] by simp_all
  have "(x + 1) mod 256 \<noteq> x mod (256 :: nat)" for x by (simp add: mod_Suc)
  then have "unat (?g mod 256) \<noteq> unat ((?g + 1) mod 256)" unfolding g by (rule not_sym)
  then show ?thesis
    using assms
    by (simp add: early_send_gpu_command_def take_desc_def early_announce_def effects Let_def waiting_def await_def obliging_def
        in_step_def set_avail_def set_desc_def load32_put)
qed

lemma first_word:
  assumes "unat a + 4 * k \<le> 2 ^ 64" "zeroed m a n" "4 * k \<le> n" "\<forall>(i, w) \<in> set ws. i < k" "0 < k"
  shows "load32 (put_words a ws m) a = set_words ws (replicate k 0) ! 0"
proof -
  let ?m = "put_words a ws m" and ?l = "set_words ws (replicate k 0)"
  have len: "length (set_words ws l) = length l" for l
    unfolding set_words_def by (induction ws arbitrary: l) auto
  have "get_mem ?m a 4 = take 4 (get_mem ?m a (4 * k))"
    using assms(5) by (simp add: get_mem_def take_map min_def)
  also have "\<dots> = bytes32 (?l ! 0)"
    using request_words [OF assms(1-4)] len [of "replicate k 0"] assms(5) by (cases ?l) simp_all
  finally show ?thesis by (simp add: load32_def get32_bytes32)
qed

text \<open>Room in the arena.\<close>

definition ready :: "nat \<Rightarrow> virtio \<Rightarrow> bool" where
  "ready b s \<longleftrightarrow> in_step s \<and> unat (dma_heap_curr s) \<le> b"

lemma bump_ready:
  assumes "ready b s" "unat al = 2 ^ j" "j < 32" "b + 2 ^ j + unat n \<le> 2 ^ 62"
  obtains a s' where "bump_allocate n al s = (a, s')" "in_step s'" "mem s' = zero_mem (mem s) a n"
    "unat (dma_heap_curr s') = unat a + unat n" "unat (dma_heap_curr s) \<le> unat a" "unat a \<le> b + 2 ^ j"
  by (rule bump_room [OF assms(2,3), of s n]) (use assms(1,4) that in \<open>auto simp: ready_def\<close>)

lemma bump8_ready:
  assumes "ready b s" "b + 8 + unat n \<le> 2 ^ 62"
  obtains a s' where "bump_allocate n 8 s = (a, s')" "in_step s'" "mem s' = zero_mem (mem s) a n"
    "unat (dma_heap_curr s') = unat a + unat n" "unat (dma_heap_curr s) \<le> unat a" "unat a \<le> b + 8"
  by (rule bump_ready [OF assms(1), of 8 3 n]) (use assms(2) in simp_all)

lemma obliging_command:
  assumes "ready b s" "b + 500 \<le> 2 ^ 62" "unat n = 4 * k" "0 < k" "k < 20" "\<forall>(i, w) \<in> set ws. i < k"
    "set_words ws (replicate k 0) ! 0 \<noteq> VIRTIO_GPU_CMD_GET_DISPLAY_INFO"
  shows "\<exists>s'. early_command obliging n ws what (out, s, v) = Inr (out, s', v) \<and> ready (b + 200) s'"
proof -
  obtain req s1 where b1: "bump_allocate n 8 s = (req, s1)" "in_step s1" "mem s1 = zero_mem (mem s) req n"
    "unat (dma_heap_curr s1) = unat req + unat n" "unat req \<le> b + 8"
    by (rule bump8_ready [OF assms(1), of n]) (use assms(2,3,5) in simp_all)
  have "ready (b + 88) s1" using b1(2,4,5) assms(3,5) by (simp add: ready_def)
  then obtain resp s2 where b2: "bump_allocate 24 8 s1 = (resp, s2)" "in_step s2" "mem s2 = zero_mem (mem s1) resp 24"
    "unat (dma_heap_curr s2) = unat resp + 24" "unat req + unat n \<le> unat resp" "unat resp \<le> b + 96"
    by (rule bump8_ready [of "b + 88" s1 24]) (use assms(2) b1(4) in simp_all)
  let ?s = "s2\<lparr>mem := put_words req ws (mem s2)\<rparr>"
  have "zeroed (mem s2) req (unat n)"
    unfolding b1(3) b2(3) using b1(5) b2(5,6) assms(2,3,5)
    by (intro zeroed_zero_mem_other zeroed_zero_mem) (simp_all add: apart_def)
  then have "load32 (mem ?s) req = set_words ws (replicate k 0) ! 0"
    using first_word [of req k "mem s2" "unat n" ws] b1(5) assms(2-6) by simp
  moreover have "in_step ?s" "dma_heap_curr ?s = dma_heap_curr s2" using b2(2) by (simp_all add: in_step_def)
  moreover have "unat resp + 4 \<le> 2 ^ 64" using b2(6) assms(2) by simp
  ultimately obtain s' where "early_send_gpu_command obliging req n resp 24 (out, ?s, v) = Inr (VIRTIO_GPU_RESP_OK_NODATA, out, s', v)"
    "in_step s'" "dma_heap_curr s' = dma_heap_curr s2"
    using obliging_send [of ?s resp req n 24 out v] assms(7) by (auto simp: answer_def)
  then show ?thesis
    using b2(4,6) by (simp add: early_command_def b1(1) b2(1) expect_def ready_def)
qed

lemma obliging_words:
  "set_words (create_words w h) (replicate 10 0) ! 0 \<noteq> VIRTIO_GPU_CMD_GET_DISPLAY_INFO"
  "set_words (attach_words fb f) (replicate 12 0) ! 0 \<noteq> VIRTIO_GPU_CMD_GET_DISPLAY_INFO"
  "set_words (scanout_words w h) (replicate 12 0) ! 0 \<noteq> VIRTIO_GPU_CMD_GET_DISPLAY_INFO"
  "set_words (transfer_words w h) (replicate 14 0) ! 0 \<noteq> VIRTIO_GPU_CMD_GET_DISPLAY_INFO"
  "set_words (flush_words w h) (replicate 12 0) ! 0 \<noteq> VIRTIO_GPU_CMD_GET_DISPLAY_INFO"
  by (simp_all add: set_words_def zero_words update_numeral create_words_def attach_words_def scanout_words_def
      transfer_words_def flush_words_def)

lemma obliging_index: "\<forall>(i, w) \<in> set (create_words x y). i < 10" "\<forall>(i, w) \<in> set (attach_words fb f). i < 12"
  "\<forall>(i, w) \<in> set (scanout_words x y). i < 12" "\<forall>(i, w) \<in> set (transfer_words x y). i < 14" "\<forall>(i, w) \<in> set (flush_words x y). i < 12"
  by (simp_all add: create_words_def attach_words_def scanout_words_def transfer_words_def flush_words_def)

lemma obliging_commands:
  assumes "ready b s" "b + 500 \<le> 2 ^ 62"
  shows "\<exists>s'. early_command obliging 40 (create_words w h) what (out, s, v) = Inr (out, s', v) \<and> ready (b + 200) s'"
    "\<exists>s'. early_command obliging 48 (attach_words fb f) what (out, s, v) = Inr (out, s', v) \<and> ready (b + 200) s'"
    "\<exists>s'. early_command obliging 48 (scanout_words w h) what (out, s, v) = Inr (out, s', v) \<and> ready (b + 200) s'"
    "\<exists>s'. early_command obliging 56 (transfer_words w h) what (out, s, v) = Inr (out, s', v) \<and> ready (b + 200) s'"
    "\<exists>s'. early_command obliging 48 (flush_words w h) what (out, s, v) = Inr (out, s', v) \<and> ready (b + 200) s'"
  by (rule obliging_command [OF assms _ _ _ obliging_index(1) obliging_words(1)]
      obliging_command [OF assms _ _ _ obliging_index(2) obliging_words(2)]
      obliging_command [OF assms _ _ _ obliging_index(3) obliging_words(3)]
      obliging_command [OF assms _ _ _ obliging_index(4) obliging_words(4)]
      obliging_command [OF assms _ _ _ obliging_index(5) obliging_words(5)]; simp)+

lemma obliging_show:
  assumes "ready b s" "b + 2 ^ 33 \<le> 2 ^ 62"
  shows "\<exists>out' s'. early_gpu_show obliging w h (out, s, v) = Inr (out', s', v) \<and> in_step s'"
proof -
  let ?n = "w * h * 4"
  let ?out = "out @ lit ''[GPU] Display Info OK. Binding Resolution...\<newline>''"
  have n: "unat ?n < 2 ^ LENGTH(32)" by (rule unsigned_less)
  obtain s1 where c1: "early_command obliging 40 (create_words w h) ''GPU: CREATE failed: '' (?out, s, v) = Inr (?out, s1, v)" "ready (b + 200) s1"
    using obliging_commands(1) [OF assms(1)] assms(2) by fastforce
  have "unat (4096 :: u32) = 2 ^ 12" "(12 :: nat) < 32" "b + 200 + 2 ^ 12 + unat ?n \<le> 2 ^ 62" using assms(2) n by simp_all
  then obtain fb s2 where c2: "bump_allocate ?n 4096 s1 = (fb, s2)" "in_step s2" "unat (dma_heap_curr s2) = unat fb + unat ?n" "unat fb \<le> b + 200 + 2 ^ 12"
    by (rule bump_ready [OF c1(2)])
  then have "ready (b + 2 ^ 32 + 5000) s2" using n by (simp add: ready_def)
  then obtain s3 where c3: "early_command obliging 48 (attach_words fb ?n) ''GPU: ATTACH failed: '' (?out, s2, v) = Inr (?out, s3, v)" "ready (b + 2 ^ 32 + 5200) s3"
    using obliging_commands(2) [of "b + 2 ^ 32 + 5000" s2] assms(2) by (fastforce)
  let ?s3 = "emit (Map_Framebuffer fb (ucast ?n)) s3"
  have "ready (b + 2 ^ 32 + 5200) ?s3" using c3(2) by (simp add: ready_def in_step_def emit_def)
  then obtain s4 where c4: "early_command obliging 48 (scanout_words w h) ''GPU: SCANOUT failed: '' (?out, ?s3, v) = Inr (?out, s4, v)" "ready (b + 2 ^ 32 + 5400) s4"
    using obliging_commands(3) [of "b + 2 ^ 32 + 5200" ?s3] assms(2) by (fastforce)
  let ?s4 = "clean_range fb (fb + ucast ?n) (s4\<lparr>mem := fill_pixels fb ?n 0xFF0000FF (mem s4)\<rparr>)"
  have "ready (b + 2 ^ 32 + 5400) ?s4" using c4(2) by (simp add: ready_def in_step_def clean_range_ops)
  then obtain s5 where c5: "early_command obliging 56 (transfer_words w h) ''GPU: TRANSFER failed: '' (?out, ?s4, v) = Inr (?out, s5, v)" "ready (b + 2 ^ 32 + 5600) s5"
    using obliging_commands(4) [of "b + 2 ^ 32 + 5400" ?s4] assms(2) by (fastforce)
  then obtain s6 where "early_command obliging 48 (flush_words w h) ''GPU: FLUSH failed: '' (?out, s5, v) = Inr (?out, s6, v)" "in_step s6"
    using obliging_commands(5) [of "b + 2 ^ 32 + 5600" s5] assms(2) by (fastforce simp: ready_def)
  then show ?thesis
    using c1(1) c2(1) c3(1) c4(1) c5(1) by (simp add: early_gpu_show_def Let_def)
qed

text \<open>With such a display both handshakes complete, in states that agree.\<close>

theorem handshakes_complete:
  assumes "in_step s" "unat (dma_heap_curr s) + 2 ^ 34 \<le> 2 ^ 62"
  shows "\<exists>out' s' t. early_gpu_init obliging (out, s, v) = Inr (out', s', v) \<and> gpu_init obliging (s, v) = Inr (t, v) \<and> agree s' t"
proof -
  let ?b = "unat (dma_heap_curr s)" and ?out = "out @ lit ''[GPU] Commencing VirtIO Handshake...\<newline>''"
  have "ready ?b s" using assms(1) by (simp add: ready_def)
  then obtain req s1 where b1: "bump_allocate 24 8 s = (req, s1)" "in_step s1" "mem s1 = zero_mem (mem s) req 24"
    "unat (dma_heap_curr s1) = unat req + 24" "unat req \<le> ?b + 8"
    by (rule bump8_ready [of ?b s 24]) (use assms(2) in simp_all)
  then have "ready (?b + 32) s1" by (simp add: ready_def)
  then obtain resp s2 where b2: "bump_allocate 408 8 s1 = (resp, s2)" "in_step s2" "unat (dma_heap_curr s2) = unat resp + 408" "unat resp \<le> ?b + 40"
    by (rule bump8_ready [of "?b + 32" s1 408]) (use assms(2) in simp_all)
  let ?s = "s2\<lparr>mem := put_mem (mem s2) req (bytes32 VIRTIO_GPU_CMD_GET_DISPLAY_INFO)\<rparr>"
  have "in_step ?s" "unat resp + 4 \<le> 2 ^ 64" using b2(2,4) assms(2) by (simp_all add: in_step_def)
  moreover have "load32 (mem ?s) req = VIRTIO_GPU_CMD_GET_DISPLAY_INFO" using b1(5) assms(2) by (simp add: load32_put)
  ultimately obtain s3 where c: "early_send_gpu_command obliging req 24 resp 408 (?out, ?s, v) = Inr (VIRTIO_GPU_RESP_OK_DISPLAY_INFO, ?out, s3, v)"
    "in_step s3" "dma_heap_curr s3 = dma_heap_curr s2"
    using obliging_send [of ?s resp req 24 408 ?out v] by (auto simp: answer_def)
  then have "ready (?b + 448) s3" using b2(3,4) by (simp add: ready_def)
  then have shown: "\<exists>out' s'. early_gpu_show obliging w h (?out, s3, v) = Inr (out', s', v)" for w h
    using obliging_show [of "?b + 448" s3 w h ?out v] assms(2) by auto
  let ?w = "load32 (mem s3) (resp + 32)" and ?h = "load32 (mem s3) (resp + 36)"
  obtain out' s' where early: "early_gpu_init obliging (out, s, v) = Inr (out', s', v)"
  proof (cases "?w = 0 \<or> ?h = 0")
    case True
    then show ?thesis using shown [of 1280 800] that by (auto simp: early_gpu_init_def b1(1) b2(1) c(1) expect_def Let_def)
  next
    case False
    then show ?thesis using shown [of ?w ?h] that by (auto simp: early_gpu_init_def b1(1) b2(1) c(1) expect_def Let_def)
  qed
  then show ?thesis
    using init_follows [OF same_stateI [OF agree_refl], of obliging out s v] by (fastforce simp: follows_def same_state_def)
qed

end
