(* ===== verification/Fat32_Layout.thy ===== *)
theory Fat32_Layout
  imports Fat32 Struct_Layouts
begin

text \<open>
  The packed structures of \<^verbatim>\<open>include/os_fat32.h\<close>: the file system model reads each field at the offset the
  structure gives it.
\<close>

definition mbr_partition_entry :: fields where
  "mbr_partition_entry = [(''status'', 1), (''chs_first'', 3), (''type'', 1), (''chs_last'', 3), (''lba_start'', 4), (''sector_count'', 4)]"

definition mbr_sector :: fields where
  "mbr_sector = (''bootstrap'', 446) # concat (replicate 4 (inside ''partitions'' mbr_partition_entry)) @ [(''signature'', 2)]"

definition fat32_bpb :: fields where
  "fat32_bpb = [(''jmp'', 3), (''oem_name'', 8), (''bytes_per_sector'', 2), (''sectors_per_cluster'', 1), (''reserved_sectors'', 2),
     (''fat_count'', 1), (''root_dir_entries'', 2), (''total_sectors_16'', 2), (''media_descriptor'', 1), (''sectors_per_fat_16'', 2),
     (''sectors_per_track'', 2), (''head_count'', 2), (''hidden_sectors'', 4), (''total_sectors_32'', 4),
     (''sectors_per_fat_32'', 4), (''ext_flags'', 2), (''fs_version'', 2), (''root_cluster'', 4), (''fs_info_sector'', 2),
     (''backup_boot_sector'', 2), (''reserved'', 12), (''drive_number'', 1), (''reserved1'', 1), (''boot_signature'', 1),
     (''volume_id'', 4), (''volume_label'', 11), (''fs_type'', 8)]"

definition fat32_dir_entry :: fields where
  "fat32_dir_entry = [(''name'', 11), (''attr'', 1), (''nt_res'', 1), (''crt_time_tenth'', 1), (''crt_time'', 2), (''crt_date'', 2),
     (''lst_acc_date'', 2), (''fst_clus_hi'', 2), (''wrt_time'', 2), (''wrt_date'', 2), (''fst_clus_lo'', 2), (''file_size'', 4)]"

lemmas fat_layout_defs = offset_of_def size_of_def inside_def mbr_partition_entry_def mbr_sector_def fat32_bpb_def fat32_dir_entry_def

lemma fat_struct_sizes: "size_of mbr_sector = 512" "size_of fat32_bpb = 90" "size_of fat32_dir_entry = 32"
  by (simp_all add: fat_layout_defs eval_nat_numeral)

lemma bpb_at_offsets:
  "bpb_bytes_per_sector b = get16 b (offset_of fat32_bpb ''bytes_per_sector'')"
  "bpb_sectors_per_cluster b = b ! offset_of fat32_bpb ''sectors_per_cluster''"
  "bpb_reserved_sectors b = get16 b (offset_of fat32_bpb ''reserved_sectors'')"
  "bpb_fat_count b = b ! offset_of fat32_bpb ''fat_count''"
  "bpb_total_sectors_16 b = get16 b (offset_of fat32_bpb ''total_sectors_16'')"
  "bpb_total_sectors_32 b = get32 b (offset_of fat32_bpb ''total_sectors_32'')"
  "bpb_sectors_per_fat_32 b = get32 b (offset_of fat32_bpb ''sectors_per_fat_32'')"
  "bpb_root_cluster b = get32 b (offset_of fat32_bpb ''root_cluster'')"
  by (simp_all add: fat_layout_defs bpb_bytes_per_sector_def bpb_sectors_per_cluster_def bpb_reserved_sectors_def bpb_fat_count_def
      bpb_total_sectors_16_def bpb_total_sectors_32_def bpb_sectors_per_fat_32_def bpb_root_cluster_def)

lemma dir_at_offsets:
  "dir_attr b i = b ! (size_of fat32_dir_entry * i + offset_of fat32_dir_entry ''attr'')"
  "dir_cluster b i = push_bit 16 (ucast (get16 b (size_of fat32_dir_entry * i + offset_of fat32_dir_entry ''fst_clus_hi'')))
     OR ucast (get16 b (size_of fat32_dir_entry * i + offset_of fat32_dir_entry ''fst_clus_lo''))"
  "dir_file_size b i = get32 b (size_of fat32_dir_entry * i + offset_of fat32_dir_entry ''file_size'')"
  by (simp_all add: fat_layout_defs dir_attr_def dir_cluster_def dir_file_size_def)

end
