(* ===== verification/Spec2Isabelle.thy ===== *)
theory Spec2Isabelle
  imports Cold_Start Ledger_File Virtio_Handshake Fat32_Layout
begin

text \<open>
  A model of the AI-OS Exchange kernel, a bare-metal AArch64 kernel with a shell, and what it
  guarantees.

  The program. \<^verbatim>\<open>kernel/main.c\<close> brings up the translation tables (\<^verbatim>\<open>kernel/mmu.c\<close>), the virtio devices
  (\<^verbatim>\<open>kernel/virtio.c\<close>: block, GPU, keyboard), the network card (\<^verbatim>\<open>kernel/virtio_net.c\<close>), the file
  system (\<^verbatim>\<open>modules/fs/fat32.c\<close>) and the watcher (\<^verbatim>\<open>kernel/watcher.c\<close>), and drops to the shell
  (\<^verbatim>\<open>modules/shell_gui/main.c\<close>) at EL0. The shell sends requests through system calls
  (\<^verbatim>\<open>kernel/syscall.c\<close>): the handler logs them in the watcher's event ring, carries them out on the
  volume and queues the reply in the mailbox, where keys and UART characters queue too. The file
  system reaches the disk through the block driver; the flush of the watcher appends ledger entries
  to a file; the shell draws into the framebuffer that the GPU driver had mapped.

  Theories, each opening with what it holds:
  \<^item> \<open>Prelude\<close>: machine integers (\<open>u8\<close> to \<open>u64\<close>, wrapping), C strings, little-endian fields, results
    (\<open>res\<close>: a value, or \<open>Spin\<close> for a call that never returns, or \<open>OutOfBounds\<close> for an access outside
    an array), \<open>res_ok\<close> for calls that leave no array, and \<open>io\<close>, the services the kernel's components
    use. \<open>Ring\<close>: ring buffers as lists.
  \<^item> \<open>Uart\<close>: number formats of \<^verbatim>\<open>kernel/uart.c\<close> and \<^verbatim>\<open>kernel/watcher.c\<close>.
  \<^item> \<open>Watcher\<close>: the event ring, the ledger commit and the flush. The ring implements a bounded log;
    the flush persists what was logged since the last one, until the ring has been full.
  \<^item> \<open>Fat32\<close>, \<open>Fat32_Lemmas\<close>, \<open>Block_Device\<close>, \<open>Fat32_Sim\<close>, \<open>Fat32_Files\<close>, \<open>Fat32_Append\<close>,
    \<open>Fat32_Properties\<close>, \<open>Fat32_Listing\<close>: the file system over the contract \<open>block_device\<close>. A call over
    a device does what it does over a map of sectors; \<open>file_of\<close> is the map from names to contents that
    a volume stands for, and writing and appending are updates of it, but for the cases shown.
  \<^item> \<open>Virtio\<close>, \<open>Virtio_Lemmas\<close>, \<open>Virtio_Blk\<close>, \<open>Virtio_Cache\<close>: queues, arena, the block, GPU and input
    drivers; the block driver keeps \<open>block_device\<close> over any device that serves its descriptor chains
    (\<open>virtio_disk\<close>). \<open>Virtio_Gpu\<close>, \<open>Virtio_Probe\<close>: the GPU driver over displays that complete their
    requests, and probing of whole boards; both say how much of the arena is taken.
  \<^item> \<open>Struct_Layouts\<close>, \<open>Fat32_Layout\<close>: the packed structures of \<^verbatim>\<open>include/os_virtio.h\<close> and
    \<^verbatim>\<open>include/os_fat32.h\<close>, and the drivers' requests and the file system's accessors against them.
  \<^item> \<open>Loader\<close>: \<^verbatim>\<open>kernel/loader.c\<close> with the kernel's panic, and \<^verbatim>\<open>kernel/gic.c\<close>; most of their
    routines are stubs.
  \<^item> \<open>Virtio_Early\<close>, \<open>Virtio_Early_Properties\<close>, \<open>Virtio_Handshake\<close>: \<^verbatim>\<open>virtio.c\<close> in the root directory,
    the display driver that \<^verbatim>\<open>kernel/virtio.c\<close> grew out of and that the Makefile does not compile. Where
    its handshake succeeds, the later one does the same; what the earlier one checks, the later one
    does not.
  \<^item> \<open>Virtio_Net\<close>, \<open>Virtio_Net_Properties\<close>: the network card's receive queue and the reader of the
    volume field of a FIX message.
  \<^item> \<open>Mmu\<close>, \<open>Mmu_Properties\<close>: the translation tables, and the walk the processor does over them.
    The tables grant exactly \<open>memory_map\<close>, and the framebuffer window on top of it.
  \<^item> \<open>Ipc\<close>, \<open>Syscall\<close>, \<open>Syscall_Properties\<close>: the mailbox (contract \<open>fifo\<close>) and the system call
    handler, requests and replies end to end. \<open>Ledger_File\<close>: from the event ring through a flush to
    \<^verbatim>\<open>LEDGER.LOG\<close> and its readers.
  \<^item> \<open>Terminal\<close>, \<open>Terminal_Lemmas\<close>, \<open>Terminal_Grid\<close>: the shell's font and drawing routines; the
    framebuffer is the picture of a grid of characters, \<open>shows_grid\<close>.
  \<^item> \<open>Shell\<close>, \<open>Shell_Kernel\<close>, \<open>Shell_Safety\<close>, \<open>Shell_Session\<close>: the shell over any system calls
    (\<open>sys\<close>) and over the kernel's handler (\<open>kernel_sys\<close>). \<open>inbox\<close> is what its waiting loops rely on,
    \<open>shell_host\<close> what keeps it inside its memory; both are interpreted on the handler.
  \<^item> \<open>Boot\<close>, \<open>Boot_Properties\<close>: the serial line at register level (contract \<open>uart_line\<close>), the fatal
    exception report, and \<open>kernel_main\<close>. \<open>Cold_Start\<close>: on any board, from power-on through
    the shell's greeting to a file written and shown.

  State and operations. Static variables of a file are the fields of one record per component
  (\<open>watcher\<close>, \<open>fat_fs\<close>, \<open>mailbox\<close>, \<open>virtio\<close>, \<open>net\<close>, \<open>mmu\<close>, and \<open>shell\<close> for the locals of
  \<^verbatim>\<open>shell_main\<close>), passed and returned by every operation; hardware state is a type variable. A pointer
  to a message or a buffer is the list of its bytes. Uninitialised local arrays hold bytes given by a
  parameter \<open>stale\<close>, so that what leaks from them shows. Register writes and cache maintenance are
  recorded in order where they matter.

  Fuel. Loops bounded by data are recursions over it. Loops on hardware or on a queue take fuel, and
  running out of it is \<open>Spin\<close>; the theorems say how much is enough: \<open>sync_loop\<close> runs over the 64 slots
  of the ring, \<open>fat_walk\<close> over the code's own guard, a drain over the characters there are and one
  poll more, \<open>wait_reply\<close> over the at most 255 waiting messages and one call more, \<open>uart_wait\<close> over
  the polls a full queue lasts. \<open>trade.listen\<close> does not come back: it is \<open>Spin\<close> for any fuel.

  Not modelled. The start-up code, the exception vectors and the linker scripts (assembly; the
  addresses the linker chooses are parameters); the Rust virtual machine, whose entries are the
  parameters \<open>vm\<close> and \<open>vm_init\<close>; \<^verbatim>\<open>kernel/virtio.h\<close> (an older copy of \<^verbatim>\<open>include/os_virtio.h\<close> that
  no file includes), \<^verbatim>\<open>kernel/syscall_matrix.c\<close> and \<^verbatim>\<open>kernel/mmu_snippet.c\<close> (fragments to be pasted
  elsewhere, which the Makefile does not compile); the cartridge and bundle headers of
  \<^verbatim>\<open>include/os_loader.h\<close>, which only the host tools write; the host tools. Barriers and TLB
  maintenance have no effect here, memory is sequentially consistent, and a cache line that is not
  cleaned is visible only in the record of operations. The print service of the components is a
  function; \<open>uart_print\<close> shows what stands behind it.
\<close>

end
